(* ===== verification/Carloop_Prelude.thy ===== *)
theory Carloop_Prelude
  imports Complex_Main "HOL-Library.Word"
begin

text \<open>
  Shared vocabulary of the Carloop development: the machine-integer types of the
  Particle firmware (\<open>uint8_t\<close>, \<open>uint32_t\<close>, \<open>unsigned long\<close>, which is 32 bits wide
  on the ARM targets), the collections of facts the component theories share, and
  the generic lemmas on words and lists that several components need (the
  wrap-around of elapsed-time computations, list updates inside fixed buffers).
\<close>

type_synonym u8 = "8 word"
type_synonym u32 = "32 word"
type_synonym ulong = "32 word"

named_theorems carloop_ops "operations of the Carloop facade, unfolded by component proofs"
named_theorems hw_ops "operations of the Particle hardware layer"

unbundle bit_operations_syntax

subsection \<open>Elapsed time with unsigned wrap-around\<close>

text \<open>
  The firmware measures time as \<open>millis() - t\<close> on \<open>unsigned long\<close>. Read as the
  true distance in milliseconds, the difference is exact as long as less than
  \<open>2^32\<close> milliseconds have passed, even when the counter wraps in between.
\<close>

lemma unat_word_of_nat_diff:
  fixes t :: nat
  assumes "d < 2 ^ LENGTH('a)"
  shows "unat (word_of_nat (t + d) - word_of_nat t :: 'a::len word) = d"
proof -
  have "(word_of_nat (t + d) :: 'a word) - word_of_nat t = word_of_nat d"
    by simp
  then show ?thesis using assms by (simp add: unat_of_nat)
qed

lemma unat_of_nat_small: "n < 2 ^ LENGTH('a) \<Longrightarrow> unat (word_of_nat n :: 'a::len word) = n"
  by (simp add: unat_of_nat)

lemma unat_u8_lt: "unat (d :: u8) < 256"
  using unsigned_less [of d] by simp

subsection \<open>Packing bit fields\<close>

text \<open>
  \<open>(a << k) | b\<close> with \<open>b < 2^k\<close> is the sum \<open>a * 2^k + b\<close>: the shifted value and the
  low field have no bit in common.
\<close>

lemma push_bit_or_small:
  fixes a b :: "'a::len word"
  assumes "unat b < 2 ^ k"
  shows "push_bit k a OR b = push_bit k a + b"
proof -
  have "unat (take_bit k b) = unat b"
    using assms by (simp add: unsigned_take_bit_eq take_bit_nat_eq_self_iff)
  then have tb: "take_bit k b = b" by (simp add: word_unat_eq_iff)
  have "\<not> bit (push_bit k a) n \<or> \<not> bit b n" for n
    by (subst tb [symmetric]) (auto simp: bit_simps)
  then show ?thesis by (simp add: disjunctive_add)
qed

lemma push_bit_or_unat:
  fixes a b :: "'a::len word"
  assumes "unat b < 2 ^ k" "unat a * 2 ^ k + unat b < 2 ^ LENGTH('a)"
  shows "unat (push_bit k a OR b) = unat a * 2 ^ k + unat b"
proof -
  have "unat (push_bit k a) = unat a * 2 ^ k"
    using assms(2) by (simp only: unsigned_push_bit_eq) (simp add: take_bit_eq_mod push_bit_eq_mult)
  then show ?thesis
    using assms by (simp add: push_bit_or_small unat_add_lem [THEN iffD1])
qed

lemma word_of_nat_div_mod:
  "(word_of_nat (n div k) * word_of_nat k + word_of_nat (n mod k) :: 'a::len word) = word_of_nat n"
  by (metis div_mult_mod_eq of_nat_add of_nat_mult)

text \<open>A 32-bit word read as a C \<open>int\<close>: two's complement.\<close>

lemma sint_u32: "sint (w::32 word) = (if unat w < 2^31 then int (unat w) else int (unat w) - 2^32)"
proof -
  have u: "unat w < 2^32" using unsigned_less [of w] by simp
  have "sint w = signed_take_bit 31 (uint w)" by (simp add: sint_uint)
  also have "\<dots> = take_bit 32 (uint w) - 2^32 * of_bool (bit (uint w) 31)"
    by (simp add: signed_take_bit_eq_take_bit_minus)
  also have "bit (uint w) 31 = bit (unat w) 31"
    by (simp add: bit_simps)
  also have "\<dots> = odd (unat w div 2^31)"
    by (simp add: bit_iff_odd)
  also have "odd (unat w div 2^31) = (2^31 \<le> unat w)"
    using u by (cases "unat w < 2^31") (simp_all add: less_mult_imp_div_less div_le_mono, simp add: odd_iff_mod_2_eq_one)
  finally show ?thesis by (simp add: bintr_uint)
qed

subsection \<open>Lists as fixed buffers\<close>

lemma take_Suc_list_update:
  "i < length xs \<Longrightarrow> take (Suc i) (xs[i := x]) = take i xs @ [x]"
  by (simp add: take_Suc_conv_app_nth)

end
