(* ===== verification/Hardware.thy ===== *)
theory Hardware
  imports Carloop_Prelude
begin

text \<open>
  The Particle device layer the Carloop library calls: GPIO pins (\<open>pinMode\<close>,
  \<open>digitalWrite\<close>), the 12-bit ADC (\<open>analogRead\<close>), the \<open>Serial1\<close> UART that the
  GPS module is wired to, thread creation, the millisecond clock \<open>millis()\<close>,
  and the \<open>CANChannel\<close> driver with its \<open>CANMessage\<close> frames. None of this code is in the repository (it is the device
  OS), so these definitions follow the interface the spec (section 6) describes:
  they are the collaborators' contracts, not their implementations.
\<close>

subsection \<open>Pins\<close>

datatype level = LOW | HIGH

datatype PinMode = INPUT | OUTPUT

text \<open>Digital pins \<open>D0\<close>..\<open>D7\<close> and analog pins \<open>A0\<close>..\<open>A7\<close> of the Particle pin map.\<close>

datatype pin = D nat | A nat

abbreviation D0 :: pin where "D0 \<equiv> D 0"
abbreviation D7 :: pin where "D7 \<equiv> D 7"
abbreviation A0 :: pin where "A0 \<equiv> A 0"
abbreviation A1 :: pin where "A1 \<equiv> A 1"

datatype can_pins = CAN_D1_D2 | CAN_C4_C5

subsection \<open>CAN frames and the CAN channel\<close>

text \<open>
  \<open>CANMessage\<close>: the identifier, the data length and eight data bytes; its default
  constructor zero-initialises every field.
\<close>

record CANMessage =
  msg_id :: u32
  msg_len :: u8
  msg_data :: "u8 list"

definition CANMessage_default :: CANMessage where
  "CANMessage_default = \<lparr>msg_id = 0, msg_len = 0, msg_data = replicate 8 0\<rparr>"

text \<open>
  \<open>CANChannel\<close>: the live bit rate is the one given to the last \<open>begin\<close>; frames
  received from the bus wait in \<open>ch_rx\<close>, transmitted frames are recorded in
  \<open>ch_tx\<close>. \<open>receive\<close> never blocks: it answers \<open>None\<close> when the channel is
  disabled or no frame is waiting.
\<close>

record CANChannel =
  ch_pins :: can_pins
  ch_enabled :: bool
  ch_speed :: u32
  ch_rx :: "CANMessage list"
  ch_tx :: "CANMessage list"

definition CANChannel_new :: "can_pins \<Rightarrow> CANChannel" where
  "CANChannel_new p = \<lparr>ch_pins = p, ch_enabled = False, ch_speed = 0, ch_rx = [], ch_tx = []\<rparr>"

definition CANChannel_begin :: "u32 \<Rightarrow> CANChannel \<Rightarrow> CANChannel" where
  [hw_ops]: "CANChannel_begin baud ch = ch\<lparr>ch_enabled := True, ch_speed := baud\<rparr>"

definition CANChannel_end :: "CANChannel \<Rightarrow> CANChannel" where
  [hw_ops]: "CANChannel_end ch = ch\<lparr>ch_enabled := False\<rparr>"

definition CANChannel_isEnabled :: "CANChannel \<Rightarrow> bool" where
  [hw_ops]: "CANChannel_isEnabled ch = ch_enabled ch"

definition CANChannel_transmit :: "CANMessage \<Rightarrow> CANChannel \<Rightarrow> bool \<times> CANChannel" where
  [hw_ops]: "CANChannel_transmit m ch =
     (if ch_enabled ch then (True, ch\<lparr>ch_tx := ch_tx ch @ [m]\<rparr>) else (False, ch))"

fun CANChannel_receive :: "CANChannel \<Rightarrow> CANMessage option \<times> CANChannel" where
  "CANChannel_receive ch =
     (if \<not> ch_enabled ch then (None, ch)
      else (case ch_rx ch of
              [] \<Rightarrow> (None, ch)
            | m # ms \<Rightarrow> (Some m, ch\<lparr>ch_rx := ms\<rparr>)))"

text \<open>A frame arriving from the bus is queued only while the channel is enabled.\<close>

definition CANChannel_arrive :: "CANMessage \<Rightarrow> CANChannel \<Rightarrow> CANChannel" where
  [hw_ops]: "CANChannel_arrive m ch = (if ch_enabled ch then ch\<lparr>ch_rx := ch_rx ch @ [m]\<rparr> else ch)"

subsection \<open>The board: pins, ADC, UART and threads\<close>

record hw =
  pinModes :: "pin \<Rightarrow> PinMode option"
  pinLevels :: "pin \<Rightarrow> level"
  adcValue :: "pin \<Rightarrow> int"
  serial1Baud :: "nat option"
  serial1Rx :: "char list"
  threads :: "string list"
  usbBaud :: "nat option"

definition hw_init :: "(pin \<Rightarrow> int) \<Rightarrow> hw" where
  "hw_init adc = \<lparr>pinModes = (\<lambda>_. None), pinLevels = (\<lambda>_. LOW), adcValue = adc,
     serial1Baud = None, serial1Rx = [], threads = [], usbBaud = None\<rparr>"

definition pinMode :: "pin \<Rightarrow> PinMode \<Rightarrow> hw \<Rightarrow> hw" where
  [hw_ops]: "pinMode p m h = h\<lparr>pinModes := (pinModes h)(p := Some m)\<rparr>"

definition digitalWrite :: "pin \<Rightarrow> level \<Rightarrow> hw \<Rightarrow> hw" where
  [hw_ops]: "digitalWrite p v h = h\<lparr>pinLevels := (pinLevels h)(p := v)\<rparr>"

text \<open>The ADC of the STM32 is 12 bits wide: a sample is a code in \<open>[0, 4096)\<close>.\<close>

definition analogRead :: "pin \<Rightarrow> hw \<Rightarrow> int" where
  [hw_ops]: "analogRead p h = adcValue h p"

definition adc_wf :: "hw \<Rightarrow> bool" where
  "adc_wf h \<longleftrightarrow> (\<forall>p. 0 \<le> adcValue h p \<and> adcValue h p < 4096)"

text \<open>
  \<open>Serial1.begin\<close> sets the baud rate and leaves bytes already received in the
  buffer; bytes arrive only once the UART has been started.
\<close>

definition Serial1_begin :: "nat \<Rightarrow> hw \<Rightarrow> hw" where
  [hw_ops]: "Serial1_begin baud h = h\<lparr>serial1Baud := Some baud\<rparr>"

text \<open>
  \<open>Serial.begin(baud)\<close> opens the USB serial port; the characters the examples
  print on it are kept by each example's own state.
\<close>

definition Serial_begin :: "nat \<Rightarrow> hw \<Rightarrow> hw" where
  [hw_ops]: "Serial_begin baud h = h\<lparr>usbBaud := Some baud\<rparr>"

definition Serial1_available :: "hw \<Rightarrow> bool" where
  [hw_ops]: "Serial1_available h \<longleftrightarrow> serial1Rx h \<noteq> []"

definition Serial1_arrive :: "char \<Rightarrow> hw \<Rightarrow> hw" where
  [hw_ops]: "Serial1_arrive c h =
     (if serial1Baud h \<noteq> None then h\<lparr>serial1Rx := serial1Rx h @ [c]\<rparr> else h)"

text \<open>\<open>Serial1.read()\<close> answers \<open>-1\<close> on an empty buffer, which \<open>char c = ...\<close> turns into \<open>0xFF\<close>.\<close>

fun Serial1_read :: "hw \<Rightarrow> char \<times> hw" where
  "Serial1_read h = (case serial1Rx h of
       [] \<Rightarrow> (char_of (255::nat), h)
     | c # cs \<Rightarrow> (c, h\<lparr>serial1Rx := cs\<rparr>))"

definition Thread_new :: "string \<Rightarrow> hw \<Rightarrow> hw" where
  [hw_ops]: "Thread_new name h = h\<lparr>threads := threads h @ [name]\<rparr>"

text \<open>
  \<open>millis()\<close> at true time \<open>t\<close> milliseconds since boot: an \<open>unsigned long\<close>
  counter that wraps modulo \<open>2^32\<close>. A loop iteration runs within one millisecond
  tick, so the calls of \<open>millis()\<close> inside one handler return the same value.
\<close>

definition millis :: "nat \<Rightarrow> ulong" where
  "millis t = word_of_nat t"

subsection \<open>Frame facts of the collaborators\<close>

text \<open>\<open>receive\<close> only dequeues: the channel's state, bit rate and transmit log stay.\<close>

lemma CANChannel_receive_frame [simp]:
  "ch_enabled (snd (CANChannel_receive ch)) = ch_enabled ch"
  "ch_speed (snd (CANChannel_receive ch)) = ch_speed ch"
  "ch_tx (snd (CANChannel_receive ch)) = ch_tx ch"
  "ch_pins (snd (CANChannel_receive ch)) = ch_pins ch"
  by (simp_all split: list.split)

lemma CANChannel_receive_disabled:
  "\<not> ch_enabled ch \<Longrightarrow> CANChannel_receive ch = (None, ch)"
  by simp

lemma CANChannel_receive_Some:
  "CANChannel_receive ch = (Some m, ch') \<Longrightarrow> ch_rx ch = m # ch_rx ch'"
  by (auto split: if_splits list.splits)

declare CANChannel_receive.simps [simp del]

subsection \<open>Elapsed time on the wrapping clock\<close>

text \<open>
  \<open>millis() - t0\<close> on \<open>unsigned long\<close> is the true elapsed time whenever less than
  \<open>2^32\<close> ms have passed, even when the counter wrapped in between.
\<close>

lemma millis_elapsed:
  assumes "t0 \<le> t" "t - t0 < 2 ^ 32"
  shows "unat (millis t - millis t0) = t - t0"
  using unat_word_of_nat_diff [of "t - t0" t0, where 'a = 32] assms by (simp add: millis_def)

lemma millis_elapsed_le:
  assumes "t0 \<le> t" "t - t0 < 2 ^ 32" "k < 2 ^ 32"
  shows "(word_of_nat k \<le> millis t - millis t0) \<longleftrightarrow> k \<le> t - t0"
  using millis_elapsed [OF assms(1,2)] assms(3) by (simp add: word_le_nat_alt unat_of_nat_small)


end
