(* ===== verification/Board.thy ===== *)
theory Board
  imports Hardware
begin

text \<open>
  Board configuration and feature flags (\<open>src/src/carloop.h\<close>): the
  \<open>CarloopFeatures_e\<close> bit flags, the per-revision constants of
  \<open>CarloopRevision2\<close>, and the \<open>CarloopFeatures_e\<close> enumeration of the older
  top-level header \<open>src/carloop.h\<close>, whose values are not bit flags.
\<close>

unbundle bit_operations_syntax

subsection \<open>Feature flags\<close>

text \<open>
  An unscoped enumeration whose values are combined with \<open>|\<close> and tested with
  \<open>&\<close>; its values fit in 32 bits, so a mask is a \<open>u32\<close>.
\<close>

definition CARLOOP_CAN :: u32 where "CARLOOP_CAN = 1"
definition CARLOOP_GPS :: u32 where "CARLOOP_GPS = 2"
definition CARLOOP_BATTERY :: u32 where "CARLOOP_BATTERY = 4"
definition CARLOOP_ALL_FEATURES :: u32 where
  "CARLOOP_ALL_FEATURES = CARLOOP_CAN OR CARLOOP_GPS OR CARLOOP_BATTERY"

lemmas feature_flags = CARLOOP_CAN_def CARLOOP_GPS_def CARLOOP_BATTERY_def CARLOOP_ALL_FEATURES_def

subsection \<open>Board revision configuration\<close>

text \<open>
  The template parameter \<open>Config\<close> of \<open>Carloop<Config>\<close>: one record value per
  hardware revision. The battery factor is a \<open>float\<close> in the source; the model
  computes with exact reals.
\<close>

record config =
  CAN_PINS :: can_pins
  CAN_DEFAULT_SPEED :: u32
  BATTERY_PIN :: pin
  BATTERY_FACTOR :: real
  CAN_ENABLE_PIN :: pin
  CAN_ENABLE_ACTIVE :: level
  CAN_ENABLE_INACTIVE :: level
  GPS_BAUD_RATE :: nat
  GPS_ENABLE_PIN :: pin
  GPS_ENABLE_ACTIVE :: level
  GPS_ENABLE_INACTIVE :: level
  FEATURES :: u32

definition CarloopRevision2 :: config where
  "CarloopRevision2 = \<lparr>
     CAN_PINS = CAN_D1_D2,
     CAN_DEFAULT_SPEED = 500000,
     BATTERY_PIN = A1,
     BATTERY_FACTOR = 7.2,
     CAN_ENABLE_PIN = D0,
     CAN_ENABLE_ACTIVE = LOW,
     CAN_ENABLE_INACTIVE = HIGH,
     GPS_BAUD_RATE = 9600,
     GPS_ENABLE_PIN = A0,
     GPS_ENABLE_ACTIVE = HIGH,
     GPS_ENABLE_INACTIVE = LOW,
     FEATURES = CARLOOP_CAN OR CARLOOP_GPS OR CARLOOP_BATTERY\<rparr>"

text \<open>
  What the library silently relies on in a configuration: the three pins it drives
  are distinct (otherwise powering one subsystem down powers another down too), and
  each enable pin has complementary active and inactive levels.
\<close>

definition config_wf :: "config \<Rightarrow> bool" where
  "config_wf cfg \<longleftrightarrow>
     CAN_ENABLE_PIN cfg \<noteq> GPS_ENABLE_PIN cfg \<and>
     CAN_ENABLE_PIN cfg \<noteq> BATTERY_PIN cfg \<and>
     GPS_ENABLE_PIN cfg \<noteq> BATTERY_PIN cfg \<and>
     CAN_ENABLE_ACTIVE cfg \<noteq> CAN_ENABLE_INACTIVE cfg \<and>
     GPS_ENABLE_ACTIVE cfg \<noteq> GPS_ENABLE_INACTIVE cfg"

subsection \<open>The enumeration of the older header\<close>

text \<open>
  \<open>src/carloop.h\<close> declares \<open>CarloopFeatures_e\<close> without initialisers, so the
  enumerators count up from 0, and \<open>CARLOOP_ALL_FEATURES\<close> is \<open>0 | 1 | 2\<close>.
\<close>

definition legacy_CARLOOP_CAN :: u32 where "legacy_CARLOOP_CAN = 0"
definition legacy_CARLOOP_GPS :: u32 where "legacy_CARLOOP_GPS = 1"
definition legacy_CARLOOP_BATTERY :: u32 where "legacy_CARLOOP_BATTERY = 2"
definition legacy_CARLOOP_ALL_FEATURES :: u32 where
  "legacy_CARLOOP_ALL_FEATURES = legacy_CARLOOP_CAN OR legacy_CARLOOP_GPS OR legacy_CARLOOP_BATTERY"

subsection \<open>Facts about configurations\<close>

lemma config_wf_pins:
  assumes "config_wf cfg"
  shows "CAN_ENABLE_PIN cfg \<noteq> GPS_ENABLE_PIN cfg" "GPS_ENABLE_PIN cfg \<noteq> CAN_ENABLE_PIN cfg"
    "CAN_ENABLE_PIN cfg \<noteq> BATTERY_PIN cfg" "BATTERY_PIN cfg \<noteq> CAN_ENABLE_PIN cfg"
    "GPS_ENABLE_PIN cfg \<noteq> BATTERY_PIN cfg" "BATTERY_PIN cfg \<noteq> GPS_ENABLE_PIN cfg"
    "CAN_ENABLE_INACTIVE cfg \<noteq> CAN_ENABLE_ACTIVE cfg"
  using assms by (auto simp: config_wf_def)

lemma config_wf_Rev2: "config_wf CarloopRevision2"
  by (simp add: config_wf_def CarloopRevision2_def)

text \<open>
  An example for the finding on the older header: its enumerators are positions,
  not bits: a mask test
  \<open>features & CARLOOP_CAN\<close> with its \<open>CARLOOP_CAN = 0\<close> is false for every mask,
  its \<open>CARLOOP_ALL_FEATURES\<close> is 3, and its \<open>CARLOOP_BATTERY\<close> is the GPS bit of the
  current header, whose flags are three distinct bits with union 7.
\<close>

theorem legacy_flags_not_bits:
  "(\<forall>x. (x AND legacy_CARLOOP_CAN) = 0) \<and> legacy_CARLOOP_ALL_FEATURES = 3
   \<and> legacy_CARLOOP_BATTERY = CARLOOP_GPS \<and> CARLOOP_ALL_FEATURES = 7
   \<and> (CARLOOP_CAN AND CARLOOP_GPS) = 0 \<and> (CARLOOP_CAN AND CARLOOP_BATTERY) = 0
   \<and> (CARLOOP_GPS AND CARLOOP_BATTERY) = 0"
  by (simp add: legacy_CARLOOP_CAN_def legacy_CARLOOP_GPS_def legacy_CARLOOP_BATTERY_def
      legacy_CARLOOP_ALL_FEATURES_def feature_flags)

end
