(* ===== verification/Facade.thy ===== *)
theory Facade
  imports Board
begin

text \<open>
  The \<open>Carloop<Config>\<close> class of \<open>src/src/carloop.cpp\<close>: its members as a record,
  each method as a function on the pair of the object and the board. The GPS
  parser (\<open>TinyGPSPlus\<close>, an external library) is the type parameter \<open>'p\<close>: the
  facade only stores it, the ingest task of theory \<open>Gps_Ingest\<close> feeds it.
  The groups: feature gate (\<open>hasCAN\<close>, \<open>hasGPS\<close>, \<open>hasBattery\<close>), CAN gateway
  (\<open>setCANSpeed\<close>, \<open>enableCAN\<close>, \<open>disableCAN\<close>), GPS power and task creation
  (\<open>enableGPS\<close>, \<open>disableGPS\<close>), battery monitor (\<open>readBattery\<close>,
  \<open>enableBattery\<close>, \<open>update\<close>, \<open>battery\<close>), and \<open>carloop_begin\<close> composing them.
\<close>

unbundle bit_operations_syntax

record 'p carloop =
  canDriver :: CANChannel
  canSpeed :: u32
  gpsSerialThread :: bool
  gpsDriver :: 'p
  batteryVoltage :: real
  features :: u32

type_synonym 'p st = "'p carloop \<times> hw"

text \<open>
  The constructor initialises \<open>canDriver\<close>, \<open>canSpeed\<close> and \<open>gpsSerialThread\<close>
  (to \<open>NULL\<close>); \<open>gpsDriver\<close> is default-constructed. It leaves \<open>batteryVoltage\<close>
  and \<open>features\<close> uninitialised: they hold whatever the storage held, the
  parameters \<open>f0\<close> and \<open>v0\<close> (zero for an object of static storage duration, as
  every example declares it).
\<close>

definition Carloop :: "config \<Rightarrow> 'p \<Rightarrow> u32 \<Rightarrow> real \<Rightarrow> 'p carloop" where
  "Carloop cfg p0 f0 v0 = \<lparr>canDriver = CANChannel_new (CAN_PINS cfg),
     canSpeed = CAN_DEFAULT_SPEED cfg, gpsSerialThread = False, gpsDriver = p0,
     batteryVoltage = v0, features = f0\<rparr>"

subsection \<open>Feature gate\<close>

definition hasCAN :: "config \<Rightarrow> 'p carloop \<Rightarrow> bool" where
  [carloop_ops]: "hasCAN cfg c \<longleftrightarrow> (FEATURES cfg AND features c AND CARLOOP_CAN) \<noteq> 0"

definition hasGPS :: "config \<Rightarrow> 'p carloop \<Rightarrow> bool" where
  [carloop_ops]: "hasGPS cfg c \<longleftrightarrow> (FEATURES cfg AND features c AND CARLOOP_GPS) \<noteq> 0"

definition hasBattery :: "config \<Rightarrow> 'p carloop \<Rightarrow> bool" where
  [carloop_ops]: "hasBattery cfg c \<longleftrightarrow> (FEATURES cfg AND features c AND CARLOOP_BATTERY) \<noteq> 0"

subsection \<open>CAN gateway\<close>

definition setCANSpeed :: "u32 \<Rightarrow> 'p carloop \<Rightarrow> 'p carloop" where
  [carloop_ops]: "setCANSpeed s c = c\<lparr>canSpeed := s\<rparr>"

fun enableCAN :: "config \<Rightarrow> 'p st \<Rightarrow> 'p st" where
  "enableCAN cfg (c, h) =
     (let h1 = pinMode (CAN_ENABLE_PIN cfg) OUTPUT h;
          h2 = digitalWrite (CAN_ENABLE_PIN cfg) (CAN_ENABLE_ACTIVE cfg) h1
      in (c\<lparr>canDriver := CANChannel_begin (canSpeed c) (canDriver c)\<rparr>, h2))"

fun disableCAN :: "config \<Rightarrow> 'p st \<Rightarrow> 'p st" where
  "disableCAN cfg (c, h) =
     (let c1 = c\<lparr>canDriver := CANChannel_end (canDriver c)\<rparr>
      in (c1, digitalWrite (CAN_ENABLE_PIN cfg) (CAN_ENABLE_INACTIVE cfg) h))"

subsection \<open>GPS power and the ingest task\<close>

text \<open>
  \<open>new Thread("gps_serial", ...)\<close> runs only while \<open>gpsSerialThread\<close> is
  \<open>NULL\<close>; the thread itself (\<open>receiveSerialChars\<close>) is modelled in
  \<open>Gps_Ingest\<close>.
\<close>

fun enableGPS :: "config \<Rightarrow> 'p st \<Rightarrow> 'p st" where
  "enableGPS cfg (c, h) =
     (let h1 = pinMode (GPS_ENABLE_PIN cfg) OUTPUT h;
          h2 = digitalWrite (GPS_ENABLE_PIN cfg) (GPS_ENABLE_ACTIVE cfg) h1;
          h3 = Serial1_begin (GPS_BAUD_RATE cfg) h2
      in if \<not> gpsSerialThread c
         then (c\<lparr>gpsSerialThread := True\<rparr>, Thread_new ''gps_serial'' h3)
         else (c, h3))"

fun disableGPS :: "config \<Rightarrow> 'p st \<Rightarrow> 'p st" where
  "disableGPS cfg (c, h) = (c, digitalWrite (GPS_ENABLE_PIN cfg) (GPS_ENABLE_INACTIVE cfg) h)"

subsection \<open>Battery monitor\<close>

definition MAX_ANALOG_VALUE :: real where "MAX_ANALOG_VALUE = 4096"
definition MAX_ANALOG_VOLTAGE :: real where "MAX_ANALOG_VOLTAGE = 3.3"

definition readBattery :: "config \<Rightarrow> hw \<Rightarrow> real" where
  "readBattery cfg h =
     (let adcValue = analogRead (BATTERY_PIN cfg) h
      in real_of_int adcValue * MAX_ANALOG_VOLTAGE / MAX_ANALOG_VALUE * BATTERY_FACTOR cfg)"

text \<open>\<open>enableBattery\<close> takes one sample to settle the ADC and discards it.\<close>

fun enableBattery :: "config \<Rightarrow> 'p st \<Rightarrow> 'p st" where
  "enableBattery cfg (c, h) =
     (let h1 = pinMode (BATTERY_PIN cfg) INPUT h;
          _ = readBattery cfg h1
      in (c, h1))"

fun update :: "config \<Rightarrow> 'p st \<Rightarrow> 'p st" where
  "update cfg (c, h) =
     (if hasBattery cfg c then (c\<lparr>batteryVoltage := readBattery cfg h\<rparr>, h) else (c, h))"

definition battery :: "'p carloop \<Rightarrow> real" where
  "battery c = batteryVoltage c"

text \<open>
  The accessors \<open>can()\<close> and \<open>gps()\<close> return references to the members: a read
  through them reads the member, a call through them updates it in place.
\<close>

definition can :: "'p carloop \<Rightarrow> CANChannel" where
  [simp]: "can c = canDriver c"

definition gps :: "'p carloop \<Rightarrow> 'p" where
  [simp]: "gps c = gpsDriver c"

subsection \<open>begin\<close>

fun carloop_begin :: "config \<Rightarrow> u32 \<Rightarrow> 'p st \<Rightarrow> 'p st" where
  "carloop_begin cfg f (c, h) =
     (let s0 = (c\<lparr>features := f\<rparr>, h);
          s1 = (if hasCAN cfg (fst s0) then enableCAN cfg s0 else s0);
          s2 = (if hasGPS cfg (fst s1) then enableGPS cfg s1 else s1);
          s3 = (if hasBattery cfg (fst s2) then enableBattery cfg s2 else s2)
      in s3)"

subsection \<open>The facade's calls and the environment's events\<close>

text \<open>
  A foreground program drives the facade through its public methods; between two
  calls the environment may change the ADC input or deliver a CAN frame. The
  \<open>can()\<close> handle's \<open>receive\<close> and \<open>transmit\<close> pass through to the channel.
\<close>

datatype call =
    SetCANSpeed u32 | Begin u32 | Update | EnableCAN | DisableCAN
  | EnableGPS | DisableGPS | EnableBattery
  | CanReceive | CanTransmit CANMessage
  | AdcSample pin int | CanFrame CANMessage

fun exec_call :: "config \<Rightarrow> call \<Rightarrow> 'p st \<Rightarrow> 'p st" where
  "exec_call cfg (SetCANSpeed v) (c, h) = (setCANSpeed v c, h)"
| "exec_call cfg (Begin f) s = carloop_begin cfg f s"
| "exec_call cfg Update s = update cfg s"
| "exec_call cfg EnableCAN s = enableCAN cfg s"
| "exec_call cfg DisableCAN s = disableCAN cfg s"
| "exec_call cfg EnableGPS s = enableGPS cfg s"
| "exec_call cfg DisableGPS s = disableGPS cfg s"
| "exec_call cfg EnableBattery s = enableBattery cfg s"
| "exec_call cfg CanReceive (c, h) = (c\<lparr>canDriver := snd (CANChannel_receive (canDriver c))\<rparr>, h)"
| "exec_call cfg (CanTransmit m) (c, h) =
     (c\<lparr>canDriver := snd (CANChannel_transmit m (canDriver c))\<rparr>, h)"
| "exec_call cfg (AdcSample p v) (c, h) = (c, h\<lparr>adcValue := (adcValue h)(p := v)\<rparr>)"
| "exec_call cfg (CanFrame m) (c, h) = (c\<lparr>canDriver := CANChannel_arrive m (canDriver c)\<rparr>, h)"

fun run_calls :: "config \<Rightarrow> call list \<Rightarrow> 'p st \<Rightarrow> 'p st" where
  "run_calls cfg [] s = s"
| "run_calls cfg (e # es) s = run_calls cfg es (exec_call cfg e s)"

definition initial :: "config \<Rightarrow> 'p \<Rightarrow> u32 \<Rightarrow> real \<Rightarrow> (pin \<Rightarrow> int) \<Rightarrow> 'p st" where
  "initial cfg p0 f0 v0 adc = (Carloop cfg p0 f0 v0, hw_init adc)"

subsection \<open>The CAN gateway's contract\<close>

text \<open>
  What the spec promises of the CAN gateway (section 4.3), as an abstract machine:
  a staged bit rate, and the live bit rate of the channel when it runs. Staging
  never touches the live rate; starting copies the staged rate; stopping ends it.
\<close>

record can_gateway =
  staged :: u32
  live :: "u32 option"

datatype can_op = Stage u32 | Start | Stop | Keep

fun can_gateway_step :: "can_op \<Rightarrow> can_gateway \<Rightarrow> can_gateway" where
  "can_gateway_step (Stage v) g = g\<lparr>staged := v\<rparr>"
| "can_gateway_step Start g = g\<lparr>live := Some (staged g)\<rparr>"
| "can_gateway_step Stop g = g\<lparr>live := None\<rparr>"
| "can_gateway_step Keep g = g"

definition can_abs :: "'p st \<Rightarrow> can_gateway" where
  "can_abs s = \<lparr>staged = canSpeed (fst s),
     live = (if ch_enabled (canDriver (fst s)) then Some (ch_speed (canDriver (fst s))) else None)\<rparr>"

text \<open>Which abstract operation a call performs; \<open>begin\<close> starts the channel when the masked features ask for CAN.\<close>

fun can_event :: "config \<Rightarrow> call \<Rightarrow> 'p st \<Rightarrow> can_op" where
  "can_event cfg (SetCANSpeed v) s = Stage v"
| "can_event cfg (Begin f) s = (if hasCAN cfg ((fst s)\<lparr>features := f\<rparr>) then Start else Keep)"
| "can_event cfg EnableCAN s = Start"
| "can_event cfg DisableCAN s = Stop"
| "can_event cfg _ s = Keep"

subsection \<open>Invariants of the facade\<close>

text \<open>
  The ingest task exists exactly when \<open>gpsSerialThread\<close> is set, and it is the
  only thread the library creates.
\<close>

definition thread_inv :: "'p st \<Rightarrow> bool" where
  "thread_inv s \<longleftrightarrow> threads (snd s) = (if gpsSerialThread (fst s) then [''gps_serial''] else [])"

text \<open>The CAN channel runs exactly when its transceiver is powered: the enable pin is an output at its active level.\<close>

definition power_inv :: "config \<Rightarrow> 'p st \<Rightarrow> bool" where
  "power_inv cfg s \<longleftrightarrow>
     (ch_enabled (canDriver (fst s)) \<longleftrightarrow>
        pinModes (snd s) (CAN_ENABLE_PIN cfg) = Some OUTPUT \<and>
        pinLevels (snd s) (CAN_ENABLE_PIN cfg) = CAN_ENABLE_ACTIVE cfg)"

section \<open>Properties of the facade\<close>

subsection \<open>Shared lemmas\<close>

text \<open>Every invariant of one call is an invariant of every sequence of calls.\<close>

lemma run_calls_preserves:
  assumes "\<And>e s. P s \<Longrightarrow> P (exec_call cfg e s)"
  shows "P s \<Longrightarrow> P (run_calls cfg es s)"
  by (induction es arbitrary: s) (simp_all add: assms)

lemma exec_call_thread_inv:
  "thread_inv s \<Longrightarrow> thread_inv (exec_call cfg e s)"
  by (cases s; cases e) (auto simp: thread_inv_def hw_ops carloop_ops Let_def)

lemma initial_thread_inv: "thread_inv (initial cfg p0 f0 v0 adc)"
  by (simp add: thread_inv_def initial_def Carloop_def hw_init_def)

lemma exec_call_power_inv:
  "config_wf cfg \<Longrightarrow> power_inv cfg s \<Longrightarrow> power_inv cfg (exec_call cfg e s)"
  by (cases s; cases e) (auto simp: power_inv_def config_wf_def hw_ops Let_def carloop_ops)

lemma initial_power_inv: "power_inv cfg (initial cfg p0 f0 v0 adc)"
  by (simp add: power_inv_def initial_def Carloop_def hw_init_def CANChannel_new_def)

lemma exec_call_batteryVoltage:
  "e \<noteq> Update \<Longrightarrow> batteryVoltage (fst (exec_call cfg e s)) = batteryVoltage (fst s)"
  by (cases s; cases e) (auto simp: Let_def carloop_ops)

lemma exec_call_features:
  "features (fst (exec_call cfg e s)) = (case e of Begin f \<Rightarrow> f | _ \<Rightarrow> features (fst s))"
  by (cases s; cases e) (auto simp: Let_def carloop_ops)

lemma run_calls_batteryVoltage:
  "Update \<notin> set es \<Longrightarrow> batteryVoltage (fst (run_calls cfg es s)) = batteryVoltage (fst s)"
  by (induction es arbitrary: s) (simp_all add: exec_call_batteryVoltage [OF not_sym])

text \<open>What the ingest task shares with the foreground: no call touches the parser or the UART buffer, and none removes the task.\<close>

lemma exec_call_gps_frame [simp]:
  "gpsDriver (fst (exec_call cfg e s)) = gpsDriver (fst s)"
  "serial1Rx (snd (exec_call cfg e s)) = serial1Rx (snd s)"
  by (cases s; cases e; simp add: Let_def hw_ops carloop_ops)+

lemma exec_call_keeps_task:
  "gpsSerialThread (fst s) \<Longrightarrow> gpsSerialThread (fst (exec_call cfg e s))"
  by (cases s; cases e) (auto simp: Let_def hw_ops carloop_ops)

lemma exec_call_keeps_uart:
  "serial1Baud (snd s) \<noteq> None \<Longrightarrow> serial1Baud (snd (exec_call cfg e s)) \<noteq> None"
  by (cases s; cases e) (auto simp: Let_def hw_ops carloop_ops)

subsection \<open>begin\<close>

text \<open>
  C1. On a freshly constructed object, \<open>begin(f)\<close> stores \<open>f\<close> and brings up exactly
  the subsystems that both the board supports and \<open>f\<close> requests: the CAN channel
  runs at the default bit rate iff CAN is in both masks, the ingest task is created
  iff GPS is, the GPS power pin is configured iff GPS is, and the battery pin is
  configured as an input iff the battery is.
\<close>

theorem begin_enables_supported:
  assumes "config_wf cfg"
  shows "let s = carloop_begin cfg f (initial cfg p0 f0 v0 adc);
             can = (FEATURES cfg AND f AND CARLOOP_CAN) \<noteq> 0;
             gps = (FEATURES cfg AND f AND CARLOOP_GPS) \<noteq> 0;
             bat = (FEATURES cfg AND f AND CARLOOP_BATTERY) \<noteq> 0
         in features (fst s) = f \<and>
            can_abs s = \<lparr>staged = CAN_DEFAULT_SPEED cfg,
                          live = (if can then Some (CAN_DEFAULT_SPEED cfg) else None)\<rparr> \<and>
            gpsSerialThread (fst s) = gps \<and>
            pinModes (snd s) (GPS_ENABLE_PIN cfg) = (if gps then Some OUTPUT else None) \<and>
            pinModes (snd s) (BATTERY_PIN cfg) = (if bat then Some INPUT else None)"
  using config_wf_pins [OF assms]
  by (simp add: initial_def Carloop_def hw_init_def hw_ops carloop_ops
      CANChannel_new_def can_abs_def Let_def)

theorem begin_enables_supported_witness:
  "config_wf CarloopRevision2 \<and>
   (let s = carloop_begin CarloopRevision2 (CARLOOP_CAN OR CARLOOP_BATTERY)
              (initial CarloopRevision2 (0::nat) 0 0 (\<lambda>_. 0))
    in features (fst s) = CARLOOP_CAN OR CARLOOP_BATTERY \<and>
       can_abs s = \<lparr>staged = 500000, live = Some 500000\<rparr> \<and>
       gpsSerialThread (fst s) = False \<and>
       pinModes (snd s) A0 = None \<and>
       pinModes (snd s) A1 = Some INPUT)"
  using begin_enables_supported [OF config_wf_Rev2, of "CARLOOP_CAN OR CARLOOP_BATTERY" "0::nat" 0 0 "\<lambda>_. 0"]
    config_wf_Rev2
  by (simp add: CarloopRevision2_def feature_flags Let_def)

subsection \<open>The ingest task is created once\<close>

text \<open>
  C2. Whatever sequence of calls and environment events follows construction, the
  library has created at most one thread, and it has created one exactly when
  \<open>gpsSerialThread\<close> is set: a second \<open>enableGPS\<close> never spawns a second ingest task.
\<close>

theorem single_ingest_task:
  "let s = run_calls cfg es (initial cfg p0 f0 v0 adc)
   in length (threads (snd s)) \<le> 1 \<and> (threads (snd s) \<noteq> [] \<longleftrightarrow> gpsSerialThread (fst s))"
proof -
  have "thread_inv (run_calls cfg es (initial cfg p0 f0 v0 adc))"
    by (rule run_calls_preserves [OF exec_call_thread_inv initial_thread_inv])
  then show ?thesis by (simp add: thread_inv_def Let_def)
qed

lemma enableGPS_twice_one_task:
  "threads (snd (run_calls cfg [EnableGPS, EnableGPS] (initial cfg p0 f0 v0 adc))) = [''gps_serial'']"
  by (simp add: initial_def Carloop_def hw_init_def hw_ops Let_def)

subsection \<open>The CAN gateway implements its contract\<close>

text \<open>
  C3. Every call refines one step of the CAN gateway's contract: \<open>setCANSpeed\<close>
  only stages a bit rate and never changes the live one, \<open>enableCAN\<close> (and
  \<open>begin\<close> with CAN requested and supported) starts the channel at the staged
  rate, \<open>disableCAN\<close> stops it, and no other call or event touches either.
\<close>

theorem can_gateway_refinement:
  "can_abs (exec_call cfg e s) = can_gateway_step (can_event cfg e s) (can_abs s)"
  by (cases s; cases e) (auto simp: can_abs_def hw_ops Let_def carloop_ops)

lemma can_speed_staged_example:
  "can_abs (run_calls cfg [SetCANSpeed 250000, EnableCAN, SetCANSpeed 125000]
      (initial cfg p0 f0 v0 adc)) = \<lparr>staged = 125000, live = Some 250000\<rparr>"
  by (simp add: can_abs_def initial_def Carloop_def hw_ops carloop_ops Let_def)

subsection \<open>Power sequencing of the CAN transceiver\<close>

text \<open>
  C7. For a configuration whose pins are distinct and whose levels are
  complementary, in every state reachable from construction the CAN channel is
  running exactly when its transceiver enable pin is an output driven to the
  active level.
\<close>

theorem can_live_iff_powered:
  "config_wf cfg \<Longrightarrow> power_inv cfg (run_calls cfg es (initial cfg p0 f0 v0 adc))"
  by (rule run_calls_preserves [OF exec_call_power_inv initial_power_inv])

theorem can_live_iff_powered_witness:
  "config_wf CarloopRevision2 \<and>
   power_inv CarloopRevision2 (run_calls CarloopRevision2 [Begin CARLOOP_ALL_FEATURES, DisableCAN, EnableCAN]
      (initial CarloopRevision2 (0::nat) 0 0 (\<lambda>_. 0)))"
  using can_live_iff_powered [OF config_wf_Rev2,
      of "[Begin CARLOOP_ALL_FEATURES, DisableCAN, EnableCAN]" "0::nat" 0 0 "\<lambda>_. 0"]
    config_wf_Rev2 by simp

subsection \<open>Battery monitor\<close>

text \<open>
  C8. The cached battery voltage is refreshed only by \<open>update\<close>: after any sequence
  of calls without \<open>update\<close> (\<open>begin\<close> and \<open>enableBattery\<close> included), \<open>battery()\<close>
  returns the value the constructor left in \<open>batteryVoltage\<close>, which the constructor
  never initialises.
\<close>

theorem battery_stale_until_update:
  "Update \<notin> set es \<Longrightarrow> battery (fst (run_calls cfg es (initial cfg p0 f0 v0 adc))) = v0"
  by (simp add: run_calls_batteryVoltage battery_def initial_def Carloop_def)

theorem battery_stale_until_update_witness:
  "Update \<notin> set [Begin CARLOOP_ALL_FEATURES, EnableBattery] \<and>
   battery (fst (run_calls CarloopRevision2 [Begin CARLOOP_ALL_FEATURES, EnableBattery]
      (initial CarloopRevision2 (0::nat) 0 (1.5::real) (\<lambda>_. 2048)))) = 1.5"
  using battery_stale_until_update [of "[Begin CARLOOP_ALL_FEATURES, EnableBattery]"
      CarloopRevision2 "0::nat" 0 "1.5::real" "\<lambda>_. 2048"]
  by simp

text \<open>
  C9. A sample of the 12-bit ADC converts to a voltage between 0 and
  \<open>4095 / 4096 * 3.3 * BATTERY_FACTOR\<close> volts (23.76 V at most on revision 2).
\<close>

theorem readBattery_bounds:
  assumes "adc_wf h" and "0 \<le> BATTERY_FACTOR cfg"
  shows "0 \<le> readBattery cfg h \<and> readBattery cfg h \<le> 4095 / 4096 * 3.3 * BATTERY_FACTOR cfg"
proof -
  let ?a = "adcValue h (BATTERY_PIN cfg)"
  have "0 \<le> ?a \<and> ?a < 4096" using assms(1) by (simp add: adc_wf_def)
  then have "0 \<le> real_of_int ?a" "real_of_int ?a \<le> 4095" by simp_all
  moreover from this assms(2) have "BATTERY_FACTOR cfg * real_of_int ?a \<le> BATTERY_FACTOR cfg * 4095"
    by (simp add: mult_left_mono)
  ultimately show ?thesis using assms(2)
    by (simp add: readBattery_def MAX_ANALOG_VALUE_def MAX_ANALOG_VOLTAGE_def hw_ops mult.commute)
qed

theorem readBattery_bounds_witness:
  "adc_wf (hw_init (\<lambda>_. 4095)) \<and> 0 \<le> BATTERY_FACTOR CarloopRevision2 \<and>
   0 \<le> readBattery CarloopRevision2 (hw_init (\<lambda>_. 4095)) \<and>
   readBattery CarloopRevision2 (hw_init (\<lambda>_. 4095)) \<le> 4095 / 4096 * 3.3 * BATTERY_FACTOR CarloopRevision2"
proof -
  have a: "adc_wf (hw_init (\<lambda>_. 4095))" by (simp add: adc_wf_def hw_init_def)
  have f: "0 \<le> BATTERY_FACTOR CarloopRevision2" by (simp add: CarloopRevision2_def)
  show ?thesis using readBattery_bounds [OF a f] a f by simp
qed

text \<open>
  C10. The feature mask is set by \<open>begin\<close> alone: after any sequence of calls and
  events it is the argument of the last \<open>begin\<close>, or the constructor's value when
  there was none; no enable, disable, update or bus event changes it.
\<close>

theorem features_set_only_by_begin:
  "features (fst (run_calls cfg es s))
   = foldl (\<lambda>f e. case e of Begin g \<Rightarrow> g | _ \<Rightarrow> f) (features (fst s)) es"
proof (induction es arbitrary: s)
  case Nil
  then show ?case by simp
next
  case (Cons e es)
  show ?case
    using Cons.IH [of "exec_call cfg e s"] exec_call_features [of cfg e s]
    by (simp del: exec_call.simps split: call.split)
qed

end
