(* ===== verification/Gps_Ingest.thy ===== *)
theory Gps_Ingest
  imports Facade
begin

text \<open>
  The GPS ingest task (\<open>receiveSerialChars\<close> in \<open>src/src/carloop.cpp\<close>) running
  concurrently with the foreground program. The task loops forever: it takes the
  parser's lock (\<open>WITH_LOCK(gpsDriver)\<close>), feeds every byte \<open>Serial1\<close> has
  available to \<open>gpsDriver.encode\<close>, releases the lock and sleeps for 1 ms. The
  foreground calls the facade (theory \<open>Facade\<close>) and reads the parser, either
  inside its own \<open>WITH_LOCK(gps)\<close> section (as \<open>carloop_minimal.cpp\<close> does) or
  without the lock (as \<open>firmware/examples/minimal_example.cpp\<close> does); the
  UART receives bytes at any time once started.

  The parser is kept abstract: its state is the type \<open>'p\<close> of the facade's
  \<open>gpsDriver\<close> and \<open>encode\<close> is the parameter \<open>enc\<close>. Each step of the relation
  \<open>gps_step\<close> is one atomic action of one of the three actors; the ghost fields
  \<open>fed\<close> and \<open>arrived\<close> record the bytes given to \<open>encode\<close> and the bytes the
  UART received.
\<close>

datatype bg_pc =
    BgLoop   \<comment> \<open>top of \<open>while(true)\<close>, about to take the lock\<close>
  | BgDrain  \<comment> \<open>inside \<open>WITH_LOCK\<close>, in \<open>while(Serial1.available())\<close>\<close>
  | BgSleep  \<comment> \<open>in \<open>delay(1)\<close>\<close>

datatype owner = BgTask | Foreground

text \<open>A foreground reader collects the parser states its field reads see.\<close>

datatype 'p fg_pc = FgIdle | FgLocked "'p list" | FgUnlocked "'p list"

record 'p sys =
  obj :: "'p carloop"
  board :: hw
  lock :: "owner option"
  bg :: bg_pc
  fg :: "'p fg_pc"
  fed :: "char list"
  arrived :: "char list"

definition sys_init :: "config \<Rightarrow> 'p \<Rightarrow> u32 \<Rightarrow> real \<Rightarrow> (pin \<Rightarrow> int) \<Rightarrow> 'p sys" where
  "sys_init cfg p0 f0 v0 adc = \<lparr>obj = Carloop cfg p0 f0 v0, board = hw_init adc, lock = None,
     bg = BgLoop, fg = FgIdle, fed = [], arrived = []\<rparr>"

subsection \<open>Atomic actions\<close>

text \<open>
  Each atomic action of the three actors as a function on the whole state; the
  step relations below add the guards under which an actor may take it.
\<close>

named_theorems gps_ops "atomic actions of the ingest system"

text \<open>The ingest task: take the lock, decode one byte, release the lock, wake up.\<close>

definition acquire_op :: "'p sys \<Rightarrow> 'p sys" where
  [gps_ops]: "acquire_op s = s\<lparr>lock := Some BgTask, bg := BgDrain\<rparr>"

definition decode_op :: "('p \<Rightarrow> char \<Rightarrow> 'p) \<Rightarrow> 'p sys \<Rightarrow> 'p sys" where
  [gps_ops]: "decode_op enc s =
     (let (c, h') = Serial1_read (board s)
      in s\<lparr>obj := (obj s)\<lparr>gpsDriver := enc (gpsDriver (obj s)) c\<rparr>, board := h', fed := fed s @ [c]\<rparr>)"

definition release_op :: "'p sys \<Rightarrow> 'p sys" where
  [gps_ops]: "release_op s = s\<lparr>lock := None, bg := BgSleep\<rparr>"

definition wake_op :: "'p sys \<Rightarrow> 'p sys" where
  [gps_ops]: "wake_op s = s\<lparr>bg := BgLoop\<rparr>"

text \<open>The foreground: a facade call, and the reader's lock, field reads and unlock.\<close>

definition call_op :: "config \<Rightarrow> call \<Rightarrow> 'p sys \<Rightarrow> 'p sys" where
  [gps_ops]: "call_op cfg e s = (let (c', h') = exec_call cfg e (obj s, board s) in s\<lparr>obj := c', board := h'\<rparr>)"

definition fg_lock_op :: "'p sys \<Rightarrow> 'p sys" where
  [gps_ops]: "fg_lock_op s = s\<lparr>lock := Some Foreground, fg := FgLocked []\<rparr>"

definition fg_unlock_op :: "'p sys \<Rightarrow> 'p sys" where
  [gps_ops]: "fg_unlock_op s = s\<lparr>lock := None, fg := FgIdle\<rparr>"

definition peek_op :: "'p sys \<Rightarrow> 'p sys" where
  [gps_ops]: "peek_op s = s\<lparr>fg := FgUnlocked []\<rparr>"

definition peek_done_op :: "'p sys \<Rightarrow> 'p sys" where
  [gps_ops]: "peek_done_op s = s\<lparr>fg := FgIdle\<rparr>"

text \<open>A field read records the parser state it sees.\<close>

definition read_op :: "'p sys \<Rightarrow> 'p sys" where
  [gps_ops]: "read_op s =
     (case fg s of
        FgLocked obs \<Rightarrow> s\<lparr>fg := FgLocked (obs @ [gpsDriver (obj s)])\<rparr>
      | FgUnlocked obs \<Rightarrow> s\<lparr>fg := FgUnlocked (obs @ [gpsDriver (obj s)])\<rparr>
      | FgIdle \<Rightarrow> s)"

text \<open>The UART appends a received byte to \<open>Serial1\<close>'s buffer.\<close>

definition uart_rx_op :: "char \<Rightarrow> 'p sys \<Rightarrow> 'p sys" where
  [gps_ops]: "uart_rx_op c s = s\<lparr>board := Serial1_arrive c (board s), arrived := arrived s @ [c]\<rparr>"

subsection \<open>The step relations\<close>

text \<open>
  The ingest task loops forever: \<open>while(true) { WITH_LOCK(gpsDriver) { while
  (Serial1.available()) gpsDriver.encode(Serial1.read()); } delay(1); }\<close>. It
  runs once \<open>enableGPS\<close> has created it.
\<close>

inductive bg_step :: "('p \<Rightarrow> char \<Rightarrow> 'p) \<Rightarrow> 'p sys \<Rightarrow> 'p sys \<Rightarrow> bool" for enc where
  bg_acquire: "gpsSerialThread (obj s) \<Longrightarrow> bg s = BgLoop \<Longrightarrow> lock s = None \<Longrightarrow>
     bg_step enc s (acquire_op s)"
| bg_decode: "bg s = BgDrain \<Longrightarrow> Serial1_available (board s) \<Longrightarrow> bg_step enc s (decode_op enc s)"
| bg_release: "bg s = BgDrain \<Longrightarrow> \<not> Serial1_available (board s) \<Longrightarrow> bg_step enc s (release_op s)"
| bg_wake: "bg s = BgSleep \<Longrightarrow> bg_step enc s (wake_op s)"

text \<open>
  The foreground calls the facade at any time (no call touches the parser); a
  reader takes the lock only when it is free.
\<close>

inductive fg_step :: "config \<Rightarrow> 'p sys \<Rightarrow> 'p sys \<Rightarrow> bool" for cfg where
  fg_call: "fg_step cfg s (call_op cfg e s)"
| fg_lock: "fg s = FgIdle \<Longrightarrow> lock s = None \<Longrightarrow> fg_step cfg s (fg_lock_op s)"
| fg_read: "fg s \<noteq> FgIdle \<Longrightarrow> fg_step cfg s (read_op s)"
| fg_unlock: "fg s = FgLocked obs \<Longrightarrow> fg_step cfg s (fg_unlock_op s)"
| fg_peek: "fg s = FgIdle \<Longrightarrow> fg_step cfg s (peek_op s)"
| fg_peek_done: "fg s = FgUnlocked obs \<Longrightarrow> fg_step cfg s (peek_done_op s)"

inductive env_step :: "'p sys \<Rightarrow> 'p sys \<Rightarrow> bool" where
  uart_rx: "serial1Baud (board s) \<noteq> None \<Longrightarrow> env_step s (uart_rx_op c s)"

inductive gps_step :: "config \<Rightarrow> ('p \<Rightarrow> char \<Rightarrow> 'p) \<Rightarrow> 'p sys \<Rightarrow> 'p sys \<Rightarrow> bool" for cfg enc where
  background: "bg_step enc s t \<Longrightarrow> gps_step cfg enc s t"
| foreground: "fg_step cfg s t \<Longrightarrow> gps_step cfg enc s t"
| environment: "env_step s t \<Longrightarrow> gps_step cfg enc s t"

inductive reachable :: "config \<Rightarrow> ('p \<Rightarrow> char \<Rightarrow> 'p) \<Rightarrow> 'p \<Rightarrow> 'p sys \<Rightarrow> bool" for cfg enc p0 where
  init: "reachable cfg enc p0 (sys_init cfg p0 f0 v0 adc)"
| step: "reachable cfg enc p0 s \<Longrightarrow> gps_step cfg enc s t \<Longrightarrow> reachable cfg enc p0 t"

subsection \<open>The inner loop as a function\<close>

text \<open>
  \<open>while(Serial1.available()) gpsDriver.encode(Serial1.read())\<close> on the bytes
  buffered when the loop starts. Each iteration consumes a byte, so the loop ends.
\<close>

function drain_loop :: "('p \<Rightarrow> char \<Rightarrow> 'p) \<Rightarrow> 'p carloop \<times> hw \<Rightarrow> 'p carloop \<times> hw" where
  "drain_loop enc (c, h) =
     (if Serial1_available h
      then (let (ch, h') = Serial1_read h in drain_loop enc (c\<lparr>gpsDriver := enc (gpsDriver c) ch\<rparr>, h'))
      else (c, h))"
  by pat_completeness auto
termination
  by (relation "measure (\<lambda>(enc, c, h). length (serial1Rx h))")
     (auto simp: Serial1_available_def split: list.splits)

definition is_locked :: "'p fg_pc \<Rightarrow> bool" where
  "is_locked f \<longleftrightarrow> (case f of FgLocked _ \<Rightarrow> True | _ \<Rightarrow> False)"

subsection \<open>The invariant\<close>

text \<open>
  The lock's holder agrees with the actors' positions; every byte the UART received
  has either been given to \<open>encode\<close> or still waits in the buffer, in order; the
  parser is the result of encoding exactly the given bytes; and a foreground reader
  in a locked section has seen only the current parser state.
\<close>

definition gps_inv :: "('p \<Rightarrow> char \<Rightarrow> 'p) \<Rightarrow> 'p \<Rightarrow> 'p sys \<Rightarrow> bool" where
  "gps_inv enc p0 s \<longleftrightarrow>
     (lock s = Some BgTask \<longleftrightarrow> bg s = BgDrain) \<and>
     (lock s = Some Foreground \<longleftrightarrow> is_locked (fg s)) \<and>
     arrived s = fed s @ serial1Rx (board s) \<and>
     gpsDriver (obj s) = foldl enc p0 (fed s) \<and>
     (case fg s of FgLocked obs \<Rightarrow> set obs \<subseteq> {gpsDriver (obj s)} | _ \<Rightarrow> True)"

subsection \<open>Preservation, one actor at a time\<close>

lemma gps_inv_init: "gps_inv enc p0 (sys_init cfg p0 f0 v0 adc)"
  by (simp add: gps_inv_def sys_init_def Carloop_def hw_init_def is_locked_def)

lemma Serial1_read_available:
  "Serial1_available h \<Longrightarrow> Serial1_read h = (c, h') \<Longrightarrow>
   serial1Rx h = c # tl (serial1Rx h) \<and> h' = h\<lparr>serial1Rx := tl (serial1Rx h)\<rparr>"
  by (auto simp: Serial1_available_def split: list.splits)

lemma bg_step_gps_inv:
  assumes "bg_step enc s t" and "gps_inv enc p0 s"
  shows "gps_inv enc p0 t"
  using assms
proof (cases rule: bg_step.cases)
  case bg_decode
  then obtain c h' where rd: "Serial1_read (board s) = (c, h')" by (cases "Serial1_read (board s)")
  with bg_decode show ?thesis using assms(2) Serial1_read_available [OF bg_decode(3) rd]
    by (auto simp: gps_inv_def is_locked_def gps_ops split: fg_pc.splits)
qed (auto simp: gps_inv_def is_locked_def gps_ops split: fg_pc.splits)

lemma fg_step_gps_inv:
  assumes "fg_step cfg s t" and "gps_inv enc p0 s"
  shows "gps_inv enc p0 t"
  using assms
proof (cases rule: fg_step.cases)
  case (fg_call e)
  obtain c' h' where ex: "exec_call cfg e (obj s, board s) = (c', h')" by fastforce
  then have "gpsDriver c' = gpsDriver (obj s)" "serial1Rx h' = serial1Rx (board s)"
    using exec_call_gps_frame [of cfg e "(obj s, board s)"] by simp_all
  with fg_call ex assms(2) show ?thesis by (auto simp: gps_inv_def gps_ops split: fg_pc.splits)
qed (auto simp: gps_inv_def is_locked_def gps_ops split: fg_pc.splits)

lemma env_step_gps_inv:
  assumes "env_step s t" and "gps_inv enc p0 s"
  shows "gps_inv enc p0 t"
  using assms
  by (cases rule: env_step.cases) (auto simp: gps_inv_def Serial1_arrive_def gps_ops split: fg_pc.split)

lemma gps_step_gps_inv:
  "gps_step cfg enc s t \<Longrightarrow> gps_inv enc p0 s \<Longrightarrow> gps_inv enc p0 t"
  by (induction rule: gps_step.induct) (blast intro: bg_step_gps_inv fg_step_gps_inv env_step_gps_inv)+

lemma reachable_gps_inv: "reachable cfg enc p0 s \<Longrightarrow> gps_inv enc p0 s"
proof (induction rule: reachable.induct)
  case (init f0 v0 adc)
  show ?case by (rule gps_inv_init)
next
  case (step s t)
  then show ?case by (blast intro: gps_step_gps_inv)
qed

section \<open>Properties of the ingest task\<close>

subsection \<open>Shared lemmas\<close>

lemma reach_fg:
  "reachable cfg enc p0 s \<Longrightarrow> fg_step cfg s t \<Longrightarrow> reachable cfg enc p0 t"
  by (blast intro: reachable.step gps_step.foreground)

lemma reach_bg:
  "reachable cfg enc p0 s \<Longrightarrow> bg_step enc s t \<Longrightarrow> reachable cfg enc p0 t"
  by (blast intro: reachable.step gps_step.background)

lemma reach_env:
  "reachable cfg enc p0 s \<Longrightarrow> env_step s t \<Longrightarrow> reachable cfg enc p0 t"
  by (blast intro: reachable.step gps_step.environment)

lemma reach_gps_enabled:
  "reachable CarloopRevision2 enc p0 (call_op CarloopRevision2 EnableGPS (sys_init CarloopRevision2 p0 0 0 adc))"
  by (rule reach_fg [OF reachable.init fg_step.fg_call])

lemma gps_enabled_state:
  "call_op CarloopRevision2 EnableGPS (sys_init CarloopRevision2 p0 0 0 adc) =
   (sys_init CarloopRevision2 p0 0 0 adc)\<lparr>
      obj := (Carloop CarloopRevision2 p0 0 0)\<lparr>gpsSerialThread := True\<rparr>,
      board := (hw_init adc)\<lparr>pinModes := (\<lambda>_. None)(A0 := Some OUTPUT),
                 pinLevels := (\<lambda>_. LOW)(A0 := HIGH), serial1Baud := Some 9600,
                 threads := [''gps_serial'']\<rparr>\<rparr>"
  by (simp add: gps_ops sys_init_def Carloop_def hw_init_def CarloopRevision2_def hw_ops Let_def)

lemma call_op_eq:
  "call_op cfg e s = s\<lparr>obj := fst (exec_call cfg e (obj s, board s)), board := snd (exec_call cfg e (obj s, board s))\<rparr>"
  by (simp add: call_op_def split: prod.split)

lemma bg_step_keeps_task: "bg_step enc s t \<Longrightarrow> gpsSerialThread (obj t) = gpsSerialThread (obj s)"
  by (induction rule: bg_step.induct) (simp_all add: gps_ops split: prod.split)

lemma drain_loop_eq:
  "drain_loop enc (c, h) =
     (c\<lparr>gpsDriver := foldl enc (gpsDriver c) (serial1Rx h)\<rparr>, h\<lparr>serial1Rx := []\<rparr>)"
proof (induction enc "(c, h)" arbitrary: c h rule: drain_loop.induct)
  case (1 enc c h)
  show ?case
  proof (cases "Serial1_available h")
    case True
    then obtain x xs where rx: "serial1Rx h = x # xs" by (auto simp: Serial1_available_def neq_Nil_conv)
    then have rd: "Serial1_read h = (x, h\<lparr>serial1Rx := xs\<rparr>)" by simp
    have "drain_loop enc (c, h) = drain_loop enc (c\<lparr>gpsDriver := enc (gpsDriver c) x\<rparr>, h\<lparr>serial1Rx := xs\<rparr>)"
      using True rd by simp
    also have "\<dots> = (c\<lparr>gpsDriver := foldl enc (gpsDriver c) (serial1Rx h)\<rparr>, h\<lparr>serial1Rx := []\<rparr>)"
      using "1" [OF True rd [symmetric] refl] rx by simp
    finally show ?thesis .
  next
    case False
    then show ?thesis by (simp add: Serial1_available_def)
  qed
qed

declare drain_loop.simps [simp del]

lemma drain_steps:
  "bg s = BgDrain \<Longrightarrow>
   (bg_step enc)\<^sup>*\<^sup>* s
     (release_op (s\<lparr>obj := (obj s)\<lparr>gpsDriver := foldl enc (gpsDriver (obj s)) (serial1Rx (board s))\<rparr>,
                    board := (board s)\<lparr>serial1Rx := []\<rparr>, fed := fed s @ serial1Rx (board s)\<rparr>))"
proof (induction "serial1Rx (board s)" arbitrary: s)
  case Nil
  then have "bg_step enc s (release_op s)"
    by (intro bg_step.bg_release) (simp_all add: Serial1_available_def)
  then have "(bg_step enc)\<^sup>*\<^sup>* s (release_op s)" by (rule r_into_rtranclp)
  moreover have b: "(board s)\<lparr>serial1Rx := []\<rparr> = board s"
    using Nil(1) by (cases "board s") simp
  ultimately show ?case using Nil(1) [symmetric] by (simp add: b)
next
  case (Cons x xs)
  let ?t = "decode_op enc s"
  have rx: "serial1Rx (board s) = x # xs" using Cons(2) by simp
  have t: "?t = s\<lparr>obj := (obj s)\<lparr>gpsDriver := enc (gpsDriver (obj s)) x\<rparr>,
                  board := (board s)\<lparr>serial1Rx := xs\<rparr>, fed := fed s @ [x]\<rparr>"
    using rx by (simp add: decode_op_def)
  have step: "bg_step enc s ?t"
    using Cons.prems rx by (intro bg_step.bg_decode) (simp_all add: Serial1_available_def)
  have "(bg_step enc)\<^sup>*\<^sup>* ?t
     (release_op (?t\<lparr>obj := (obj ?t)\<lparr>gpsDriver := foldl enc (gpsDriver (obj ?t)) (serial1Rx (board ?t))\<rparr>,
                    board := (board ?t)\<lparr>serial1Rx := []\<rparr>, fed := fed ?t @ serial1Rx (board ?t)\<rparr>))"
    by (rule Cons.hyps(1)) (simp_all add: t Cons.prems)
  then have "(bg_step enc)\<^sup>*\<^sup>* ?t
     (release_op (s\<lparr>obj := (obj s)\<lparr>gpsDriver := foldl enc (gpsDriver (obj s)) (serial1Rx (board s))\<rparr>,
                    board := (board s)\<lparr>serial1Rx := []\<rparr>, fed := fed s @ serial1Rx (board s)\<rparr>))"
    by (simp add: t rx)
  with step show ?case by (rule converse_rtranclp_into_rtranclp)
qed

subsection \<open>Claims\<close>

text \<open>
  C4. Mutual exclusion: whenever the ingest task is inside its locked drain loop,
  it holds the lock and no foreground reader is inside a locked section.
\<close>
theorem ingest_mutual_exclusion:
  assumes "reachable cfg enc p0 s" and "bg s = BgDrain"
  shows "lock s = Some BgTask \<and> \<not> is_locked (fg s)"
  using reachable_gps_inv [OF assms(1)] assms(2) by (auto simp: gps_inv_def)

theorem ingest_mutual_exclusion_witness:
  "let s = acquire_op (uart_rx_op CHR ''$''
             (call_op CarloopRevision2 EnableGPS (sys_init CarloopRevision2 (0::nat) 0 0 (\<lambda>_. 0))))
   in reachable CarloopRevision2 (\<lambda>n c. Suc n) 0 s \<and> bg s = BgDrain \<and>
      lock s = Some BgTask \<and> \<not> is_locked (fg s)"
proof -
  let ?s1 = "call_op CarloopRevision2 EnableGPS (sys_init CarloopRevision2 (0::nat) 0 0 (\<lambda>_. 0))"
  let ?s2 = "uart_rx_op CHR ''$'' ?s1"
  have r1: "reachable CarloopRevision2 (\<lambda>n c. Suc n) 0 ?s1" by (rule reach_gps_enabled)
  have r2: "reachable CarloopRevision2 (\<lambda>n c. Suc n) 0 ?s2"
    by (rule reach_env [OF r1 env_step.uart_rx]) (unfold gps_enabled_state, simp)
  have r3: "reachable CarloopRevision2 (\<lambda>n c. Suc n) 0 (acquire_op ?s2)"
    by (rule reach_bg [OF r2 bg_step.bg_acquire])
       (unfold gps_enabled_state, simp_all add: uart_rx_op_def sys_init_def)
  have "bg (acquire_op ?s2) = BgDrain" by (simp add: gps_ops)
  with r3 show ?thesis using ingest_mutual_exclusion [OF r3] by (simp add: Let_def)
qed

text \<open>
  C5. Snapshot atomicity: every field read a foreground reader makes while holding
  the lock sees one and the same parser state, the state after decoding exactly the
  bytes handed to \<open>encode\<close> so far, which are a prefix of the bytes the UART
  received; no decode interleaves with a locked multi-field read.
\<close>
theorem locked_read_snapshot:
  assumes "reachable cfg enc p0 s" and "fg s = FgLocked obs"
  shows "set obs \<subseteq> {foldl enc p0 (fed s)} \<and> fed s = take (length (fed s)) (arrived s)"
  using reachable_gps_inv [OF assms(1)] assms(2) by (auto simp: gps_inv_def)

theorem locked_read_snapshot_witness:
  "let s = read_op (uart_rx_op CHR ''$'' (read_op (fg_lock_op
             (call_op CarloopRevision2 EnableGPS (sys_init CarloopRevision2 (0::nat) 0 0 (\<lambda>_. 0))))))
   in reachable CarloopRevision2 (\<lambda>n c. Suc n) 0 s \<and> fg s = FgLocked [0, 0] \<and>
      set [0, 0] \<subseteq> {foldl (\<lambda>n c. Suc n) 0 (fed s)} \<and> fed s = take (length (fed s)) (arrived s)"
proof -
  let ?s1 = "call_op CarloopRevision2 EnableGPS (sys_init CarloopRevision2 (0::nat) 0 0 (\<lambda>_. 0))"
  let ?s2 = "read_op (fg_lock_op ?s1)"
  let ?s3 = "read_op (uart_rx_op CHR ''$'' ?s2)"
  have r1: "reachable CarloopRevision2 (\<lambda>n c. Suc n) 0 ?s1" by (rule reach_gps_enabled)
  have r2: "reachable CarloopRevision2 (\<lambda>n c. Suc n) 0 ?s2"
    by (rule reach_fg [OF reach_fg [OF r1 fg_step.fg_lock] fg_step.fg_read])
       (unfold gps_enabled_state, simp_all add: sys_init_def gps_ops)
  have r3: "reachable CarloopRevision2 (\<lambda>n c. Suc n) 0 ?s3"
    by (rule reach_fg [OF reach_env [OF r2 env_step.uart_rx] fg_step.fg_read])
       (unfold gps_enabled_state, simp_all add: sys_init_def gps_ops)
  have fg3: "fg ?s3 = FgLocked [0, 0]"
    by (unfold gps_enabled_state, simp add: sys_init_def gps_ops Carloop_def)
  show ?thesis using locked_read_snapshot [OF r3 fg3] r3 fg3 by (simp add: Let_def)
qed

text \<open>
  C6. Lossless, in-order ingestion: in every reachable state, the bytes the UART
  received are the bytes given to \<open>encode\<close> followed by the bytes still buffered,
  and the parser state is the result of encoding the given bytes in order.
\<close>
theorem ingest_lossless:
  "reachable cfg enc p0 s \<Longrightarrow>
   arrived s = fed s @ serial1Rx (board s) \<and> gpsDriver (obj s) = foldl enc p0 (fed s)"
  by (drule reachable_gps_inv) (simp add: gps_inv_def)

theorem ingest_lossless_witness:
  "let s = decode_op (\<lambda>n c. Suc n) (acquire_op (uart_rx_op CHR ''$''
             (call_op CarloopRevision2 EnableGPS (sys_init CarloopRevision2 (0::nat) 0 0 (\<lambda>_. 0)))))
   in reachable CarloopRevision2 (\<lambda>n c. Suc n) 0 s \<and>
      arrived s = fed s @ serial1Rx (board s) \<and> gpsDriver (obj s) = foldl (\<lambda>n c. Suc n) 0 (fed s) \<and>
      fed s = ''$'' \<and> gpsDriver (obj s) = 1"
proof -
  let ?s1 = "call_op CarloopRevision2 EnableGPS (sys_init CarloopRevision2 (0::nat) 0 0 (\<lambda>_. 0))"
  let ?s2 = "acquire_op (uart_rx_op CHR ''$'' ?s1)"
  let ?s3 = "decode_op (\<lambda>n c. Suc n) ?s2"
  have r2: "reachable CarloopRevision2 (\<lambda>n c. Suc n) 0 ?s2"
    by (rule reach_bg [OF reach_env [OF reach_gps_enabled env_step.uart_rx] bg_step.bg_acquire])
       (unfold gps_enabled_state, simp_all add: uart_rx_op_def sys_init_def)
  have r3: "reachable CarloopRevision2 (\<lambda>n c. Suc n) 0 ?s3"
    by (rule reach_bg [OF r2 bg_step.bg_decode])
       (unfold gps_enabled_state, simp_all add: gps_ops sys_init_def Serial1_arrive_def Serial1_available_def)
  have "fed ?s3 = ''$'' \<and> gpsDriver (obj ?s3) = 1"
    by (unfold gps_enabled_state, simp add: gps_ops sys_init_def Serial1_arrive_def Carloop_def hw_init_def)
  then show ?thesis using ingest_lossless [OF r3] r3 by (simp add: Let_def)
qed

text \<open>
  C11. The ingest task never gets stuck: once created, it can always take a step
  unless a foreground reader holds the lock.
\<close>
theorem ingest_progress:
  assumes "reachable cfg enc p0 s" and "gpsSerialThread (obj s)" and "lock s \<noteq> Some Foreground"
  shows "\<exists>t. bg_step enc s t"
proof -
  have inv: "lock s = Some BgTask \<longleftrightarrow> bg s = BgDrain"
    using reachable_gps_inv [OF assms(1)] by (simp add: gps_inv_def)
  show ?thesis
  proof (cases "bg s")
    case BgLoop
    with inv assms(3) have "lock s = None" by (metis bg_pc.distinct(1) owner.exhaust option.exhaust)
    with BgLoop assms(2) show ?thesis by (blast intro: bg_step.bg_acquire)
  next
    case BgDrain
    then show ?thesis
      by (cases "Serial1_available (board s)") (blast intro: bg_step.bg_decode bg_step.bg_release)+
  next
    case BgSleep
    then show ?thesis by (blast intro: bg_step.bg_wake)
  qed
qed

theorem ingest_progress_witness:
  "let s = call_op CarloopRevision2 EnableGPS (sys_init CarloopRevision2 (0::nat) 0 0 (\<lambda>_. 0))
   in reachable CarloopRevision2 (\<lambda>n c. Suc n) 0 s \<and> gpsSerialThread (obj s) \<and>
      lock s \<noteq> Some Foreground \<and> (\<exists>t. bg_step (\<lambda>n c. Suc n) s t)"
proof -
  let ?s1 = "call_op CarloopRevision2 EnableGPS (sys_init CarloopRevision2 (0::nat) 0 0 (\<lambda>_. 0))"
  have r1: "reachable CarloopRevision2 (\<lambda>n c. Suc n) 0 ?s1" by (rule reach_gps_enabled)
  have t: "gpsSerialThread (obj ?s1)" and l: "lock ?s1 \<noteq> Some Foreground"
    by (unfold gps_enabled_state, simp_all add: sys_init_def)
  show ?thesis using ingest_progress [OF r1 t l] r1 t l by (simp add: Let_def)
qed

text \<open>
  C12. One locked iteration of the ingest task terminates: from inside the drain
  loop, with no further bytes arriving, the task's own steps decode every buffered
  byte (the result of the loop function \<open>drain_loop\<close>) and release the lock.
\<close>
theorem drain_reaches_sleep:
  "bg s = BgDrain \<Longrightarrow>
   (bg_step enc)\<^sup>*\<^sup>* s
     (release_op (s\<lparr>obj := fst (drain_loop enc (obj s, board s)),
                    board := snd (drain_loop enc (obj s, board s)),
                    fed := fed s @ serial1Rx (board s)\<rparr>))"
  by (simp add: drain_loop_eq drain_steps)

theorem drain_reaches_sleep_witness:
  "let s = acquire_op (uart_rx_op CHR ''$'' (uart_rx_op CHR ''G''
             (call_op CarloopRevision2 EnableGPS (sys_init CarloopRevision2 (0::nat) 0 0 (\<lambda>_. 0)))))
   in bg s = BgDrain \<and>
      (bg_step (\<lambda>n c. Suc n))\<^sup>*\<^sup>* s
        (release_op (s\<lparr>obj := fst (drain_loop (\<lambda>n c. Suc n) (obj s, board s)),
                       board := snd (drain_loop (\<lambda>n c. Suc n) (obj s, board s)),
                       fed := fed s @ serial1Rx (board s)\<rparr>)) \<and>
      gpsDriver (fst (drain_loop (\<lambda>n c. Suc n) (obj s, board s))) = 2"
proof -
  let ?s = "acquire_op (uart_rx_op CHR ''$'' (uart_rx_op CHR ''G''
             (call_op CarloopRevision2 EnableGPS (sys_init CarloopRevision2 (0::nat) 0 0 (\<lambda>_. 0)))))"
  have b: "bg ?s = BgDrain" by (simp add: acquire_op_def)
  have "gpsDriver (fst (drain_loop (\<lambda>n c. Suc n) (obj ?s, board ?s))) = 2"
    by (unfold gps_enabled_state, simp add: drain_loop_eq gps_ops sys_init_def Serial1_arrive_def
        Carloop_def hw_init_def)
  then show ?thesis using drain_reaches_sleep [OF b] b by (simp add: Let_def)
qed

text \<open>
  C13. Without the lock a multi-field read can tear: a reader that does not take
  the lock (as \<open>printValues\<close> of \<open>firmware/examples/minimal_example.cpp\<close> does)
  can see two different parser states within one read.
\<close>
theorem unlocked_read_can_tear:
  "let s = read_op (decode_op (\<lambda>n c. Suc n) (acquire_op (uart_rx_op CHR ''$'' (read_op (peek_op
             (call_op CarloopRevision2 EnableGPS (sys_init CarloopRevision2 (0::nat) 0 0 (\<lambda>_. 0))))))))
   in reachable CarloopRevision2 (\<lambda>n c. Suc n) 0 s \<and> fg s = FgUnlocked [0, 1]"
proof -
  let ?s1 = "call_op CarloopRevision2 EnableGPS (sys_init CarloopRevision2 (0::nat) 0 0 (\<lambda>_. 0))"
  let ?s2 = "read_op (peek_op ?s1)"
  let ?s3 = "acquire_op (uart_rx_op CHR ''$'' ?s2)"
  let ?s4 = "read_op (decode_op (\<lambda>n c. Suc n) ?s3)"
  have r2: "reachable CarloopRevision2 (\<lambda>n c. Suc n) 0 ?s2"
    by (rule reach_fg [OF reach_fg [OF reach_gps_enabled fg_step.fg_peek] fg_step.fg_read])
       (unfold gps_enabled_state, simp_all add: sys_init_def gps_ops)
  have r3: "reachable CarloopRevision2 (\<lambda>n c. Suc n) 0 ?s3"
    by (rule reach_bg [OF reach_env [OF r2 env_step.uart_rx] bg_step.bg_acquire])
       (unfold gps_enabled_state, simp_all add: gps_ops sys_init_def)
  have r4: "reachable CarloopRevision2 (\<lambda>n c. Suc n) 0 ?s4"
    by (rule reach_fg [OF reach_bg [OF r3 bg_step.bg_decode] fg_step.fg_read])
       (unfold gps_enabled_state, simp_all add: gps_ops sys_init_def Serial1_arrive_def
        Serial1_available_def hw_init_def)
  have "fg ?s4 = FgUnlocked [0, 1]"
    by (unfold gps_enabled_state, simp add: gps_ops sys_init_def Serial1_arrive_def Carloop_def
        hw_init_def)
  with r4 show ?thesis by (simp add: Let_def)
qed

text \<open>
  C14. The ingest task is never destroyed: once \<open>gpsSerialThread\<close> is set, no
  step of any actor clears it, \<open>disableGPS\<close> included.
\<close>
theorem ingest_task_never_stops:
  "gps_step cfg enc s t \<Longrightarrow> gpsSerialThread (obj s) \<Longrightarrow> gpsSerialThread (obj t)"
proof (induction rule: gps_step.induct)
  case (background s t)
  then show ?case by (simp add: bg_step_keeps_task)
next
  case (foreground s t)
  then show ?case
  proof (induction rule: fg_step.induct)
    case (fg_call s e)
    then show ?case using exec_call_keeps_task [of "(obj s, board s)" cfg e]
      by (simp add: call_op_eq)
  qed (simp_all add: gps_ops split: fg_pc.split)
next
  case (environment s t)
  then show ?case by (induction rule: env_step.induct) (simp add: gps_ops)
qed

theorem ingest_task_never_stops_witness:
  "let s = call_op CarloopRevision2 EnableGPS (sys_init CarloopRevision2 (0::nat) 0 0 (\<lambda>_. 0));
       t = call_op CarloopRevision2 DisableGPS s
   in gps_step CarloopRevision2 (\<lambda>n c. Suc n) s t \<and> gpsSerialThread (obj s) \<and>
      gpsSerialThread (obj t)"
proof -
  let ?s = "call_op CarloopRevision2 EnableGPS (sys_init CarloopRevision2 (0::nat) 0 0 (\<lambda>_. 0))"
  have st: "gps_step CarloopRevision2 (\<lambda>n c. Suc n) ?s (call_op CarloopRevision2 DisableGPS ?s)"
    by (rule gps_step.foreground [OF fg_step.fg_call])
  have th: "gpsSerialThread (obj ?s)" by (unfold gps_enabled_state, simp)
  show ?thesis using ingest_task_never_stops [OF st th] st th by (simp add: Let_def)
qed

end
