(* ===== verification/Printf.thy ===== *)
theory Printf
  imports Carloop_Prelude
begin

text \<open>
  The integer conversions of \<open>printf\<close> the examples print with
  (\<open>Serial.printf\<close>, a wrapper around the C library's \<open>vsnprintf\<close>): \<open>%x\<close>,
  \<open>%0Nx\<close> for the SLCAN frame printer, \<open>%d\<close>, \<open>%Nd\<close> and \<open>%0Nd\<close> for the
  minimal applications. An argument of a narrower unsigned type is promoted to
  \<open>int\<close>; a 32-bit argument is read as the \<open>int\<close> it is passed as (\<open>sint\<close>),
  since the conversions of \<open>%d\<close> are signed.
\<close>

subsection \<open>Conversions\<close>

text \<open>
  \<open>%x\<close> writes the lower-case hexadecimal digits of a value, \<open>%0Nx\<close> pads
  them with zeros to \<open>N\<close> characters, \<open>%d\<close> of a non-negative value writes its
  decimal digits.
\<close>

definition hex_digit :: "nat \<Rightarrow> char" where
  "hex_digit d = (if d < 10 then char_of (48 + d) else char_of (87 + d))"

text \<open>The two digits \<open>%02x\<close> prints for a byte.\<close>

abbreviation hex_pair :: "nat \<Rightarrow> string" where
  "hex_pair d \<equiv> [hex_digit (d div 16), hex_digit (d mod 16)]"

fun hex_string :: "nat \<Rightarrow> string" where
  "hex_string n = (if n < 16 then [hex_digit n] else hex_string (n div 16) @ [hex_digit (n mod 16)])"

fun dec_string :: "nat \<Rightarrow> string" where
  "dec_string n = (if n < 10 then [char_of (48 + n)] else dec_string (n div 10) @ [char_of (48 + n mod 10)])"

definition printf_0x :: "nat \<Rightarrow> nat \<Rightarrow> string" where
  "printf_0x w n = replicate (w - length (hex_string n)) (CHR ''0'') @ hex_string n"

text \<open>\<open>%d\<close> of an \<open>int\<close>: a minus sign for a negative value, then the digits.\<close>

definition int_string :: "int \<Rightarrow> string" where
  "int_string i = (if i < 0 then CHR ''-'' # dec_string (nat (- i)) else dec_string (nat i))"

text \<open>\<open>%Nd\<close>: right-aligned in \<open>N\<close> columns, padded with blanks.\<close>

definition printf_d :: "nat \<Rightarrow> int \<Rightarrow> string" where
  "printf_d w i = replicate (w - length (int_string i)) (CHR '' '') @ int_string i"

text \<open>\<open>%0Nd\<close>: padded with zeros between the sign and the digits.\<close>

definition printf_0d :: "nat \<Rightarrow> int \<Rightarrow> string" where
  "printf_0d w i =
     (if i < 0 then CHR ''-'' # replicate (w - Suc (length (dec_string (nat (- i))))) (CHR ''0'') @ dec_string (nat (- i))
      else replicate (w - length (dec_string (nat i))) (CHR ''0'') @ dec_string (nat i))"

subsection \<open>Hexadecimal and decimal digits\<close>

declare hex_string.simps [simp del] dec_string.simps [simp del]

lemma hex_string_small: "n < 16 \<Longrightarrow> hex_string n = [hex_digit n]"
  by (simp add: hex_string.simps)

lemma hex_string_step: "16 \<le> n \<Longrightarrow> hex_string n = hex_string (n div 16) @ [hex_digit (n mod 16)]"
  by (simp add: hex_string.simps [of n])

lemma hex_digit_0: "hex_digit 0 = CHR ''0''"
  by (simp add: hex_digit_def) code_simp

lemma printf_0x_2:
  assumes "d < 256"
  shows "printf_0x 2 d = hex_pair d"
proof (cases "d < 16")
  case True
  then show ?thesis by (simp add: printf_0x_def hex_string_small hex_digit_0)
next
  case False
  then have "d div 16 < 16" using assms by simp
  with False show ?thesis by (simp add: printf_0x_def hex_string_step hex_string_small)
qed

lemma printf_0x_3:
  assumes "n < 4096"
  shows "printf_0x 3 n = [hex_digit (n div 256), hex_digit (n div 16 mod 16), hex_digit (n mod 16)]"
proof -
  consider "n < 16" | "16 \<le> n" "n < 256" | "256 \<le> n" by linarith
  then show ?thesis
  proof cases
    case 1
    then show ?thesis by (simp add: printf_0x_def hex_string_small hex_digit_0 numeral_2_eq_2)
  next
    case 2
    then have "n div 16 < 16" by simp
    with 2 show ?thesis by (simp add: printf_0x_def hex_string_step hex_string_small hex_digit_0 div_mult2_eq [symmetric])
  next
    case 3
    then have a: "16 \<le> n div 16" and b: "n div 16 div 16 < 16" using assms by auto
    have "n div 16 div 16 = n div 256" by (simp add: div_mult2_eq)
    with 3 a b show ?thesis by (simp add: printf_0x_def hex_string_step hex_string_small)
  qed
qed

lemma dec_string_digit: "n < 10 \<Longrightarrow> dec_string n = [hex_digit n]"
  by (simp add: dec_string.simps hex_digit_def)

lemma dec_string_nonempty: "dec_string n \<noteq> []"
  by (subst dec_string.simps) simp

lemma length_dec_string_le:
  "0 < k \<Longrightarrow> (length (dec_string n) \<le> k) = (n < 10 ^ k)"
proof (induction n arbitrary: k rule: dec_string.induct)
  case (1 n)
  show ?case
  proof (cases "n < 10")
    case True
    moreover have "(10::nat) \<le> 10 ^ k" using "1.prems" by (simp add: self_le_power)
    ultimately show ?thesis using "1.prems" by (simp add: dec_string.simps)
  next
    case False
    then obtain k' where k: "k = Suc k'" using "1.prems" by (cases k) auto
    show ?thesis
    proof (cases k')
      case 0
      with False k dec_string_nonempty [of "n div 10"] show ?thesis
        by (simp add: dec_string.simps [of n])
    next
      case (Suc j)
      then have "(length (dec_string (n div 10)) \<le> k') = (n div 10 < 10 ^ k')"
        using "1.IH" False by simp
      with False k show ?thesis
        by (simp add: dec_string.simps [of n] less_mult_imp_div_less div_less_iff_less_mult mult.commute)
    qed
  qed
qed

lemma char_digit_not_minus: "d < (10::nat) \<Longrightarrow> CHR ''-'' \<noteq> char_of (48 + d)"
  by (auto dest!: arg_cong [where f = "of_char :: char \<Rightarrow> nat"])

lemma minus_not_in_dec_string: "CHR ''-'' \<notin> set (dec_string n)"
  by (induction n rule: dec_string.induct) (subst dec_string.simps, simp add: char_digit_not_minus)

lemma minus_in_printf_d: "(CHR ''-'' \<in> set (printf_d w i)) = (i < 0)"
  by (simp add: printf_d_def int_string_def minus_not_in_dec_string)

lemma length_printf_0d:
  "0 \<le> i \<Longrightarrow> length (printf_0d w i) = max w (length (dec_string (nat i)))"
  by (simp add: printf_0d_def)

subsection \<open>Field widths\<close>

lemma length_printf_0d_uint: "length (printf_0d w (uint x)) = max w (length (dec_string (unat x)))"
  by (simp add: length_printf_0d)

lemma dec_width_2: "n < 100 \<Longrightarrow> max 2 (length (dec_string n)) = 2"
  using length_dec_string_le [of 2 n] by simp

lemma dec_width_4: "1000 \<le> n \<Longrightarrow> n < 10000 \<Longrightarrow> max 2 (length (dec_string n)) = 4"
  using length_dec_string_le [of 4 n] length_dec_string_le [of 3 n] by simp

lemma length_printf_d: "length (int_string i) \<le> w \<Longrightarrow> length (printf_d w i) = w"
  by (simp add: printf_d_def)

lemma int_string_sint_small: "unat x < 2 ^ 31 \<Longrightarrow> int_string (sint (x :: 32 word)) = dec_string (unat x)"
  by (simp add: sint_u32 int_string_def)

lemma length_int_string_sint: "length (int_string (sint (x :: 32 word))) \<le> 11"
proof (cases "unat x < 2 ^ 31")
  case True
  then have "unat x < 10 ^ 10" by simp
  then show ?thesis using True length_dec_string_le [of 10 "unat x"] by (simp add: int_string_sint_small)
next
  case False
  have u: "unat x < 2 ^ 32" using unsigned_less [of x] by simp
  have ui: "uint x < 2 ^ 32" using unsigned_less [of x] by simp
  have "\<And>n::nat. n < 2 ^ 32 \<Longrightarrow> nat (- (int n - 2 ^ 32)) < 10 ^ 10" by (simp add: nat_less_iff)
  then have "nat (- (int (unat x) - 2 ^ 32)) < 10 ^ 10" using u by blast
  then show ?thesis using False length_dec_string_le [of 10 "nat (- (int (unat x) - 2 ^ 32))"] ui
    by (simp add: sint_u32 int_string_def)
qed

end
