(* ===== verification/Slcan.thy ===== *)
theory Slcan
  imports Facade Printf
begin

text \<open>
  The SocketCAN serial bridge of \<open>src/examples/socketcan_serial/socketcan_serial.cpp\<close>:
  an ASCII line protocol (SLCAN) on the USB serial port that opens and closes the
  CAN channel (\<open>O\<close>, \<open>C\<close>), stages a bit rate (\<open>S0\<close>..\<open>S8\<close>) and transmits frames
  (\<open>t<id><len><data>\<close>), and prints every received frame in the same format. The
  bridge's globals (the 40-byte \<open>inputBuffer\<close>, \<open>inputPos\<close>, the serial output)
  and the facade it drives form the record \<open>bridge\<close>; each function of the file
  is a function on it.
\<close>

unbundle bit_operations_syntax

record 'p bridge =
  inputBuffer :: "char list"
  inputPos :: u32
  serialOut :: string
  car :: "'p st"

definition NEW_LINE :: char where "NEW_LINE = CHR 0x0D"

text \<open>Globals have static storage: the buffer starts as 40 zero bytes.\<close>

definition bridge_init :: "'p st \<Rightarrow> 'p bridge" where
  "bridge_init s = \<lparr>inputBuffer = replicate 40 (CHR 0x00), inputPos = 0, serialOut = [], car = s\<rparr>"

text \<open>
  \<open>setup()\<close> only opens the USB serial port: the bridge never calls
  \<open>carloop.begin()\<close>, so the CAN channel stays closed until an \<open>O\<close> command.
\<close>

definition slcan_setup :: "'p bridge \<Rightarrow> 'p bridge" where
  "slcan_setup b = (let (c, h) = car b in b\<lparr>car := (c, Serial_begin 9600 h)\<rparr>)"

subsection \<open>Opening, closing, bit rate\<close>

definition opened :: "'p bridge \<Rightarrow> bool" where
  "opened b \<longleftrightarrow> CANChannel_isEnabled (can (fst (car b)))"

definition openCAN :: "config \<Rightarrow> 'p bridge \<Rightarrow> 'p bridge" where
  "openCAN cfg b = (if opened b then b else b\<lparr>car := enableCAN cfg (car b)\<rparr>)"

definition closeCAN :: "config \<Rightarrow> 'p bridge \<Rightarrow> 'p bridge" where
  "closeCAN cfg b = (if \<not> opened b then b else b\<lparr>car := disableCAN cfg (car b)\<rparr>)"

text \<open>The \<open>switch\<close> of \<open>changeCANSpeed\<close>: the bit rate a code selects, none for any other character.\<close>

definition slcan_speed :: "char \<Rightarrow> u32 option" where
  "slcan_speed c =
     (if c = CHR ''0'' then Some 10000 else if c = CHR ''1'' then Some 20000
      else if c = CHR ''2'' then Some 50000 else if c = CHR ''3'' then Some 100000
      else if c = CHR ''4'' then Some 125000 else if c = CHR ''5'' then Some 250000
      else if c = CHR ''6'' then Some 500000 else if c = CHR ''7'' then Some 800000
      else if c = CHR ''8'' then Some 1000000 else None)"

definition changeCANSpeed :: "char list \<Rightarrow> u32 \<Rightarrow> 'p bridge \<Rightarrow> 'p bridge" where
  "changeCANSpeed buf n b =
     (if n = 0 then b
      else (case slcan_speed (buf ! 0) of
              None \<Rightarrow> b
            | Some speed \<Rightarrow> b\<lparr>car := (setCANSpeed speed (fst (car b)), snd (car b))\<rparr>))"

subsection \<open>Transmitting a frame\<close>

text \<open>\<open>hex2int\<close>: the value of a hex digit of either case, 0 for any other character.\<close>

definition hex2int :: "char \<Rightarrow> u32" where
  "hex2int c =
     (let n = of_char c :: nat
      in if 48 \<le> n \<and> n \<le> 57 then word_of_nat (n - 48)
         else if 97 \<le> n \<and> n \<le> 102 then word_of_nat (n - 97 + 10)
         else if 65 \<le> n \<and> n \<le> 70 then word_of_nat (n - 65 + 10)
         else 0)"

text \<open>
  The data loop \<open>for (i = 0; i < message.len && n >= 2; i++, buf += 2, n -= 2)\<close>:
  each iteration stores one byte from two hex digits. \<open>n\<close> is unsigned and drops by
  2 while it is at least 2, so the loop ends.
\<close>

function fill_data :: "nat \<Rightarrow> u8 \<Rightarrow> char list \<Rightarrow> u32 \<Rightarrow> u8 list \<Rightarrow> u8 list" where
  "fill_data i len buf n data =
     (if i < unat len \<and> 2 \<le> n
      then fill_data (Suc i) len (drop 2 buf) (n - 2)
             (data[i := ucast (push_bit 4 (hex2int (buf ! 0)) OR hex2int (buf ! 1))])
      else data)"
  by pat_completeness auto
termination
proof (relation "measure (\<lambda>(i, len, buf, n, data). unat n)")
  show "wf (measure (\<lambda>(i, len, buf, n, data). unat n))" by simp
next
  fix i :: nat and len :: u8 and buf :: "char list" and n :: u32 and data :: "u8 list"
  assume "i < unat len \<and> 2 \<le> n"
  then have "unat (n - 2) < unat n"
    by (simp add: unat_sub word_le_nat_alt)
  then show "((Suc i, len, drop 2 buf, n - 2,
      data[i := ucast (push_bit 4 (hex2int (buf ! 0)) OR hex2int (buf ! 1))]), i, len, buf, n, data)
      \<in> measure (\<lambda>(i, len, buf, n, data). unat n)" by simp
qed

definition transmitMessage :: "char list \<Rightarrow> u32 \<Rightarrow> 'p bridge \<Rightarrow> 'p bridge" where
  "transmitMessage buf n b =
     (if \<not> opened b then b
      else if n < 4 then b
      else
        (let id = push_bit 8 (hex2int (buf ! 0)) OR push_bit 4 (hex2int (buf ! 1)) OR hex2int (buf ! 2);
             len = (ucast (hex2int (buf ! 3)) :: u8);
             buf' = drop 4 buf;
             n' = n - 4
         in if len > 8 then b
            else
              (let m = CANMessage_default\<lparr>msg_id := id, msg_len := len,
                         msg_data := fill_data 0 len buf' n' (msg_data CANMessage_default)\<rparr>;
                   c = fst (car b)
               in b\<lparr>car := (c\<lparr>canDriver := snd (CANChannel_transmit m (canDriver c))\<rparr>, snd (car b))\<rparr>)))"

subsection \<open>The line parser\<close>

text \<open>
  \<open>parseInput\<close> stores a character while the buffer has room (\<open>store_char\<close>);
  a carriage return dispatches on the first character of the line, the handlers
  seeing the buffer from index 1 and the length \<open>inputPos - 2\<close> (unsigned), and
  starts a new line.
\<close>

definition store_char :: "char \<Rightarrow> 'p bridge \<Rightarrow> 'p bridge" where
  "store_char c b =
     (if inputPos b < 40
      then b\<lparr>inputBuffer := (inputBuffer b)[unat (inputPos b) := c], inputPos := inputPos b + 1\<rparr>
      else b)"

definition dispatch :: "config \<Rightarrow> 'p bridge \<Rightarrow> 'p bridge" where
  "dispatch cfg b =
     (let buf = inputBuffer b
      in if buf ! 0 = CHR ''O'' then openCAN cfg b
         else if buf ! 0 = CHR ''C'' then closeCAN cfg b
         else if buf ! 0 = CHR ''S'' then changeCANSpeed (drop 1 buf) (inputPos b - 2) b
         else if buf ! 0 = CHR ''t'' then transmitMessage (drop 1 buf) (inputPos b - 2) b
         else b)"

definition parseInput :: "config \<Rightarrow> char \<Rightarrow> 'p bridge \<Rightarrow> 'p bridge" where
  "parseInput cfg c b =
     (let b1 = store_char c b
      in if c = NEW_LINE then (dispatch cfg b1)\<lparr>inputPos := 0\<rparr> else b1)"

text \<open>
  \<open>serialEvent\<close> runs once for each byte the USB serial port delivers and hands it
  to \<open>parseInput\<close>: the bytes of a string are parsed in order.
\<close>

definition serialEvents :: "config \<Rightarrow> char list \<Rightarrow> 'p bridge \<Rightarrow> 'p bridge" where
  "serialEvents cfg cs b = foldl (\<lambda>b c. parseInput cfg c b) b cs"

subsection \<open>Printing received frames\<close>

text \<open>The frame is printed with the conversions of \<open>Printf\<close>.\<close>

definition printReceivedMessage :: "CANMessage \<Rightarrow> string" where
  "printReceivedMessage m =
     ''t'' @ printf_0x 3 (unat (msg_id m)) @ dec_string (unat (msg_len m))
     @ concat (map (\<lambda>d. printf_0x 2 (unat d)) (take (unat (msg_len m)) (msg_data m)))
     @ [NEW_LINE]"

text \<open>\<open>while(carloop.can().receive(message)) printReceivedMessage(message)\<close>: each iteration dequeues a frame.\<close>

function receiveMessages :: "'p bridge \<Rightarrow> 'p bridge" where
  "receiveMessages b =
     (let c = fst (car b)
      in case CANChannel_receive (canDriver c) of
           (None, ch) \<Rightarrow> b\<lparr>car := (c\<lparr>canDriver := ch\<rparr>, snd (car b))\<rparr>
         | (Some m, ch) \<Rightarrow>
             receiveMessages (b\<lparr>serialOut := serialOut b @ printReceivedMessage m,
                                car := (c\<lparr>canDriver := ch\<rparr>, snd (car b))\<rparr>))"
  by pat_completeness auto
termination
  by (relation "measure (\<lambda>b. length (ch_rx (canDriver (fst (car b)))))")
     (auto dest!: CANChannel_receive_Some [OF sym])

definition slcan_loop :: "'p bridge \<Rightarrow> 'p bridge" where
  "slcan_loop b = (if CANChannel_isEnabled (can (fst (car b))) then receiveMessages b else b)"

subsection \<open>Properties the bridge relies on\<close>

text \<open>
  The buffer keeps its 40 bytes and the write position never passes its end;
  a frame on the bus has a 12-bit identifier field as written by \<open>%03x\<close>, at
  most 8 data bytes, and the 8-byte data array of \<open>CANMessage\<close>.
\<close>

definition bridge_wf :: "'p bridge \<Rightarrow> bool" where
  "bridge_wf b \<longleftrightarrow> inputPos b \<le> 40 \<and> length (inputBuffer b) = 40"

abbreviation bridge_tx :: "'p bridge \<Rightarrow> CANMessage list" where
  "bridge_tx b \<equiv> ch_tx (canDriver (fst (car b)))"

definition frame_ok :: "CANMessage \<Rightarrow> bool" where
  "frame_ok m \<longleftrightarrow> msg_id m < 4096 \<and> msg_len m \<le> 8 \<and> length (msg_data m) = 8"

subsection \<open>Decoding hexadecimal fields\<close>

lemma hex2int_hex_digit: "d < 16 \<Longrightarrow> hex2int (hex_digit d) = word_of_nat d"
  by (auto simp: hex2int_def hex_digit_def Let_def)

lemma hex2int_lt16: "hex2int c < 16"
  by (auto simp: hex2int_def Let_def word_less_nat_alt unat_of_nat simp del: of_nat_diff)

lemma hex2int_unat_lt16: "unat (hex2int c) < 16"
  using hex2int_lt16 [of c] by (simp add: word_less_nat_alt)

lemma hexpair_decode:
  assumes "d < 256"
  shows "(ucast (push_bit 4 (hex2int (hex_digit (d div 16))) OR hex2int (hex_digit (d mod 16))) :: u8)
         = word_of_nat d"
proof -
  have "d div 16 < 16" using assms by simp
  then have "push_bit 4 (hex2int (hex_digit (d div 16))) OR hex2int (hex_digit (d mod 16))
           = push_bit 4 (word_of_nat (d div 16)) + (word_of_nat (d mod 16) :: u32)"
    by (simp add: hex2int_hex_digit push_bit_or_small unat_of_nat)
  also have "\<dots> = word_of_nat (d div 16 * 16 + d mod 16)"
    by (simp only: push_bit_eq_mult of_nat_add of_nat_mult) simp
  also have "\<dots> = word_of_nat d" by simp
  finally show ?thesis using assms by (simp add: unsigned_of_nat take_bit_nat_eq_self)
qed

lemma id_decode:
  assumes "n < 4096"
  shows "push_bit 8 (hex2int (hex_digit (n div 256))) OR push_bit 4 (hex2int (hex_digit (n div 16 mod 16)))
           OR hex2int (hex_digit (n mod 16)) = (word_of_nat n :: u32)"
proof -
  have a: "n div 256 < 16" using assms by simp
  have m: "n mod 256 = 16 * (n div 16 mod 16) + n mod 16"
    using mod_mult2_eq [of n 16 16] by simp
  have e1: "n mod 256 div 16 = n div 16 mod 16" by (subst m) simp
  have e2: "n mod 256 mod 16 = n mod 16" by (subst m) simp
  have "push_bit 4 (word_of_nat (n div 16 mod 16)) OR word_of_nat (n mod 16)
        = push_bit 4 (word_of_nat (n div 16 mod 16)) + (word_of_nat (n mod 16) :: u32)"
    by (rule push_bit_or_small) (simp add: unat_of_nat)
  then have low: "push_bit 4 (word_of_nat (n div 16 mod 16)) OR word_of_nat (n mod 16)
           = (word_of_nat (n mod 256) :: u32)"
    using word_of_nat_div_mod [of "n mod 256" 16, where 'a = 32]
    by (simp add: push_bit_eq_mult e1 e2)
  have "push_bit 8 (word_of_nat (n div 256)) OR (word_of_nat (n mod 256) :: u32)
        = push_bit 8 (word_of_nat (n div 256)) + word_of_nat (n mod 256)"
    by (rule push_bit_or_small) (simp add: unat_of_nat)
  then have "push_bit 8 (word_of_nat (n div 256)) OR (word_of_nat (n mod 256) :: u32) = word_of_nat n"
    using word_of_nat_div_mod [of n 256, where 'a = 32]
    by (simp add: push_bit_eq_mult)
  with a low show ?thesis by (simp add: hex2int_hex_digit)
qed

lemma hex_id_lt: "push_bit 8 (hex2int a) OR push_bit 4 (hex2int b) OR hex2int c < 4096"
proof -
  have lo: "unat (push_bit 4 (hex2int b) OR hex2int c) = unat (hex2int b) * 16 + unat (hex2int c)"
    using hex2int_unat_lt16 [of b] hex2int_unat_lt16 [of c] by (simp add: push_bit_or_unat)
  then have "unat (push_bit 8 (hex2int a) OR push_bit 4 (hex2int b) OR hex2int c)
             = unat (hex2int a) * 256 + (unat (hex2int b) * 16 + unat (hex2int c))"
    using hex2int_unat_lt16 [of a] hex2int_unat_lt16 [of b] hex2int_unat_lt16 [of c]
    by (simp add: push_bit_or_unat)
  then show ?thesis
    using hex2int_unat_lt16 [of a] hex2int_unat_lt16 [of b] hex2int_unat_lt16 [of c]
    by (simp add: word_less_nat_alt)
qed

subsection \<open>What printReceivedMessage writes\<close>

lemma hex_digit_not_NEW_LINE: "d < 16 \<Longrightarrow> NEW_LINE \<noteq> hex_digit d"
  by (auto simp: hex_digit_def NEW_LINE_def dest!: arg_cong [where f = "of_char :: char \<Rightarrow> nat"])

lemma hex_pairs_no_NEW_LINE:
  assumes "\<forall>d\<in>set ds. d < 256"
  shows "NEW_LINE \<notin> set (concat (map hex_pair ds))"
proof -
  have "NEW_LINE \<noteq> hex_digit (x div 16) \<and> NEW_LINE \<noteq> hex_digit (x mod 16)" if "x \<in> set ds" for x
    using assms that by (intro conjI hex_digit_not_NEW_LINE) auto
  then show ?thesis by auto
qed

lemma length_hex_pairs: "length (concat (map hex_pair ds)) = 2 * length ds"
  by (induction ds) auto

lemma printReceivedMessage_chars:
  assumes "msg_id m < 4096" "msg_len m \<le> 8"
  shows "printReceivedMessage m =
           [CHR ''t'', hex_digit (unat (msg_id m) div 256), hex_digit (unat (msg_id m) div 16 mod 16),
            hex_digit (unat (msg_id m) mod 16), hex_digit (unat (msg_len m))]
           @ concat (map hex_pair (map unat (take (unat (msg_len m)) (msg_data m)))) @ [NEW_LINE]"
proof -
  have "unat (msg_id m) < 4096" "unat (msg_len m) < 10"
    using assms by (simp_all add: word_less_nat_alt word_le_nat_alt)
  moreover have "(\<lambda>d :: u8. printf_0x 2 (unat d)) = hex_pair \<circ> unat"
    by (rule ext) (simp add: printf_0x_2 unat_u8_lt)
  ultimately show ?thesis
    by (simp add: printReceivedMessage_def printf_0x_3 dec_string_digit)
qed

subsection \<open>The data loop of transmitMessage\<close>

declare fill_data.simps [simp del]

lemma fill_data_hexpairs:
  assumes "\<forall>d\<in>set ds. d < 256" and "i + length ds \<le> unat len" and "unat n = 2 * length ds"
    and "i + length ds \<le> length data"
  shows "fill_data i len (concat (map hex_pair ds) @ rest) n data
         = take i data @ map word_of_nat ds @ drop (i + length ds) data"
  using assms
proof (induction ds arbitrary: i n data)
  case Nil
  then have "n = 0" by (simp add: unat_eq_zero)
  then show ?case by (subst fill_data.simps) simp
next
  case (Cons d ds)
  let ?buf = "concat (map hex_pair (d # ds)) @ rest"
  have guard: "i < unat len \<and> 2 \<le> n"
    using Cons.prems by (simp add: word_le_nat_alt)
  have n2: "unat (n - 2) = 2 * length ds"
    using Cons.prems guard by (simp add: unat_sub word_le_nat_alt)
  have byte: "(ucast (push_bit 4 (hex2int (?buf ! 0)) OR hex2int (?buf ! 1)) :: u8) = word_of_nat d"
    using Cons.prems(1) by (simp add: hexpair_decode)
  have "fill_data i len ?buf n data
        = fill_data (Suc i) len (concat (map hex_pair ds) @ rest)
            (n - 2) (data[i := word_of_nat d])"
    using guard byte by (subst fill_data.simps) simp
  also have "\<dots> = take (Suc i) (data[i := word_of_nat d]) @ map word_of_nat ds
                   @ drop (Suc i + length ds) (data[i := word_of_nat d])"
    by (rule Cons.IH) (use Cons.prems n2 in simp_all)
  also have "\<dots> = take i data @ map word_of_nat (d # ds) @ drop (i + length (d # ds)) data"
    using Cons.prems(4) by (simp add: take_Suc_list_update)
  finally show ?case .
qed

lemma fill_data_length: "length (fill_data i len buf n data) = length data"
  by (induction i len buf n data rule: fill_data.induct) (simp add: fill_data.simps)

subsection \<open>Feeding a line to the parser\<close>

lemma serialEvents_plain:
  assumes "NEW_LINE \<notin> set cs" "unat (inputPos b) + length cs \<le> 40" "length (inputBuffer b) = 40"
  shows "serialEvents cfg cs b
           = b\<lparr>inputBuffer := take (unat (inputPos b)) (inputBuffer b) @ cs
                                 @ drop (unat (inputPos b) + length cs) (inputBuffer b),
               inputPos := inputPos b + word_of_nat (length cs)\<rparr>"
  using assms
proof (induction cs arbitrary: b)
  case Nil
  then show ?case by (simp add: serialEvents_def)
next
  case (Cons c cs)
  have lt: "unat (inputPos b) < 40" using Cons.prems by simp
  then have p40: "inputPos b < 40" by (simp add: word_less_nat_alt)
  have up: "unat (inputPos b + 1) = Suc (unat (inputPos b))"
    using lt by (simp add: unat_word_ariths)
  let ?b1 = "b\<lparr>inputBuffer := (inputBuffer b)[unat (inputPos b) := c], inputPos := inputPos b + 1\<rparr>"
  have "parseInput cfg c b = ?b1"
    using Cons.prems p40 by (auto simp: parseInput_def store_char_def)
  then have "serialEvents cfg (c # cs) b = serialEvents cfg cs ?b1"
    by (simp add: serialEvents_def)
  also have "\<dots> = ?b1\<lparr>inputBuffer := take (unat (inputPos ?b1)) (inputBuffer ?b1) @ cs
                                 @ drop (unat (inputPos ?b1) + length cs) (inputBuffer ?b1),
               inputPos := inputPos ?b1 + word_of_nat (length cs)\<rparr>"
    by (rule Cons.IH) (use Cons.prems up in simp_all)
  also have "\<dots> = b\<lparr>inputBuffer := take (unat (inputPos b)) (inputBuffer b) @ (c # cs)
                                 @ drop (unat (inputPos b) + length (c # cs)) (inputBuffer b),
               inputPos := inputPos b + word_of_nat (length (c # cs))\<rparr>"
    using Cons.prems lt up by (simp add: take_Suc_list_update)
  finally show ?case .
qed

lemma serialEvents_plain0:
  assumes "NEW_LINE \<notin> set cs" "inputPos b = 0" "length cs \<le> 40" "length (inputBuffer b) = 40"
  shows "serialEvents cfg cs b
           = b\<lparr>inputBuffer := cs @ drop (length cs) (inputBuffer b), inputPos := word_of_nat (length cs)\<rparr>"
  using serialEvents_plain [of cs b cfg] assms by simp

lemma dispatch_car_only: "dispatch cfg b = b\<lparr>car := car (dispatch cfg b)\<rparr>"
  by (simp add: dispatch_def openCAN_def closeCAN_def changeCANSpeed_def transmitMessage_def Let_def
      split: option.splits)

lemma dispatch_keeps_buffer:
  "inputBuffer (dispatch cfg b) = inputBuffer b" "inputPos (dispatch cfg b) = inputPos b"
  "serialOut (dispatch cfg b) = serialOut b"
  by (subst dispatch_car_only; simp)+

lemma serialEvents_line:
  assumes "NEW_LINE \<notin> set cs" "inputPos b = 0" "length (inputBuffer b) = 40" "length cs < 40"
  shows "serialEvents cfg (cs @ [NEW_LINE]) b
         = (dispatch cfg (b\<lparr>inputBuffer := cs @ (drop (length cs) (inputBuffer b))[0 := NEW_LINE],
                             inputPos := word_of_nat (length cs) + 1\<rparr>))\<lparr>inputPos := 0\<rparr>"
proof -
  have u: "unat (word_of_nat (length cs) :: u32) = length cs"
    using assms(4) by (intro unat_of_nat_small) simp
  then have lt: "(word_of_nat (length cs) :: u32) < 40"
    using assms(4) by (simp only: word_less_nat_alt) simp
  have "serialEvents cfg (cs @ [NEW_LINE]) b = parseInput cfg NEW_LINE (serialEvents cfg cs b)"
    by (simp only: serialEvents_def foldl_append foldl_Cons foldl_Nil)
  then show ?thesis
    using serialEvents_plain0 [OF assms(1,2) _ assms(3), of cfg] assms(4) u lt
    by (simp add: parseInput_def store_char_def list_update_append)
qed

lemma transmitMessage_hex:
  assumes "opened b" "I < 4096" "L \<le> 8" "length ds \<le> L" "\<forall>d\<in>set ds. d < 256"
  shows "transmitMessage ([hex_digit (I div 256), hex_digit (I div 16 mod 16), hex_digit (I mod 16), hex_digit L]
                          @ concat (map hex_pair ds) @ rest) (word_of_nat (4 + 2 * length ds)) b
         = b\<lparr>car := (fst (car b)\<lparr>canDriver := snd (CANChannel_transmit
                  \<lparr>msg_id = word_of_nat I, msg_len = word_of_nat L,
                   msg_data = map word_of_nat ds @ replicate (8 - length ds) 0\<rparr> (canDriver (fst (car b))))\<rparr>,
                snd (car b))\<rparr>"
proof -
  have u: "unat (word_of_nat (4 + 2 * length ds) :: u32) = 4 + 2 * length ds"
    using assms(3,4) by (intro unat_of_nat_small) simp
  have n: "\<not> (word_of_nat (4 + 2 * length ds) :: u32) < 4"
    by (simp only: word_less_nat_alt u) simp
  have n4: "unat ((word_of_nat (4 + 2 * length ds) :: u32) - 4) = 2 * length ds"
  proof -
    have "(word_of_nat (4 + 2 * length ds) :: u32) - 4 = word_of_nat (2 * length ds)" by simp
    moreover have "unat (word_of_nat (2 * length ds) :: u32) = 2 * length ds"
      using assms(3,4) by (intro unat_of_nat_small) simp
    ultimately show ?thesis by (simp only:)
  qed
  have len: "(ucast (hex2int (hex_digit L)) :: u8) = word_of_nat L"
    using assms(3) by (simp add: hex2int_hex_digit unsigned_of_nat take_bit_nat_eq_self)
  have ulen: "unat (word_of_nat L :: u8) = L" and len8: "\<not> (word_of_nat L :: u8) > 8"
    using assms(3) by (simp_all add: unat_of_nat word_less_nat_alt)
  have fill: "fill_data 0 (word_of_nat L) (concat (map hex_pair ds) @ rest) ((word_of_nat (4 + 2 * length ds) :: u32) - 4)
                (msg_data CANMessage_default) = map word_of_nat ds @ replicate (8 - length ds) 0"
    using fill_data_hexpairs [of ds 0 "word_of_nat L" "(word_of_nat (4 + 2 * length ds) :: u32) - 4"
                                 "msg_data CANMessage_default" rest]
    using assms(3-5) ulen n4 by (simp add: CANMessage_default_def)
  show ?thesis
    using assms(1,2) n len len8 fill
    by (simp add: transmitMessage_def id_decode CANMessage_default_def Let_def)
qed

lemma serialEvents_t_line:
  assumes "opened b" "inputPos b = 0" "length (inputBuffer b) = 40"
    and "I < 4096" "L \<le> 8" "length ds \<le> L" "\<forall>d\<in>set ds. d < 256"
  shows "serialEvents cfg ([CHR ''t'', hex_digit (I div 256), hex_digit (I div 16 mod 16), hex_digit (I mod 16),
                            hex_digit L] @ concat (map hex_pair ds) @ [NEW_LINE]) b
         = b\<lparr>inputBuffer := [CHR ''t'', hex_digit (I div 256), hex_digit (I div 16 mod 16), hex_digit (I mod 16),
                            hex_digit L] @ concat (map hex_pair ds) @ (drop (5 + 2 * length ds) (inputBuffer b))[0 := NEW_LINE],
             inputPos := 0,
             car := (fst (car b)\<lparr>canDriver := snd (CANChannel_transmit
                  \<lparr>msg_id = word_of_nat I, msg_len = word_of_nat L,
                   msg_data = map word_of_nat ds @ replicate (8 - length ds) 0\<rparr> (canDriver (fst (car b))))\<rparr>,
                snd (car b))\<rparr>"
proof -
  let ?hs = "[hex_digit (I div 256), hex_digit (I div 16 mod 16), hex_digit (I mod 16), hex_digit L]
             @ concat (map hex_pair ds)"
  let ?R = "(drop (5 + 2 * length ds) (inputBuffer b))[0 := NEW_LINE]"
  have lxs: "length (CHR ''t'' # ?hs) = 5 + 2 * length ds"
    by (simp add: length_hex_pairs)
  have "I div 256 < 16" "I div 16 mod 16 < 16" "I mod 16 < 16" "L < 16"
    using assms(4,5) by simp_all
  moreover have "NEW_LINE \<noteq> CHR ''t''" by (simp add: NEW_LINE_def)
  ultimately have nl: "NEW_LINE \<notin> set (CHR ''t'' # ?hs)"
    using assms(7) hex_pairs_no_NEW_LINE [of ds] by (simp add: hex_digit_not_NEW_LINE)
  have u5: "unat (word_of_nat (5 + 2 * length ds) :: u32) = 5 + 2 * length ds"
    using assms(5,6) by (intro unat_of_nat_small) simp
  then have p5: "(word_of_nat (5 + 2 * length ds) :: u32) < 40"
    using assms(5,6) by (simp only: word_less_nat_alt) simp
  have s1: "serialEvents cfg (CHR ''t'' # ?hs) b
            = b\<lparr>inputBuffer := (CHR ''t'' # ?hs) @ drop (5 + 2 * length ds) (inputBuffer b),
                inputPos := word_of_nat (5 + 2 * length ds)\<rparr>"
    using serialEvents_plain0 [OF nl assms(2) _ assms(3), of cfg, unfolded lxs] assms(5,6) by simp
  have st: "store_char NEW_LINE (b\<lparr>inputBuffer := (CHR ''t'' # ?hs) @ drop (5 + 2 * length ds) (inputBuffer b),
                inputPos := word_of_nat (5 + 2 * length ds)\<rparr>)
            = b\<lparr>inputBuffer := (CHR ''t'' # ?hs) @ ?R, inputPos := word_of_nat (4 + 2 * length ds) + 2\<rparr>"
    using p5 u5 lxs by (simp add: store_char_def list_update_append)
  have op: "opened (b\<lparr>inputBuffer := (CHR ''t'' # ?hs) @ ?R, inputPos := word_of_nat (4 + 2 * length ds) + 2\<rparr>)"
    using assms(1) by (simp add: opened_def)
  have "serialEvents cfg ((CHR ''t'' # ?hs) @ [NEW_LINE]) b
        = parseInput cfg NEW_LINE (serialEvents cfg (CHR ''t'' # ?hs) b)"
    by (simp only: serialEvents_def foldl_append foldl_Cons foldl_Nil)
  also have "\<dots> = (transmitMessage (?hs @ ?R) (word_of_nat (4 + 2 * length ds))
                     (b\<lparr>inputBuffer := (CHR ''t'' # ?hs) @ ?R, inputPos := word_of_nat (4 + 2 * length ds) + 2\<rparr>))
                    \<lparr>inputPos := 0\<rparr>"
    by (simp only: s1 parseInput_def st Let_def if_True) (simp add: dispatch_def)
  also have "\<dots> = b\<lparr>inputBuffer := (CHR ''t'' # ?hs) @ ?R, inputPos := 0,
             car := (fst (car b)\<lparr>canDriver := snd (CANChannel_transmit
                  \<lparr>msg_id = word_of_nat I, msg_len = word_of_nat L,
                   msg_data = map word_of_nat ds @ replicate (8 - length ds) 0\<rparr> (canDriver (fst (car b))))\<rparr>,
                snd (car b))\<rparr>"
    using transmitMessage_hex [OF op assms(4-7), of ?R] by simp
  finally show ?thesis by simp
qed

lemma slcan_open_example:
  "opened (serialEvents CarloopRevision2 [CHR ''O'', NEW_LINE] (bridge_init (initial CarloopRevision2 (0::nat) 0 0 (\<lambda>_. 0))))
   \<and> inputPos (serialEvents CarloopRevision2 [CHR ''O'', NEW_LINE] (bridge_init (initial CarloopRevision2 (0::nat) 0 0 (\<lambda>_. 0)))) = 0
   \<and> bridge_wf (serialEvents CarloopRevision2 [CHR ''O'', NEW_LINE] (bridge_init (initial CarloopRevision2 (0::nat) 0 0 (\<lambda>_. 0))))
   \<and> bridge_tx (serialEvents CarloopRevision2 [CHR ''O'', NEW_LINE] (bridge_init (initial CarloopRevision2 (0::nat) 0 0 (\<lambda>_. 0)))) = []"
  by (simp add: serialEvents_def parseInput_def store_char_def dispatch_def openCAN_def opened_def bridge_wf_def
      bridge_init_def initial_def Carloop_def NEW_LINE_def CANChannel_new_def hw_ops)

subsection \<open>The buffer invariant\<close>

lemma store_char_wf: "bridge_wf b \<Longrightarrow> bridge_wf (store_char c b)"
  by (auto simp: bridge_wf_def store_char_def inc_le)

lemma parseInput_wf: "bridge_wf b \<Longrightarrow> bridge_wf (parseInput cfg c b)"
proof -
  assume wf: "bridge_wf b"
  have "bridge_wf (dispatch cfg (store_char c b))"
    using store_char_wf [OF wf] by (subst dispatch_car_only) (simp add: bridge_wf_def)
  then show ?thesis
    using store_char_wf [OF wf] by (cases "c = NEW_LINE") (simp_all add: parseInput_def bridge_wf_def)
qed

text \<open>
  C18. The parser's invariant: the write position never passes the end of the
  40-byte buffer, whatever bytes arrive.
\<close>

theorem serialEvents_wf: "bridge_wf b \<Longrightarrow> bridge_wf (serialEvents cfg cs b)"
  unfolding serialEvents_def
  by (induction cs arbitrary: b) (simp_all add: parseInput_wf)

theorem serialEvents_wf_witness:
  "bridge_wf (bridge_init (initial CarloopRevision2 (0::nat) 0 0 (\<lambda>_. 0)))
   \<and> bridge_wf (serialEvents CarloopRevision2 (''t12'' @ [NEW_LINE] @ replicate 50 (CHR ''x''))
                  (bridge_init (initial CarloopRevision2 (0::nat) 0 0 (\<lambda>_. 0))))"
proof -
  have "bridge_wf (bridge_init (initial CarloopRevision2 (0::nat) 0 0 (\<lambda>_. 0)))"
    by (simp add: bridge_wf_def bridge_init_def)
  then show ?thesis using serialEvents_wf by blast
qed

text \<open>
  C17. When a carriage return dispatches an \<open>S\<close> or \<open>t\<close> command, \<open>inputPos\<close> is
  at least 2, so the unsigned length \<open>inputPos - 2\<close> handed to the handler does not
  wrap around: it is at most 38, within the 40-byte buffer.
\<close>

theorem dispatch_length_no_wrap:
  assumes "bridge_wf b" "inputBuffer (store_char NEW_LINE b) ! 0 \<in> {CHR ''S'', CHR ''t''}"
  shows "2 \<le> inputPos (store_char NEW_LINE b) \<and> unat (inputPos (store_char NEW_LINE b) - 2) \<le> 38"
proof -
  have p: "unat (inputPos b) \<le> 40" and l: "length (inputBuffer b) = 40"
    using assms(1) by (simp_all add: bridge_wf_def word_le_nat_alt)
  have "unat (inputPos b) \<noteq> 0"
  proof
    assume "unat (inputPos b) = 0"
    then have "inputPos b = 0" by (simp add: unat_eq_zero)
    then have "inputBuffer (store_char NEW_LINE b) ! 0 = NEW_LINE"
      using l by (simp add: store_char_def)
    with assms(2) show False by (simp add: NEW_LINE_def)
  qed
  then have q: "2 \<le> unat (inputPos (store_char NEW_LINE b)) \<and> unat (inputPos (store_char NEW_LINE b)) \<le> 40"
    using p by (auto simp: store_char_def word_less_nat_alt unat_word_ariths)
  then show ?thesis
    by (simp add: word_le_nat_alt unat_sub) linarith
qed

theorem dispatch_length_no_wrap_witness:
  "bridge_wf (serialEvents CarloopRevision2 ''S'' (bridge_init (initial CarloopRevision2 (0::nat) 0 0 (\<lambda>_. 0))))
   \<and> inputBuffer (store_char NEW_LINE (serialEvents CarloopRevision2 ''S'' (bridge_init (initial CarloopRevision2 (0::nat) 0 0 (\<lambda>_. 0))))) ! 0
       \<in> {CHR ''S'', CHR ''t''}
   \<and> 2 \<le> inputPos (store_char NEW_LINE (serialEvents CarloopRevision2 ''S'' (bridge_init (initial CarloopRevision2 (0::nat) 0 0 (\<lambda>_. 0)))))
   \<and> unat (inputPos (store_char NEW_LINE (serialEvents CarloopRevision2 ''S'' (bridge_init (initial CarloopRevision2 (0::nat) 0 0 (\<lambda>_. 0))))) - 2) \<le> 38"
proof -
  let ?B = "serialEvents CarloopRevision2 ''S'' (bridge_init (initial CarloopRevision2 (0::nat) 0 0 (\<lambda>_. 0)))"
  have h: "bridge_wf ?B" "inputBuffer (store_char NEW_LINE ?B) ! 0 \<in> {CHR ''S'', CHR ''t''}"
    by (simp_all add: serialEvents_def parseInput_def store_char_def bridge_wf_def bridge_init_def NEW_LINE_def)
  then show ?thesis using dispatch_length_no_wrap [OF h] by blast
qed

subsection \<open>Transmitted frames\<close>

lemma transmitMessage_tx:
  "\<exists>ms. bridge_tx (transmitMessage buf n b) = bridge_tx b @ ms \<and> list_all frame_ok ms"
proof (cases "\<not> opened b \<or> n < 4 \<or> (ucast (hex2int (buf ! 3)) :: u8) > 8")
  case True
  then have "transmitMessage buf n b = b" by (auto simp: transmitMessage_def Let_def)
  then show ?thesis by simp
next
  case False
  let ?len = "ucast (hex2int (buf ! 3)) :: u8"
  let ?m = "CANMessage_default\<lparr>msg_id := push_bit 8 (hex2int (buf ! 0)) OR push_bit 4 (hex2int (buf ! 1))
                                             OR hex2int (buf ! 2),
              msg_len := ?len, msg_data := fill_data 0 ?len (drop 4 buf) (n - 4) (msg_data CANMessage_default)\<rparr>"
  have t: "transmitMessage buf n b
           = b\<lparr>car := (fst (car b)\<lparr>canDriver := snd (CANChannel_transmit ?m (canDriver (fst (car b))))\<rparr>,
                       snd (car b))\<rparr>"
    using False by (simp add: transmitMessage_def Let_def)
  have "frame_ok ?m"
    using False by (simp add: frame_ok_def hex_id_lt fill_data_length CANMessage_default_def not_less)
  then show ?thesis by (auto simp: t CANChannel_transmit_def)
qed

lemma openCAN_tx: "bridge_tx (openCAN cfg b) = bridge_tx b"
  by (cases "car b") (simp add: openCAN_def CANChannel_begin_def)

lemma closeCAN_tx: "bridge_tx (closeCAN cfg b) = bridge_tx b"
  by (cases "car b") (simp add: closeCAN_def CANChannel_end_def)

lemma changeCANSpeed_tx: "bridge_tx (changeCANSpeed buf n b) = bridge_tx b"
  by (simp add: changeCANSpeed_def setCANSpeed_def split: option.split)

lemma dispatch_tx: "\<exists>ms. bridge_tx (dispatch cfg b) = bridge_tx b @ ms \<and> list_all frame_ok ms"
proof -
  have keep: "\<exists>ms. bridge_tx b = bridge_tx b @ ms \<and> list_all frame_ok ms" by simp
  show ?thesis
    unfolding dispatch_def Let_def
    using keep transmitMessage_tx [of "drop 1 (inputBuffer b)" "inputPos b - 2" b]
    by (simp only: openCAN_tx closeCAN_tx changeCANSpeed_tx if_cancel split: if_split) simp
qed

text \<open>
  C16. Whatever bytes arrive on the serial port, every frame the bridge hands to
  \<open>CANChannel::transmit\<close> has an identifier below \<open>0x1000\<close>, a length of at most 8 and
  8 data bytes, and no queued frame is ever removed from the transmit queue.
\<close>

theorem serialEvents_frames_ok:
  "\<exists>ms. bridge_tx (serialEvents cfg cs b) = bridge_tx b @ ms \<and> list_all frame_ok ms"
  unfolding serialEvents_def
proof (induction cs arbitrary: b)
  case Nil
  then show ?case by simp
next
  case (Cons c cs)
  have "\<exists>ms. bridge_tx (parseInput cfg c b) = bridge_tx b @ ms \<and> list_all frame_ok ms"
    using dispatch_tx [of cfg "store_char c b"]
    by (cases "c = NEW_LINE") (auto simp: parseInput_def store_char_def)
  with Cons.IH [of "parseInput cfg c b"] show ?case by fastforce
qed

subsection \<open>Round trip and the edges of the protocol\<close>

text \<open>
  C15. Round trip of the line protocol: a frame printed by \<open>printReceivedMessage\<close>
  (an identifier below \<open>0x1000\<close>, at most 8 data bytes) and fed back byte by byte
  through \<open>parseInput\<close> on an open bridge at the start of a line is transmitted as the
  same frame, the bytes past its length cleared, and nothing else of the board changes.
\<close>

theorem slcan_roundtrip:
  assumes "opened b" "inputPos b = 0" "length (inputBuffer b) = 40"
    and "msg_id m < 4096" "msg_len m \<le> 8" "length (msg_data m) = 8"
  shows "car (serialEvents cfg (printReceivedMessage m) b)
           = (fst (car b)\<lparr>canDriver := snd (CANChannel_transmit
                (m\<lparr>msg_data := take (unat (msg_len m)) (msg_data m) @ replicate (8 - unat (msg_len m)) 0\<rparr>)
                (canDriver (fst (car b))))\<rparr>, snd (car b))
         \<and> inputPos (serialEvents cfg (printReceivedMessage m) b) = 0"
proof -
  have I: "unat (msg_id m) < 4096" and L: "unat (msg_len m) \<le> 8"
    using assms(4,5) by (simp_all add: word_less_nat_alt word_le_nat_alt)
  have lenq: "length (map unat (take (unat (msg_len m)) (msg_data m))) = unat (msg_len m)"
    using L assms(6) by simp
  then have len: "length (map unat (take (unat (msg_len m)) (msg_data m))) \<le> unat (msg_len m)"
    by simp
  have byte: "\<forall>d\<in>set (map unat (take (unat (msg_len m)) (msg_data m))). d < 256"
    by (simp add: unat_u8_lt)
  have msg: "\<lparr>msg_id = word_of_nat (unat (msg_id m)), msg_len = word_of_nat (unat (msg_len m)),
              msg_data = map word_of_nat (map unat (take (unat (msg_len m)) (msg_data m)))
                         @ replicate (8 - unat (msg_len m)) 0\<rparr>
             = m\<lparr>msg_data := take (unat (msg_len m)) (msg_data m) @ replicate (8 - unat (msg_len m)) 0\<rparr>"
    by (cases m) (simp add: comp_def)
  show ?thesis
    using serialEvents_t_line [OF assms(1-3) I L len byte, of cfg] msg lenq
    by (simp add: printReceivedMessage_chars assms(4,5))
qed

theorem slcan_roundtrip_witness:
  "opened (serialEvents CarloopRevision2 [CHR ''O'', NEW_LINE] (bridge_init (initial CarloopRevision2 (0::nat) 0 0 (\<lambda>_. 0))))
   \<and> inputPos (serialEvents CarloopRevision2 [CHR ''O'', NEW_LINE] (bridge_init (initial CarloopRevision2 (0::nat) 0 0 (\<lambda>_. 0)))) = 0
   \<and> length (inputBuffer (serialEvents CarloopRevision2 [CHR ''O'', NEW_LINE] (bridge_init (initial CarloopRevision2 (0::nat) 0 0 (\<lambda>_. 0))))) = 40
   \<and> msg_id \<lparr>msg_id = 0x123, msg_len = 2, msg_data = [0xAA, 0xBB, 1, 2, 3, 4, 5, 6]\<rparr> < 4096
   \<and> msg_len \<lparr>msg_id = 0x123, msg_len = 2, msg_data = [0xAA, 0xBB, 1, 2, 3, 4, 5, 6]\<rparr> \<le> 8
   \<and> length (msg_data \<lparr>msg_id = 0x123, msg_len = 2, msg_data = [0xAA, 0xBB, 1, 2, 3, 4, 5, 6]\<rparr>) = 8
   \<and> ch_tx (canDriver (fst (car (serialEvents CarloopRevision2
         (printReceivedMessage \<lparr>msg_id = 0x123, msg_len = 2, msg_data = [0xAA, 0xBB, 1, 2, 3, 4, 5, 6]\<rparr>)
         (serialEvents CarloopRevision2 [CHR ''O'', NEW_LINE] (bridge_init (initial CarloopRevision2 (0::nat) 0 0 (\<lambda>_. 0))))))))
      = [\<lparr>msg_id = 0x123, msg_len = 2, msg_data = [0xAA, 0xBB, 0, 0, 0, 0, 0, 0]\<rparr>]"
proof -
  let ?b = "serialEvents CarloopRevision2 [CHR ''O'', NEW_LINE] (bridge_init (initial CarloopRevision2 (0::nat) 0 0 (\<lambda>_. 0)))"
  let ?m = "\<lparr>msg_id = 0x123, msg_len = 2, msg_data = [0xAA, 0xBB, 1, 2, 3, 4, 5, 6]\<rparr> :: CANMessage"
  have h: "opened ?b" "inputPos ?b = 0" "length (inputBuffer ?b) = 40"
      "msg_id ?m < 4096" "msg_len ?m \<le> 8" "length (msg_data ?m) = 8"
    by (simp_all add: serialEvents_def parseInput_def store_char_def dispatch_def openCAN_def opened_def
        bridge_init_def initial_def Carloop_def NEW_LINE_def CANChannel_new_def hw_ops)
  have "ch_tx (canDriver (fst (car ?b))) = []"
    by (simp add: serialEvents_def parseInput_def store_char_def dispatch_def openCAN_def opened_def
        bridge_init_def initial_def Carloop_def NEW_LINE_def CANChannel_new_def hw_ops)
  moreover have "ch_enabled (canDriver (fst (car ?b)))"
    using h(1) by (simp only: opened_def CANChannel_isEnabled_def can_def)
  moreover have "replicate 6 (0 :: u8) = [0, 0, 0, 0, 0, 0]"
    by (simp add: numeral_eq_Suc)
  ultimately show ?thesis
    using slcan_roundtrip [OF h, of CarloopRevision2] h by (simp add: CANChannel_transmit_def)
qed

text \<open>
  C21. A \<open>t\<close> line with fewer data digits than its length field still transmits a
  frame of the declared length; the missing bytes are zero.
\<close>

theorem slcan_transmit_line:
  assumes "opened b" "inputPos b = 0" "length (inputBuffer b) = 40"
    and "I < 4096" "L \<le> 8" "length ds \<le> L" "\<forall>d\<in>set ds. d < 256"
  shows "bridge_tx (serialEvents cfg ([CHR ''t'', hex_digit (I div 256), hex_digit (I div 16 mod 16),
            hex_digit (I mod 16), hex_digit L] @ concat (map hex_pair ds) @ [NEW_LINE]) b)
         = bridge_tx b @ [\<lparr>msg_id = word_of_nat I, msg_len = word_of_nat L,
                             msg_data = map word_of_nat ds @ replicate (8 - length ds) 0\<rparr>]"
  using serialEvents_t_line [OF assms, of cfg] assms(1)
  by (simp add: opened_def CANChannel_isEnabled_def CANChannel_transmit_def)

theorem slcan_transmit_line_witness:
  "opened (serialEvents CarloopRevision2 [CHR ''O'', NEW_LINE] (bridge_init (initial CarloopRevision2 (0::nat) 0 0 (\<lambda>_. 0))))
   \<and> inputPos (serialEvents CarloopRevision2 [CHR ''O'', NEW_LINE] (bridge_init (initial CarloopRevision2 (0::nat) 0 0 (\<lambda>_. 0)))) = 0
   \<and> length (inputBuffer (serialEvents CarloopRevision2 [CHR ''O'', NEW_LINE] (bridge_init (initial CarloopRevision2 (0::nat) 0 0 (\<lambda>_. 0))))) = 40
   \<and> (0x123 :: nat) < 4096 \<and> (2 :: nat) \<le> 8 \<and> length [0xAA :: nat] \<le> 2 \<and> (0xAA :: nat) < 256
   \<and> bridge_tx (serialEvents CarloopRevision2 ([CHR ''t'', hex_digit (0x123 div 256), hex_digit (0x123 div 16 mod 16),
            hex_digit (0x123 mod 16), hex_digit 2] @ concat (map hex_pair [0xAA]) @ [NEW_LINE])
          (serialEvents CarloopRevision2 [CHR ''O'', NEW_LINE] (bridge_init (initial CarloopRevision2 (0::nat) 0 0 (\<lambda>_. 0)))))
      = [\<lparr>msg_id = 0x123, msg_len = 2, msg_data = [0xAA, 0, 0, 0, 0, 0, 0, 0]\<rparr>]"
proof -
  have h: "opened (serialEvents CarloopRevision2 [CHR ''O'', NEW_LINE] (bridge_init (initial CarloopRevision2 (0::nat) 0 0 (\<lambda>_. 0))))"
    "inputPos (serialEvents CarloopRevision2 [CHR ''O'', NEW_LINE] (bridge_init (initial CarloopRevision2 (0::nat) 0 0 (\<lambda>_. 0)))) = 0"
    "length (inputBuffer (serialEvents CarloopRevision2 [CHR ''O'', NEW_LINE] (bridge_init (initial CarloopRevision2 (0::nat) 0 0 (\<lambda>_. 0))))) = 40"
    using slcan_open_example by (simp_all add: bridge_wf_def)
  have r: "replicate 7 (0 :: u8) = [0, 0, 0, 0, 0, 0, 0]" by (simp add: numeral_eq_Suc)
  show ?thesis
    using slcan_transmit_line [OF h, of "0x123" 2 "[0xAA]" CarloopRevision2] slcan_open_example h r by simp
qed

text \<open>
  An example for the identifier finding: the parser accepts identifiers up to
  \<open>0xFFF\<close>, so \<open>t8000\<close> transmits a standard frame with identifier \<open>0x800\<close>,
  outside the 11-bit range of standard CAN identifiers.
\<close>

theorem slcan_id_outside_11_bits:
  "bridge_tx (serialEvents CarloopRevision2 (''t8000'' @ [NEW_LINE])
      (serialEvents CarloopRevision2 [CHR ''O'', NEW_LINE] (bridge_init (initial CarloopRevision2 (0::nat) 0 0 (\<lambda>_. 0)))))
   = [\<lparr>msg_id = 0x800, msg_len = 0, msg_data = replicate 8 0\<rparr>] \<and> (2 ^ 11 :: u32) \<le> 0x800"
proof -
  have h: "opened (serialEvents CarloopRevision2 [CHR ''O'', NEW_LINE] (bridge_init (initial CarloopRevision2 (0::nat) 0 0 (\<lambda>_. 0))))"
    "inputPos (serialEvents CarloopRevision2 [CHR ''O'', NEW_LINE] (bridge_init (initial CarloopRevision2 (0::nat) 0 0 (\<lambda>_. 0)))) = 0"
    "length (inputBuffer (serialEvents CarloopRevision2 [CHR ''O'', NEW_LINE] (bridge_init (initial CarloopRevision2 (0::nat) 0 0 (\<lambda>_. 0))))) = 40"
    using slcan_open_example by (simp_all add: bridge_wf_def)
  have d: "[CHR ''t'', hex_digit (0x800 div 256), hex_digit (0x800 div 16 mod 16), hex_digit (0x800 mod 16), hex_digit 0]
           @ concat (map hex_pair []) @ [NEW_LINE] = ''t8000'' @ [NEW_LINE]"
    by (simp add: hex_digit_def) code_simp
  show ?thesis
    using serialEvents_t_line [OF h, of "0x800" 0 "[]" CarloopRevision2] slcan_open_example d
    by (simp add: CANChannel_transmit_def opened_def CANChannel_isEnabled_def [symmetric])
qed



text \<open>
  C23. Only a carriage return (\<open>0x0D\<close>) ends a command: whatever the bridge's
  state, characters ended by a line feed (\<open>0x0A\<close>), the character the file's
  header names, execute no command: the facade, the board and the serial output are
  unchanged.
\<close>

theorem slcan_LF_not_line_end:
  assumes "NEW_LINE \<notin> set cs"
  shows "car (serialEvents cfg (cs @ [CHR 0x0A]) b) = car b
         \<and> serialOut (serialEvents cfg (cs @ [CHR 0x0A]) b) = serialOut b"
proof -
  have "NEW_LINE \<notin> set (cs @ [CHR 0x0A])" using assms by (simp add: NEW_LINE_def)
  moreover have "car (serialEvents cfg ds b') = car b' \<and> serialOut (serialEvents cfg ds b') = serialOut b'"
    if "NEW_LINE \<notin> set ds" for ds and b' :: "'p bridge"
    using that
    by (induction ds arbitrary: b') (auto simp: serialEvents_def parseInput_def store_char_def Let_def)
  ultimately show ?thesis by blast
qed

theorem slcan_LF_not_line_end_witness:
  "NEW_LINE \<notin> set ''O''
   \<and> car (serialEvents CarloopRevision2 (''O'' @ [CHR 0x0A]) (bridge_init (initial CarloopRevision2 (0::nat) 0 0 (\<lambda>_. 0))))
     = car (bridge_init (initial CarloopRevision2 (0::nat) 0 0 (\<lambda>_. 0)))"
proof -
  have h: "NEW_LINE \<notin> set ''O''" by (simp add: NEW_LINE_def)
  show ?thesis using slcan_LF_not_line_end [OF h, of CarloopRevision2 "bridge_init (initial CarloopRevision2 (0::nat) 0 0 (\<lambda>_. 0))"] h
    by simp
qed

subsection \<open>Bit rate\<close>

text \<open>
  C19. \<open>S5\<close> only stages 250 kbit/s: the running channel keeps its bit rate until
  the channel is closed and opened again (\<open>C\<close>, \<open>O\<close>), which starts it at 250 kbit/s.
\<close>

theorem slcan_speed_staged:
  assumes "bridge_wf b" "inputPos b = 0" "opened b"
  shows "opened (serialEvents cfg (''S5'' @ [NEW_LINE]) b)
         \<and> ch_speed (canDriver (fst (car (serialEvents cfg (''S5'' @ [NEW_LINE]) b))))
             = ch_speed (canDriver (fst (car b)))
         \<and> opened (serialEvents cfg (''S5'' @ [NEW_LINE] @ ''C'' @ [NEW_LINE] @ ''O'' @ [NEW_LINE]) b)
         \<and> ch_speed (canDriver (fst (car (serialEvents cfg (''S5'' @ [NEW_LINE] @ ''C'' @ [NEW_LINE] @ ''O'' @ [NEW_LINE]) b))))
             = 250000"
proof -
  have l: "length (inputBuffer b) = 40" using assms(1) by (simp add: bridge_wf_def)
  have nl: "NEW_LINE \<notin> set ''S5''" "NEW_LINE \<notin> set ''C''" "NEW_LINE \<notin> set ''O''"
    by (simp_all add: NEW_LINE_def)
  obtain c h where ch: "car b = (c, h)" by fastforce
  let ?b1 = "serialEvents cfg (''S5'' @ [NEW_LINE]) b"
  have b1: "car ?b1 = (setCANSpeed 250000 c, h)" "inputPos ?b1 = 0" "length (inputBuffer ?b1) = 40"
    using serialEvents_line [OF nl(1) assms(2) l, of cfg] ch l
    by (simp_all add: dispatch_def changeCANSpeed_def slcan_speed_def dispatch_keeps_buffer)
  have o1: "opened ?b1" using assms(3) b1(1) ch by (simp add: opened_def setCANSpeed_def)
  let ?b2 = "serialEvents cfg (''C'' @ [NEW_LINE]) ?b1"
  have b2: "car ?b2 = disableCAN cfg (setCANSpeed 250000 c, h)" "inputPos ?b2 = 0"
      "length (inputBuffer ?b2) = 40"
    using serialEvents_line [OF nl(2) b1(2,3), of cfg] o1 b1(1) b1(3)
    by (simp_all add: dispatch_def closeCAN_def dispatch_keeps_buffer opened_def Let_def)
  have o2: "\<not> opened ?b2" using b2(1) by (simp add: opened_def hw_ops)
  let ?b3 = "serialEvents cfg (''O'' @ [NEW_LINE]) ?b2"
  have b3: "car ?b3 = enableCAN cfg (disableCAN cfg (setCANSpeed 250000 c, h))"
    using serialEvents_line [OF nl(3) b2(2,3), of cfg] o2 b2(1)
    by (simp add: dispatch_def openCAN_def opened_def Let_def)
  have "serialEvents cfg (''S5'' @ [NEW_LINE] @ ''C'' @ [NEW_LINE]) b = ?b2"
    "serialEvents cfg (''S5'' @ [NEW_LINE] @ ''C'' @ [NEW_LINE] @ ''O'' @ [NEW_LINE]) b = ?b3"
    by (simp_all only: serialEvents_def foldl_append append_assoc [symmetric])
  then show ?thesis
    using o1 b1(1) b2(1) b3 ch by (simp add: opened_def hw_ops carloop_ops)
qed

theorem slcan_speed_staged_witness:
  "bridge_wf (serialEvents CarloopRevision2 [CHR ''O'', NEW_LINE] (bridge_init (initial CarloopRevision2 (0::nat) 0 0 (\<lambda>_. 0))))
   \<and> inputPos (serialEvents CarloopRevision2 [CHR ''O'', NEW_LINE] (bridge_init (initial CarloopRevision2 (0::nat) 0 0 (\<lambda>_. 0)))) = 0
   \<and> opened (serialEvents CarloopRevision2 [CHR ''O'', NEW_LINE] (bridge_init (initial CarloopRevision2 (0::nat) 0 0 (\<lambda>_. 0))))
   \<and> ch_speed (canDriver (fst (car (serialEvents CarloopRevision2 (''S5'' @ [NEW_LINE] @ ''C'' @ [NEW_LINE] @ ''O'' @ [NEW_LINE])
         (serialEvents CarloopRevision2 [CHR ''O'', NEW_LINE] (bridge_init (initial CarloopRevision2 (0::nat) 0 0 (\<lambda>_. 0))))))))
       = 250000"
proof -
  have h: "bridge_wf (serialEvents CarloopRevision2 [CHR ''O'', NEW_LINE] (bridge_init (initial CarloopRevision2 (0::nat) 0 0 (\<lambda>_. 0))))"
    "inputPos (serialEvents CarloopRevision2 [CHR ''O'', NEW_LINE] (bridge_init (initial CarloopRevision2 (0::nat) 0 0 (\<lambda>_. 0)))) = 0"
    "opened (serialEvents CarloopRevision2 [CHR ''O'', NEW_LINE] (bridge_init (initial CarloopRevision2 (0::nat) 0 0 (\<lambda>_. 0))))"
    using slcan_open_example by simp_all
  then show ?thesis using slcan_speed_staged [OF h, of CarloopRevision2] by blast
qed

subsection \<open>Receiving\<close>

declare receiveMessages.simps [simp del]

lemma receiveMessages_drains:
  assumes "ch_enabled (canDriver (fst (car b)))" "ch_rx (canDriver (fst (car b))) = rx"
  shows "receiveMessages b
         = b\<lparr>serialOut := serialOut b @ concat (map printReceivedMessage rx),
             car := (fst (car b)\<lparr>canDriver := (canDriver (fst (car b)))\<lparr>ch_rx := []\<rparr>\<rparr>, snd (car b))\<rparr>"
  using assms
proof (induction rx arbitrary: b)
  case Nil
  have d: "(canDriver (fst (car b)))\<lparr>ch_rx := []\<rparr> = canDriver (fst (car b))"
    using Nil.prems(2) by (cases "canDriver (fst (car b))") simp
  show ?case
    using Nil.prems
    by (subst receiveMessages.simps) (simp add: CANChannel_receive.simps, simp only: d, simp)
next
  case (Cons m ms)
  let ?b' = "b\<lparr>serialOut := serialOut b @ printReceivedMessage m,
               car := (fst (car b)\<lparr>canDriver := (canDriver (fst (car b)))\<lparr>ch_rx := ms\<rparr>\<rparr>, snd (car b))\<rparr>"
  have "receiveMessages b = receiveMessages ?b'"
    using Cons.prems by (subst receiveMessages.simps) (simp add: CANChannel_receive.simps Let_def)
  also have "\<dots> = ?b'\<lparr>serialOut := serialOut ?b' @ concat (map printReceivedMessage ms),
                 car := (fst (car ?b')\<lparr>canDriver := (canDriver (fst (car ?b')))\<lparr>ch_rx := []\<rparr>\<rparr>, snd (car ?b'))\<rparr>"
    by (rule Cons.IH) (use Cons.prems in simp_all)
  finally show ?case by simp
qed

text \<open>
  C20. One pass of \<open>loop\<close>: on an open channel every queued frame is printed in
  arrival order and the receive queue is left empty; on a closed channel nothing happens.
\<close>

theorem slcan_loop_prints_all:
  "slcan_loop b
   = (if opened b
      then b\<lparr>serialOut := serialOut b @ concat (map printReceivedMessage (ch_rx (canDriver (fst (car b))))),
             car := (fst (car b)\<lparr>canDriver := (canDriver (fst (car b)))\<lparr>ch_rx := []\<rparr>\<rparr>, snd (car b))\<rparr>
      else b)"
  by (simp add: slcan_loop_def opened_def receiveMessages_drains [OF _ refl] CANChannel_isEnabled_def)

end
