(* ===== verification/Slcan_Bus.thy ===== *)
theory Slcan_Bus
  imports Slcan
begin

text \<open>
  Two SLCAN bridges (\<open>socketcan_serial.cpp\<close>) on one CAN bus: the frames that one
  node's \<open>transmitMessage\<close> puts on the bus arrive at the other node's controller
  (\<open>CanFrame\<close> events of the facade), whose \<open>loop()\<close> prints them on its serial
  port. A CAN controller does not receive its own frames.
\<close>

subsection \<open>The bus and one relay round\<close>

text \<open>The bus delivers frames, in order, to the receiving node's CAN controller.\<close>

definition bus_deliver :: "config \<Rightarrow> CANMessage list \<Rightarrow> 'q bridge \<Rightarrow> 'q bridge" where
  "bus_deliver cfg ms b = b\<lparr>car := run_calls cfg (map CanFrame ms) (car b)\<rparr>"

text \<open>
  One round: node A's \<open>serialEvent\<close> consumes the characters typed to it, the
  frames it transmitted in doing so cross the bus, and node B's \<open>loop()\<close> runs.
\<close>

definition relay :: "config \<Rightarrow> char list \<Rightarrow> 'p bridge \<times> 'q bridge \<Rightarrow> 'p bridge \<times> 'q bridge" where
  "relay cfg cs ab =
     (let a' = serialEvents cfg cs (fst ab)
      in (a', slcan_loop (bus_deliver cfg (drop (length (bridge_tx (fst ab))) (bridge_tx a')) (snd ab))))"

subsection \<open>Delivery\<close>

lemma bus_deliver_rx:
  assumes "ch_enabled (canDriver (fst (car b)))"
  shows "car (bus_deliver cfg ms b)
         = (fst (car b)\<lparr>canDriver := (canDriver (fst (car b)))\<lparr>ch_rx := ch_rx (canDriver (fst (car b))) @ ms\<rparr>\<rparr>, snd (car b))"
  using assms
proof (induction ms arbitrary: b)
  case Nil
  then show ?case by (simp add: bus_deliver_def)
next
  case (Cons m ms)
  obtain c h where d: "car b = (c, h)" by fastforce
  have "car (bus_deliver cfg (m # ms) b) = car (bus_deliver cfg ms (b\<lparr>car := exec_call cfg (CanFrame m) (car b)\<rparr>))"
    by (simp add: bus_deliver_def)
  also have "\<dots> = (fst (car b)\<lparr>canDriver := (canDriver (fst (car b)))\<lparr>ch_rx := ch_rx (canDriver (fst (car b))) @ m # ms\<rparr>\<rparr>, snd (car b))"
    using Cons.prems d by (subst Cons.IH) (simp_all add: CANChannel_arrive_def)
  finally show ?case .
qed

lemma bus_deliver_serialOut [simp]: "serialOut (bus_deliver cfg ms b) = serialOut b"
  by (simp add: bus_deliver_def)

lemma printReceivedMessage_padded:
  "unat (msg_len m) \<le> length (msg_data m) \<Longrightarrow>
   printReceivedMessage (m\<lparr>msg_data := take (unat (msg_len m)) (msg_data m) @ zs\<rparr>) = printReceivedMessage m"
  by (simp add: printReceivedMessage_def)

subsection \<open>A line typed to one bridge is printed by the other\<close>

text \<open>
  C38. End to end over two bridges: a frame line in the format the bridge prints
  (\<open>t\<close>, three hex digits of id, the length, two hex digits per data byte,
  carriage return), typed to an open bridge A with an empty input buffer, is
  transmitted on the bus and printed verbatim by an open bridge B, after the frames
  B had already queued.
\<close>

theorem slcan_bridge_to_bridge:
  assumes "opened a" "inputPos a = 0" "length (inputBuffer a) = 40" "opened b"
    and "msg_id m < 4096" "msg_len m \<le> 8" "length (msg_data m) = 8"
  shows "serialOut (snd (relay cfg (printReceivedMessage m) (a, b)))
         = serialOut b @ concat (map printReceivedMessage (ch_rx (canDriver (fst (car b))))) @ printReceivedMessage m"
proof -
  have I: "unat (msg_id m) < 4096" and L: "unat (msg_len m) \<le> 8"
    using assms(5,6) by (simp_all add: word_less_nat_alt word_le_nat_alt)
  define ds where "ds = map unat (take (unat (msg_len m)) (msg_data m))"
  define m' where "m' = m\<lparr>msg_data := take (unat (msg_len m)) (msg_data m) @ replicate (8 - unat (msg_len m)) 0\<rparr>"
  have lenq: "length ds = unat (msg_len m)" using L assms(7) by (simp add: ds_def)
  have byte: "\<forall>d\<in>set ds. d < 256" by (simp add: ds_def unat_u8_lt)
  have msg: "\<lparr>msg_id = word_of_nat (unat (msg_id m)), msg_len = word_of_nat (unat (msg_len m)),
              msg_data = map word_of_nat ds @ replicate (8 - length ds) 0\<rparr> = m'"
    using lenq by (cases m) (simp add: m'_def ds_def comp_def)
  have line: "printReceivedMessage m =
           [CHR ''t'', hex_digit (unat (msg_id m) div 256), hex_digit (unat (msg_id m) div 16 mod 16),
            hex_digit (unat (msg_id m) mod 16), hex_digit (unat (msg_len m))] @ concat (map hex_pair ds) @ [NEW_LINE]"
    using printReceivedMessage_chars [OF assms(5,6)] by (simp add: ds_def)
  have ca: "car (serialEvents cfg (printReceivedMessage m) a)
            = (fst (car a)\<lparr>canDriver := snd (CANChannel_transmit m' (canDriver (fst (car a))))\<rparr>, snd (car a))"
    using serialEvents_t_line [OF assms(1-3) I L _ byte, of cfg] lenq msg line by simp
  have en: "ch_enabled (canDriver (fst (car a)))" "ch_enabled (canDriver (fst (car b)))"
    using assms(1,4) by (simp_all add: opened_def CANChannel_isEnabled_def)
  then have new: "drop (length (bridge_tx a)) (bridge_tx (serialEvents cfg (printReceivedMessage m) a)) = [m']"
    using ca by (simp add: CANChannel_transmit_def)
  have pm: "printReceivedMessage m' = printReceivedMessage m"
    using printReceivedMessage_padded [of m] assms(7) L by (simp add: m'_def)
  have rx: "ch_rx (canDriver (fst (car (bus_deliver cfg [m'] b)))) = ch_rx (canDriver (fst (car b))) @ [m']"
       "ch_enabled (canDriver (fst (car (bus_deliver cfg [m'] b))))"
    using bus_deliver_rx [OF en(2), of cfg "[m']"] en(2) by simp_all
  show ?thesis
    using receiveMessages_drains [OF rx(2,1)] rx(2) new pm
    by (simp add: relay_def slcan_loop_def CANChannel_isEnabled_def)
qed

theorem slcan_bridge_to_bridge_witness:
  "serialOut (snd (relay CarloopRevision2
      (printReceivedMessage \<lparr>msg_id = 0x123, msg_len = 2, msg_data = [0xAA, 0xBB, 1, 2, 3, 4, 5, 6]\<rparr>)
      (serialEvents CarloopRevision2 [CHR ''O'', NEW_LINE] (slcan_setup (bridge_init (initial CarloopRevision2 (0::nat) 0 0 (\<lambda>_. 0)))),
       serialEvents CarloopRevision2 [CHR ''O'', NEW_LINE] (slcan_setup (bridge_init (initial CarloopRevision2 (0::nat) 0 0 (\<lambda>_. 0)))))))
   = ''t1232aabb'' @ [NEW_LINE]"
proof -
  let ?b = "serialEvents CarloopRevision2 [CHR ''O'', NEW_LINE] (slcan_setup (bridge_init (initial CarloopRevision2 (0::nat) 0 0 (\<lambda>_. 0))))"
  let ?m = "\<lparr>msg_id = 0x123, msg_len = 2, msg_data = [0xAA, 0xBB, 1, 2, 3, 4, 5, 6]\<rparr> :: CANMessage"
  have h: "opened ?b" "inputPos ?b = 0" "length (inputBuffer ?b) = 40" "opened ?b"
      "msg_id ?m < 4096" "msg_len ?m \<le> 8" "length (msg_data ?m) = 8"
    and e: "serialOut ?b = []" "ch_rx (canDriver (fst (car ?b))) = []"
    by (simp_all add: serialEvents_def parseInput_def store_char_def dispatch_def openCAN_def opened_def
        slcan_setup_def bridge_init_def initial_def Carloop_def NEW_LINE_def CANChannel_new_def hw_ops)
  have p: "printReceivedMessage ?m = ''t1232aabb'' @ [NEW_LINE]"
    by (simp add: printReceivedMessage_def printf_0x_def hex_string.simps dec_string.simps hex_digit_def) code_simp
  show ?thesis using slcan_bridge_to_bridge [OF h, of CarloopRevision2] e p by simp
qed

end
