(* ===== verification/Obd_Blink.thy ===== *)
theory Obd_Blink
  imports Facade
begin

text \<open>
  The OBD example of \<open>src/examples/obd_blink/obd_blink.cpp\<close>: a three-state
  machine driven from \<open>loop()\<close> through the function pointer \<open>obdLoopFunction\<close>.
  \<open>sendObdRequest\<close> transmits an engine-RPM request, \<open>waitForObdResponse\<close> drains
  the receive queue for 100 ms and lights the LED on a matching reply,
  \<open>delayUntilNextRequest\<close> turns the LED off after 250 ms and starts the next cycle
  after 400 ms. Time is \<open>millis()\<close>, an \<open>unsigned long\<close> that wraps after
  \<open>2^32\<close> milliseconds; every comparison is on the unsigned difference
  \<open>millis() - transitionTime\<close>.
\<close>

subsection \<open>Constants and state\<close>

definition OBD_REQUEST_ID :: u32 where "OBD_REQUEST_ID = 0x7E0"
definition OBD_REPLY_ID :: u32 where "OBD_REPLY_ID = 0x7E8"
definition OBD_PID_SERVICE :: u8 where "OBD_PID_SERVICE = 0x01"
definition ENGINE_RPM :: u8 where "ENGINE_RPM = 0x0C"
definition pid :: u8 where "pid = ENGINE_RPM"
definition ledPin :: pin where "ledPin = D7"

lemmas obd_consts = OBD_REQUEST_ID_def OBD_REPLY_ID_def OBD_PID_SERVICE_def pid_def ENGINE_RPM_def ledPin_def

text \<open>The three functions \<open>obdLoopFunction\<close> can point to.\<close>

datatype obd_fn = SendObdRequest | WaitForObdResponse | DelayUntilNextRequest

text \<open>
  The globals of the sketch: the function pointer, \<open>transitionTime\<close>, and the
  \<open>carloop\<close> object with the board it drives.
\<close>

record 'p obd =
  obdLoopFunction :: obd_fn
  transitionTime :: ulong
  dev :: "'p st"

text \<open>Static initialisation: \<open>obdLoopFunction = sendObdRequest\<close>, \<open>transitionTime = 0\<close>.\<close>

definition obd_init :: "'p st \<Rightarrow> 'p obd" where
  "obd_init s = \<lparr>obdLoopFunction = SendObdRequest, transitionTime = 0, dev = s\<rparr>"

subsection \<open>The handlers\<close>

definition obd_request :: CANMessage where
  "obd_request = CANMessage_default\<lparr>msg_id := OBD_REQUEST_ID, msg_len := 8,
     msg_data := (msg_data CANMessage_default)[0 := 0x02, 1 := OBD_PID_SERVICE, 2 := pid]\<rparr>"

definition sendObdRequest :: "ulong \<Rightarrow> 'p obd \<Rightarrow> 'p obd" where
  "sendObdRequest now ob =
     (let (c, h) = dev ob
      in ob\<lparr>dev := (c\<lparr>canDriver := snd (CANChannel_transmit obd_request (canDriver c))\<rparr>, h),
           obdLoopFunction := WaitForObdResponse, transitionTime := now\<rparr>)"

definition is_obd_reply :: "CANMessage \<Rightarrow> bool" where
  "is_obd_reply m \<longleftrightarrow> msg_id m = OBD_REPLY_ID \<and> msg_data m ! 2 = pid"

text \<open>
  \<open>while (carloop.can().receive(message)) if (...) responseReceived = true;\<close>:
  every queued frame is dequeued; the flag records whether one was a reply.
\<close>

function obd_drain :: "bool \<Rightarrow> CANChannel \<Rightarrow> bool \<times> CANChannel" where
  "obd_drain r ch =
     (case CANChannel_receive ch of
        (None, ch') \<Rightarrow> (r, ch')
      | (Some m, ch') \<Rightarrow> obd_drain (r \<or> is_obd_reply m) ch')"
  by pat_completeness auto
termination
  by (relation "measure (\<lambda>(r, ch). length (ch_rx ch))")
     (auto dest!: CANChannel_receive_Some [OF sym])

definition waitForObdResponse :: "ulong \<Rightarrow> 'p obd \<Rightarrow> 'p obd" where
  "waitForObdResponse now ob =
     (if 100 \<le> now - transitionTime ob
      then ob\<lparr>obdLoopFunction := DelayUntilNextRequest, transitionTime := now\<rparr>
      else
        (let (c, h) = dev ob;
             (received, ch) = obd_drain False (canDriver c)
         in ob\<lparr>dev := (c\<lparr>canDriver := ch\<rparr>, if received then digitalWrite ledPin HIGH h else h)\<rparr>))"

definition delayUntilNextRequest :: "ulong \<Rightarrow> 'p obd \<Rightarrow> 'p obd" where
  "delayUntilNextRequest now ob =
     (if 400 \<le> now - transitionTime ob
      then ob\<lparr>obdLoopFunction := SendObdRequest, transitionTime := now\<rparr>
      else if 250 \<le> now - transitionTime ob
      then ob\<lparr>dev := (fst (dev ob), digitalWrite ledPin LOW (snd (dev ob)))\<rparr>
      else ob)"

text \<open>\<open>obdLoopFunction()\<close>: the call through the function pointer.\<close>

fun obd_call :: "obd_fn \<Rightarrow> ulong \<Rightarrow> 'p obd \<Rightarrow> 'p obd" where
  "obd_call SendObdRequest now ob = sendObdRequest now ob"
| "obd_call WaitForObdResponse now ob = waitForObdResponse now ob"
| "obd_call DelayUntilNextRequest now ob = delayUntilNextRequest now ob"

definition obd_setup :: "config \<Rightarrow> ulong \<Rightarrow> 'p obd \<Rightarrow> 'p obd" where
  "obd_setup cfg now ob =
     (let (c, h) = dev ob;
          s = carloop_begin cfg CARLOOP_ALL_FEATURES (c, pinMode ledPin OUTPUT h)
      in ob\<lparr>dev := s, transitionTime := now\<rparr>)"

definition obd_loop :: "config \<Rightarrow> ulong \<Rightarrow> 'p obd \<Rightarrow> 'p obd" where
  "obd_loop cfg now ob =
     (let o1 = ob\<lparr>dev := update cfg (dev ob)\<rparr> in obd_call (obdLoopFunction o1) now o1)"

text \<open>
  An execution of the sketch after \<open>setup()\<close>: \<open>loop()\<close> iterations at given true
  times, and CAN frames arriving from the bus between them.
\<close>

datatype obd_event = Loop nat | Frame CANMessage

fun obd_run :: "config \<Rightarrow> obd_event list \<Rightarrow> 'p obd \<Rightarrow> 'p obd" where
  "obd_run cfg [] ob = ob"
| "obd_run cfg (Loop t # evs) ob = obd_run cfg evs (obd_loop cfg (millis t) ob)"
| "obd_run cfg (Frame m # evs) ob = obd_run cfg evs (ob\<lparr>dev := exec_call cfg (CanFrame m) (dev ob)\<rparr>)"

subsection \<open>Runs of the sketch\<close>

text \<open>
  A run: \<open>setup()\<close> at some time on a board just powered on, then \<open>loop()\<close>
  iterations at non-decreasing true times at most \<open>g\<close> ms apart, \<open>g < 2^32 - 400\<close>,
  with CAN frames and ADC samples arriving in between. The last two indices record
  the time of the last iteration and the time of the last OBD request, if any; they
  observe the run and are not program state.
\<close>

inductive obd_reach :: "config \<Rightarrow> nat \<Rightarrow> 'p obd \<Rightarrow> nat \<Rightarrow> nat option \<Rightarrow> bool" for cfg g where
  reach_setup: "obd_reach cfg g (obd_setup cfg (millis t) (obd_init (initial cfg p0 f0 v0 adc))) t None"
| reach_loop: "obd_reach cfg g ob T R \<Longrightarrow> T \<le> t \<Longrightarrow> t - T \<le> g \<Longrightarrow> g < 2 ^ 32 - 400 \<Longrightarrow>
           obd_reach cfg g (obd_loop cfg (millis t) ob) t
             (if obdLoopFunction ob = SendObdRequest then Some t else R)"
| reach_frame: "obd_reach cfg g ob T R \<Longrightarrow> obd_reach cfg g (ob\<lparr>dev := exec_call cfg (CanFrame m) (dev ob)\<rparr>) T R"
| reach_adc: "obd_reach cfg g ob T R \<Longrightarrow> obd_reach cfg g (ob\<lparr>dev := exec_call cfg (AdcSample p v) (dev ob)\<rparr>) T R"

text \<open>
  The timing invariant of a run: \<open>transitionTime\<close> holds \<open>millis()\<close> of a true time
  \<open>Ttt\<close> no later than the last iteration, and per state the elapsed time since then
  and since the last request is bounded.
\<close>

definition obd_timing_inv :: "'p obd \<Rightarrow> nat \<Rightarrow> nat option \<Rightarrow> nat \<Rightarrow> bool" where
  "obd_timing_inv ob T R Ttt \<longleftrightarrow> transitionTime ob = millis Ttt \<and> Ttt \<le> T \<and>
     (case obdLoopFunction ob of
        WaitForObdResponse \<Rightarrow> R = Some Ttt \<and> T - Ttt < 100
      | DelayUntilNextRequest \<Rightarrow> (\<exists>r. R = Some r \<and> r + 100 \<le> Ttt) \<and> T - Ttt < 400
      | SendObdRequest \<Rightarrow> (\<forall>r. R = Some r \<longrightarrow> r + 500 \<le> Ttt))"

text \<open>
  The LED invariant of a run: when a request is due the LED is off, and in the
  delay state it is off once an iteration has seen 250 ms elapse.
\<close>

definition obd_led_inv :: "'p obd \<Rightarrow> nat \<Rightarrow> nat \<Rightarrow> bool" where
  "obd_led_inv ob T Ttt \<longleftrightarrow>
     (case obdLoopFunction ob of
        SendObdRequest \<Rightarrow> pinLevels (snd (dev ob)) ledPin = LOW
      | DelayUntilNextRequest \<Rightarrow> (250 \<le> T - Ttt \<longrightarrow> pinLevels (snd (dev ob)) ledPin = LOW)
      | WaitForObdResponse \<Rightarrow> True)"

text \<open>The cycle the sketch's comments describe, as an abstract machine.\<close>

inductive phase_step :: "obd_fn \<Rightarrow> obd_fn \<Rightarrow> bool" where
  send_wait: "phase_step SendObdRequest WaitForObdResponse"
| wait_wait: "phase_step WaitForObdResponse WaitForObdResponse"
| wait_delay: "phase_step WaitForObdResponse DelayUntilNextRequest"
| delay_delay: "phase_step DelayUntilNextRequest DelayUntilNextRequest"
| delay_send: "phase_step DelayUntilNextRequest SendObdRequest"

code_pred phase_step .

subsection \<open>Handlers and time\<close>

lemma sendObdRequest_phase:
  "obdLoopFunction (sendObdRequest now ob) = WaitForObdResponse" "transitionTime (sendObdRequest now ob) = now"
  by (simp_all add: sendObdRequest_def split: prod.split)

lemma waitForObdResponse_phase:
  "obdLoopFunction (waitForObdResponse now ob)
     = (if 100 \<le> now - transitionTime ob then DelayUntilNextRequest else obdLoopFunction ob)"
  "transitionTime (waitForObdResponse now ob) = (if 100 \<le> now - transitionTime ob then now else transitionTime ob)"
  by (simp_all add: waitForObdResponse_def split: prod.split)

lemma delayUntilNextRequest_phase:
  "obdLoopFunction (delayUntilNextRequest now ob)
     = (if 400 \<le> now - transitionTime ob then SendObdRequest else obdLoopFunction ob)"
  "transitionTime (delayUntilNextRequest now ob) = (if 400 \<le> now - transitionTime ob then now else transitionTime ob)"
  by (simp_all add: delayUntilNextRequest_def)

subsection \<open>Request pacing\<close>

lemma obd_timing_loop:
  assumes inv: "obd_timing_inv ob T R Ttt" and t: "T \<le> t" "t - T < 2 ^ 32 - 400"
  shows "\<exists>Ttt'. obd_timing_inv (obd_loop cfg (millis t) ob) t
                (if obdLoopFunction ob = SendObdRequest then Some t else R) Ttt'"
proof -
  let ?o1 = "ob\<lparr>dev := update cfg (dev ob)\<rparr>"
  have le: "Ttt \<le> t" and ttt: "transitionTime ob = millis Ttt" using inv t by (simp_all add: obd_timing_inv_def)
  have o1: "obdLoopFunction ?o1 = obdLoopFunction ob" "transitionTime ?o1 = transitionTime ob" by simp_all
  show ?thesis
  proof (cases "obdLoopFunction ob")
    case SendObdRequest
    then show ?thesis
      using sendObdRequest_phase [of "millis t" ?o1]
      by (intro exI [of _ t]) (simp add: obd_loop_def obd_timing_inv_def)
  next
    case WaitForObdResponse
    then have w: "R = Some Ttt" "T - Ttt < 100" using inv by (simp_all add: obd_timing_inv_def)
    then have e: "(100 \<le> millis t - transitionTime ob) \<longleftrightarrow> 100 \<le> t - Ttt"
      using millis_elapsed_le [OF le, of 100] t ttt by simp
    show ?thesis
    proof (cases "100 \<le> t - Ttt")
      case True
      then show ?thesis
        using WaitForObdResponse waitForObdResponse_phase [of "millis t" ?o1] e w
        by (intro exI [of _ t]) (simp add: obd_loop_def obd_timing_inv_def)
    next
      case False
      then show ?thesis
        using WaitForObdResponse waitForObdResponse_phase [of "millis t" ?o1] e w ttt le
        by (intro exI [of _ Ttt]) (simp add: obd_loop_def obd_timing_inv_def)
    qed
  next
    case DelayUntilNextRequest
    then obtain r where d: "R = Some r" "r + 100 \<le> Ttt" "T - Ttt < 400"
      using inv by (auto simp: obd_timing_inv_def)
    then have e: "(400 \<le> millis t - transitionTime ob) \<longleftrightarrow> 400 \<le> t - Ttt"
      using millis_elapsed_le [OF le, of 400] t ttt by simp
    show ?thesis
    proof (cases "400 \<le> t - Ttt")
      case True
      then show ?thesis
        using DelayUntilNextRequest delayUntilNextRequest_phase [of "millis t" ?o1] e d
        by (intro exI [of _ t]) (simp add: obd_loop_def obd_timing_inv_def)
    next
      case False
      then show ?thesis
        using DelayUntilNextRequest delayUntilNextRequest_phase [of "millis t" ?o1] e d ttt le
        by (intro exI [of _ Ttt]) (simp add: obd_loop_def obd_timing_inv_def)
    qed
  qed
qed

lemma obd_reach_timing: "obd_reach cfg g ob T R \<Longrightarrow> \<exists>Ttt. obd_timing_inv ob T R Ttt"
proof (induction rule: obd_reach.induct)
  case (reach_setup t p0 f0 v0 adc)
  then show ?case
    by (intro exI [of _ t]) (simp add: obd_setup_def obd_init_def obd_timing_inv_def split: prod.split)
next
  case (reach_loop ob T R t)
  then show ?case using obd_timing_loop [of ob T R _ t cfg] by auto
next
  case (reach_frame ob T R m)
  then show ?case by (simp add: obd_timing_inv_def)
next
  case (reach_adc ob T R p v)
  then show ?case by (simp add: obd_timing_inv_def)
qed

text \<open>
  C24. Request pacing, across the wrap-around of \<open>millis()\<close>: in every run of the
  sketch whose loop iterations are less than \<open>2^32 - 400\<close> ms apart, the machine
  enters the delay state at least 100 ms after the last request and is ready to send
  the next one only at least 500 ms after it.
\<close>

theorem obd_request_spacing:
  assumes "obd_reach cfg g ob T (Some r)"
  shows "(obdLoopFunction ob = DelayUntilNextRequest \<longrightarrow> r + 100 \<le> T)
         \<and> (obdLoopFunction ob = SendObdRequest \<longrightarrow> r + 500 \<le> T)"
  using obd_reach_timing [OF assms] by (auto simp: obd_timing_inv_def split: obd_fn.splits)

theorem obd_request_spacing_witness:
  "obd_reach CarloopRevision2 1000
     (obd_loop CarloopRevision2 (millis 600) (obd_loop CarloopRevision2 (millis 150)
        (obd_loop CarloopRevision2 (millis 1) (obd_setup CarloopRevision2 (millis 0) (obd_init (initial CarloopRevision2 (0::nat) 0 0 (\<lambda>_. 0)))))))
     600 (Some 1)
   \<and> obdLoopFunction (obd_loop CarloopRevision2 (millis 600) (obd_loop CarloopRevision2 (millis 150)
        (obd_loop CarloopRevision2 (millis 1) (obd_setup CarloopRevision2 (millis 0) (obd_init (initial CarloopRevision2 (0::nat) 0 0 (\<lambda>_. 0))))))) = SendObdRequest
   \<and> (1::nat) + 500 \<le> 600"
proof -
  define o0 where "o0 = obd_setup CarloopRevision2 (millis 0) (obd_init (initial CarloopRevision2 (0::nat) 0 0 (\<lambda>_. 0)))"
  define o1 where "o1 = obd_loop CarloopRevision2 (millis 1) o0"
  define o2 where "o2 = obd_loop CarloopRevision2 (millis 150) o1"
  define o3 where "o3 = obd_loop CarloopRevision2 (millis 600) o2"
  have f0: "obdLoopFunction o0 = SendObdRequest" "transitionTime o0 = millis 0"
    by (simp_all add: o0_def obd_setup_def obd_init_def split: prod.split)
  have f1: "obdLoopFunction o1 = WaitForObdResponse" "transitionTime o1 = millis 1"
    using f0 by (simp_all add: o1_def obd_loop_def sendObdRequest_phase)
  have f2: "obdLoopFunction o2 = DelayUntilNextRequest" "transitionTime o2 = millis 150"
    using f1 by (simp_all add: o2_def obd_loop_def waitForObdResponse_phase millis_def)
  have f3: "obdLoopFunction o3 = SendObdRequest"
    using f2 by (simp add: o3_def obd_loop_def delayUntilNextRequest_phase millis_def)
  have "obd_reach CarloopRevision2 1000 o0 0 None" unfolding o0_def by (rule reach_setup)
  then have "obd_reach CarloopRevision2 1000 o1 1 (Some 1)"
    using reach_loop [of CarloopRevision2 1000 o0 0 None 1] f0 by (simp add: o1_def)
  then have "obd_reach CarloopRevision2 1000 o2 150 (Some 1)"
    using reach_loop [of CarloopRevision2 1000 o1 1 "Some 1" 150] f1 by (simp add: o2_def)
  then have r3: "obd_reach CarloopRevision2 1000 o3 600 (Some 1)"
    using reach_loop [of CarloopRevision2 1000 o2 150 "Some 1" 600] f2 by (simp add: o3_def)
  show ?thesis using r3 f3 obd_request_spacing [OF r3] unfolding o3_def o2_def o1_def o0_def by simp
qed

text \<open>
  C26. The 100 ms timeout is measured in true time even when \<open>millis()\<close> wraps
  between the request and the check: the unsigned difference equals the elapsed time.
\<close>

theorem wait_timeout_across_wrap:
  assumes "obdLoopFunction ob = WaitForObdResponse" "transitionTime ob = millis t0"
    and "t0 \<le> t" "t - t0 < 2 ^ 32"
  shows "obdLoopFunction (obd_loop cfg (millis t) ob)
         = (if 100 \<le> t - t0 then DelayUntilNextRequest else WaitForObdResponse)"
  using assms millis_elapsed_le [OF assms(3,4), of 100]
  by (simp add: obd_loop_def waitForObdResponse_phase)

theorem wait_timeout_across_wrap_witness:
  "obdLoopFunction ((obd_init (initial CarloopRevision2 (0::nat) 0 0 (\<lambda>_. 0)))
      \<lparr>obdLoopFunction := WaitForObdResponse, transitionTime := millis (2 ^ 32 - 50)\<rparr>) = WaitForObdResponse
   \<and> millis (2 ^ 32 + 60) = 60 \<and> millis (2 ^ 32 - 50) = 4294967246
   \<and> obdLoopFunction (obd_loop CarloopRevision2 (millis (2 ^ 32 + 60))
        ((obd_init (initial CarloopRevision2 (0::nat) 0 0 (\<lambda>_. 0)))
           \<lparr>obdLoopFunction := WaitForObdResponse, transitionTime := millis (2 ^ 32 - 50)\<rparr>))
      = DelayUntilNextRequest"
proof -
  have "obdLoopFunction (obd_loop CarloopRevision2 (millis (2 ^ 32 + 60))
        ((obd_init (initial CarloopRevision2 (0::nat) 0 0 (\<lambda>_. 0)))
           \<lparr>obdLoopFunction := WaitForObdResponse, transitionTime := millis (2 ^ 32 - 50)\<rparr>))
      = (if 100 \<le> (2 ^ 32 + 60 :: nat) - (2 ^ 32 - 50) then DelayUntilNextRequest else WaitForObdResponse)"
    by (rule wait_timeout_across_wrap) simp_all
  then show ?thesis by (simp add: millis_def)
qed

subsection \<open>Replies and the LED\<close>

declare obd_drain.simps [simp del]

lemma obd_drain_eq:
  assumes "ch_enabled ch" "ch_rx ch = rx"
  shows "obd_drain r ch = (r \<or> list_ex is_obd_reply rx, ch\<lparr>ch_rx := []\<rparr>)"
  using assms
proof (induction rx arbitrary: r ch)
  case Nil
  have "ch\<lparr>ch_rx := []\<rparr> = ch" using Nil.prems(2) by (cases ch) simp
  then show ?case
    using Nil.prems by (subst obd_drain.simps) (simp add: CANChannel_receive.simps)
next
  case (Cons m ms)
  have "obd_drain r ch = obd_drain (r \<or> is_obd_reply m) (ch\<lparr>ch_rx := ms\<rparr>)"
    using Cons.prems by (subst obd_drain.simps) (simp add: CANChannel_receive.simps)
  also have "\<dots> = ((r \<or> is_obd_reply m) \<or> list_ex is_obd_reply ms, ch\<lparr>ch_rx := []\<rparr>)"
    using Cons.prems by (subst Cons.IH) simp_all
  finally show ?case by auto
qed

text \<open>
  C25. Before its 100 ms timeout, \<open>waitForObdResponse\<close> dequeues every waiting frame
  and drives the LED high exactly when one of them is a reply (\<open>0x7E8\<close>, PID byte
  \<open>0x0C\<close>); otherwise the LED keeps its level, and the state stays the same.
\<close>

theorem wait_led_on_reply:
  assumes "\<not> 100 \<le> now - transitionTime ob" "ch_enabled (canDriver (fst (dev ob)))"
  shows "dev (waitForObdResponse now ob)
         = (fst (dev ob)\<lparr>canDriver := (canDriver (fst (dev ob)))\<lparr>ch_rx := []\<rparr>\<rparr>,
            if list_ex is_obd_reply (ch_rx (canDriver (fst (dev ob))))
            then digitalWrite ledPin HIGH (snd (dev ob)) else snd (dev ob))
         \<and> obdLoopFunction (waitForObdResponse now ob) = obdLoopFunction ob"
proof -
  obtain c h where d: "dev ob = (c, h)" by fastforce
  show ?thesis
    using assms obd_drain_eq [of "canDriver c" _ False] d by (simp add: waitForObdResponse_def)
qed

theorem wait_led_on_reply_witness:
  "\<not> 100 \<le> millis 50 - transitionTime ((obd_init (exec_call CarloopRevision2
        (CanFrame \<lparr>msg_id = 0x7E8, msg_len = 8, msg_data = [4, 0x41, 0x0C, 0x1A, 0xF8, 0, 0, 0]\<rparr>)
        (enableCAN CarloopRevision2 (initial CarloopRevision2 (0::nat) 0 0 (\<lambda>_. 0)))))
      \<lparr>obdLoopFunction := WaitForObdResponse, transitionTime := millis 1\<rparr>)
   \<and> ch_enabled (canDriver (fst (dev ((obd_init (exec_call CarloopRevision2
        (CanFrame \<lparr>msg_id = 0x7E8, msg_len = 8, msg_data = [4, 0x41, 0x0C, 0x1A, 0xF8, 0, 0, 0]\<rparr>)
        (enableCAN CarloopRevision2 (initial CarloopRevision2 (0::nat) 0 0 (\<lambda>_. 0)))))
      \<lparr>obdLoopFunction := WaitForObdResponse, transitionTime := millis 1\<rparr>))))
   \<and> pinLevels (snd (dev (waitForObdResponse (millis 50) ((obd_init (exec_call CarloopRevision2
        (CanFrame \<lparr>msg_id = 0x7E8, msg_len = 8, msg_data = [4, 0x41, 0x0C, 0x1A, 0xF8, 0, 0, 0]\<rparr>)
        (enableCAN CarloopRevision2 (initial CarloopRevision2 (0::nat) 0 0 (\<lambda>_. 0)))))
      \<lparr>obdLoopFunction := WaitForObdResponse, transitionTime := millis 1\<rparr>)))) ledPin = HIGH"
proof -
  define OB where "OB = (obd_init (exec_call CarloopRevision2
        (CanFrame \<lparr>msg_id = 0x7E8, msg_len = 8, msg_data = [4, 0x41, 0x0C, 0x1A, 0xF8, 0, 0, 0]\<rparr>)
        (enableCAN CarloopRevision2 (initial CarloopRevision2 (0::nat) 0 0 (\<lambda>_. 0)))))
      \<lparr>obdLoopFunction := WaitForObdResponse, transitionTime := millis 1\<rparr>"
  have h: "\<not> 100 \<le> millis 50 - transitionTime OB" "ch_enabled (canDriver (fst (dev OB)))"
    by (simp_all add: OB_def obd_init_def millis_def initial_def Carloop_def CANChannel_new_def hw_ops)
  have r: "list_ex is_obd_reply (ch_rx (canDriver (fst (dev OB))))"
    by (simp add: OB_def obd_init_def initial_def Carloop_def CANChannel_new_def hw_ops is_obd_reply_def
        OBD_REPLY_ID_def pid_def ENGINE_RPM_def)
  have "pinLevels (snd (dev (waitForObdResponse (millis 50) OB))) ledPin = HIGH"
    using wait_led_on_reply [OF h] r by (simp add: digitalWrite_def)
  then show ?thesis using h unfolding OB_def by blast
qed

subsection \<open>The cycle\<close>

text \<open>
  C27. Every loop iteration refines one step of the cycle send, wait, delay: a request
  always moves to waiting, waiting and delaying either stay or move on, and no phase
  is ever skipped.
\<close>

theorem obd_loop_phase_step: "phase_step (obdLoopFunction ob) (obdLoopFunction (obd_loop cfg now ob))"
  by (cases "obdLoopFunction ob")
     (simp_all add: obd_loop_def sendObdRequest_phase waitForObdResponse_phase delayUntilNextRequest_phase
        phase_step.intros)

subsection \<open>The LED\<close>

lemma update_pinLevels [simp]: "snd (update cfg s) = snd s"
  by (cases s) simp

lemma sendObdRequest_hw [simp]: "snd (dev (sendObdRequest now ob)) = snd (dev ob)"
  by (simp add: sendObdRequest_def split: prod.split)

lemma delayUntilNextRequest_led:
  "pinLevels (snd (dev (delayUntilNextRequest now ob))) ledPin
   = (if \<not> 400 \<le> now - transitionTime ob \<and> 250 \<le> now - transitionTime ob then LOW
      else pinLevels (snd (dev ob)) ledPin)"
  by (simp add: delayUntilNextRequest_def digitalWrite_def)

lemma carloop_begin_other_pin:
  assumes "p \<noteq> CAN_ENABLE_PIN cfg" "p \<noteq> GPS_ENABLE_PIN cfg"
  shows "pinLevels (snd (carloop_begin cfg f s)) p = pinLevels (snd s) p"
  using assms by (cases s) (simp add: Let_def hw_ops carloop_ops)

lemma obd_led_loop:
  assumes inv: "obd_timing_inv ob T R Ttt" and led: "obd_led_inv ob T Ttt"
    and t: "T \<le> t" "t - T \<le> 150"
  shows "\<exists>Ttt'. obd_timing_inv (obd_loop cfg (millis t) ob) t
                 (if obdLoopFunction ob = SendObdRequest then Some t else R) Ttt'
               \<and> obd_led_inv (obd_loop cfg (millis t) ob) t Ttt'"
proof -
  let ?o1 = "ob\<lparr>dev := update cfg (dev ob)\<rparr>"
  have le: "Ttt \<le> t" and ttt: "transitionTime ob = millis Ttt" using inv t by (simp_all add: obd_timing_inv_def)
  show ?thesis
  proof (cases "obdLoopFunction ob")
    case SendObdRequest
    then show ?thesis
      by (intro exI [of _ t]) (simp add: obd_loop_def obd_timing_inv_def obd_led_inv_def sendObdRequest_phase)
  next
    case WaitForObdResponse
    then have w: "R = Some Ttt" "T - Ttt < 100" using inv by (simp_all add: obd_timing_inv_def)
    then have e: "(100 \<le> millis t - transitionTime ob) \<longleftrightarrow> 100 \<le> t - Ttt"
      using millis_elapsed_le [OF le, of 100] t ttt by simp
    show ?thesis
    proof (cases "100 \<le> t - Ttt")
      case True
      then show ?thesis
        using WaitForObdResponse e w
        by (intro exI [of _ t]) (simp add: obd_loop_def obd_timing_inv_def obd_led_inv_def waitForObdResponse_phase)
    next
      case False
      then show ?thesis
        using WaitForObdResponse e w ttt le
        by (intro exI [of _ Ttt]) (simp add: obd_loop_def obd_timing_inv_def obd_led_inv_def waitForObdResponse_phase)
    qed
  next
    case DelayUntilNextRequest
    then obtain r where d: "R = Some r" "r + 100 \<le> Ttt" "T - Ttt < 400"
      using inv by (auto simp: obd_timing_inv_def)
    have e4: "(400 \<le> millis t - transitionTime ob) \<longleftrightarrow> 400 \<le> t - Ttt"
      using millis_elapsed_le [OF le, of 400] t d ttt by simp
    have e2: "(250 \<le> millis t - transitionTime ob) \<longleftrightarrow> 250 \<le> t - Ttt"
      using millis_elapsed_le [OF le, of 250] t d ttt by simp
    show ?thesis
    proof (cases "400 \<le> t - Ttt")
      case True
      then have "250 \<le> T - Ttt" using t by linarith
      then have "pinLevels (snd (dev ob)) ledPin = LOW" using led DelayUntilNextRequest by (simp add: obd_led_inv_def)
      then show ?thesis
        using True DelayUntilNextRequest e4 d
        by (intro exI [of _ t]) (simp add: obd_loop_def obd_timing_inv_def obd_led_inv_def
            delayUntilNextRequest_phase delayUntilNextRequest_led)
    next
      case False
      then show ?thesis
        using DelayUntilNextRequest e4 e2 d ttt le
        by (intro exI [of _ Ttt]) (simp add: obd_loop_def obd_timing_inv_def obd_led_inv_def
            delayUntilNextRequest_phase delayUntilNextRequest_led)
    qed
  qed
qed

lemma obd_inv_dev:
  assumes "pinLevels (snd s') = pinLevels (snd (dev ob))"
  shows "(obd_timing_inv (ob\<lparr>dev := s'\<rparr>) T R Ttt \<longleftrightarrow> obd_timing_inv ob T R Ttt)
         \<and> (obd_led_inv (ob\<lparr>dev := s'\<rparr>) T Ttt \<longleftrightarrow> obd_led_inv ob T Ttt)"
  using assms by (simp add: obd_timing_inv_def obd_led_inv_def split: obd_fn.split)

lemma obd_reach_led:
  assumes "obd_reach cfg g ob T R" "g \<le> 150" "ledPin \<noteq> CAN_ENABLE_PIN cfg" "ledPin \<noteq> GPS_ENABLE_PIN cfg"
  shows "\<exists>Ttt. obd_timing_inv ob T R Ttt \<and> obd_led_inv ob T Ttt"
  using assms(1)
proof (induction rule: obd_reach.induct)
  case (reach_setup t p0 f0 v0 adc)
  have "dev (obd_setup cfg (millis t) (obd_init (initial cfg p0 f0 v0 adc)))
        = carloop_begin cfg CARLOOP_ALL_FEATURES (Carloop cfg p0 f0 v0, pinMode ledPin OUTPUT (hw_init adc))"
    by (simp add: obd_setup_def obd_init_def initial_def del: carloop_begin.simps)
  moreover have "pinLevels (snd (carloop_begin cfg CARLOOP_ALL_FEATURES
                    (Carloop cfg p0 f0 v0, pinMode ledPin OUTPUT (hw_init adc)))) ledPin
                  = pinLevels (snd (Carloop cfg p0 f0 v0, pinMode ledPin OUTPUT (hw_init adc))) ledPin"
    by (rule carloop_begin_other_pin [OF assms(3,4)])
  ultimately have "pinLevels (snd (dev (obd_setup cfg (millis t) (obd_init (initial cfg p0 f0 v0 adc))))) ledPin = LOW"
    by (simp add: hw_init_def pinMode_def del: carloop_begin.simps)
  moreover have "obdLoopFunction (obd_setup cfg (millis t) (obd_init (initial cfg p0 f0 v0 adc))) = SendObdRequest"
      "transitionTime (obd_setup cfg (millis t) (obd_init (initial cfg p0 f0 v0 adc))) = millis t"
    by (simp_all add: obd_setup_def obd_init_def split: prod.split)
  ultimately show ?case
    by (intro exI [of _ t]) (simp add: obd_timing_inv_def obd_led_inv_def)
next
  case (reach_loop ob T R t)
  then show ?case using obd_led_loop [of ob T R _ t cfg] assms(2) by auto
next
  case (reach_frame ob T R m)
  have "pinLevels (snd (exec_call cfg (CanFrame m) (dev ob))) = pinLevels (snd (dev ob))"
    by (cases "dev ob") simp
  then show ?case using reach_frame.IH obd_inv_dev by blast
next
  case (reach_adc ob T R p v)
  have "pinLevels (snd (exec_call cfg (AdcSample p v) (dev ob))) = pinLevels (snd (dev ob))"
    by (cases "dev ob") simp
  then show ?case using reach_adc.IH obd_inv_dev by blast
qed

text \<open>
  C34. When loop iterations are at most 150 ms apart, the LED is off whenever the
  next request is due: the delay state always sees an iteration between 250 and
  400 ms, which switches the LED off (for a configuration whose power pins are not
  the LED pin).
\<close>

theorem obd_led_off_before_request:
  assumes "obd_reach cfg g ob T R" "g \<le> 150" "ledPin \<noteq> CAN_ENABLE_PIN cfg" "ledPin \<noteq> GPS_ENABLE_PIN cfg"
    and "obdLoopFunction ob = SendObdRequest"
  shows "pinLevels (snd (dev ob)) ledPin = LOW"
  using obd_reach_led [OF assms(1-4)] assms(5) by (auto simp: obd_led_inv_def)

lemmas obd_eval = obd_setup_def obd_init_def initial_def Carloop_def CANChannel_new_def hw_init_def obd_loop_def
  sendObdRequest_def waitForObdResponse_def delayUntilNextRequest_def millis_def Let_def hw_ops carloop_ops
  obd_drain.simps CANChannel_receive.simps is_obd_reply_def obd_consts feature_flags CarloopRevision2_def
  readBattery_def analogRead_def adc_wf_def word_le_nat_alt

theorem obd_led_off_before_request_witness:
  "obd_reach CarloopRevision2 150
     (obd_run CarloopRevision2 [Loop 1, Frame \<lparr>msg_id = 0x7E8, msg_len = 8, msg_data = [4, 0x41, 0x0C, 0x1A, 0xF8, 0, 0, 0]\<rparr>,
        Loop 2, Loop 101, Loop 251, Loop 401, Loop 501]
       (obd_setup CarloopRevision2 (millis 0) (obd_init (initial CarloopRevision2 (0::nat) 0 0 (\<lambda>_. 0)))))
     501 (Some 1)
   \<and> obdLoopFunction (obd_run CarloopRevision2 [Loop 1, Frame \<lparr>msg_id = 0x7E8, msg_len = 8, msg_data = [4, 0x41, 0x0C, 0x1A, 0xF8, 0, 0, 0]\<rparr>,
        Loop 2, Loop 101, Loop 251, Loop 401, Loop 501]
       (obd_setup CarloopRevision2 (millis 0) (obd_init (initial CarloopRevision2 (0::nat) 0 0 (\<lambda>_. 0))))) = SendObdRequest
   \<and> pinLevels (snd (dev (obd_run CarloopRevision2 [Loop 1, Frame \<lparr>msg_id = 0x7E8, msg_len = 8, msg_data = [4, 0x41, 0x0C, 0x1A, 0xF8, 0, 0, 0]\<rparr>,
        Loop 2] (obd_setup CarloopRevision2 (millis 0) (obd_init (initial CarloopRevision2 (0::nat) 0 0 (\<lambda>_. 0))))))) ledPin = HIGH
   \<and> pinLevels (snd (dev (obd_run CarloopRevision2 [Loop 1, Frame \<lparr>msg_id = 0x7E8, msg_len = 8, msg_data = [4, 0x41, 0x0C, 0x1A, 0xF8, 0, 0, 0]\<rparr>,
        Loop 2, Loop 101, Loop 251, Loop 401, Loop 501]
       (obd_setup CarloopRevision2 (millis 0) (obd_init (initial CarloopRevision2 (0::nat) 0 0 (\<lambda>_. 0))))))) ledPin = LOW"
proof -
  define m where "m = \<lparr>msg_id = 0x7E8, msg_len = 8, msg_data = [4, 0x41, 0x0C, 0x1A, 0xF8, 0, 0, (0::u8)]\<rparr>"
  define o0 where "o0 = obd_setup CarloopRevision2 (millis 0) (obd_init (initial CarloopRevision2 (0::nat) 0 0 (\<lambda>_. 0)))"
  define o1 where "o1 = obd_loop CarloopRevision2 (millis 1) o0"
  define o2 where "o2 = o1\<lparr>dev := exec_call CarloopRevision2 (CanFrame m) (dev o1)\<rparr>"
  define o3 where "o3 = obd_loop CarloopRevision2 (millis 2) o2"
  define o4 where "o4 = obd_loop CarloopRevision2 (millis 101) o3"
  define o5 where "o5 = obd_loop CarloopRevision2 (millis 251) o4"
  define o6 where "o6 = obd_loop CarloopRevision2 (millis 401) o5"
  define o7 where "o7 = obd_loop CarloopRevision2 (millis 501) o6"
  have run: "obd_run CarloopRevision2 [Loop 1, Frame m, Loop 2] o0 = o3"
    "obd_run CarloopRevision2 [Loop 1, Frame m, Loop 2, Loop 101, Loop 251, Loop 401, Loop 501] o0 = o7"
    by (simp_all add: o1_def o2_def o3_def o4_def o5_def o6_def o7_def)
  have f: "obdLoopFunction o0 = SendObdRequest" "obdLoopFunction o1 = WaitForObdResponse"
    "obdLoopFunction o2 = WaitForObdResponse" "obdLoopFunction o3 = WaitForObdResponse"
    "obdLoopFunction o4 = DelayUntilNextRequest" "obdLoopFunction o5 = DelayUntilNextRequest"
    "obdLoopFunction o6 = DelayUntilNextRequest" "obdLoopFunction o7 = SendObdRequest"
    by (simp_all add: o0_def o1_def o2_def o3_def o4_def o5_def o6_def o7_def m_def obd_eval split: prod.split)
  have led3: "pinLevels (snd (dev o3)) ledPin = HIGH"
    by (simp add: o0_def o1_def o2_def o3_def m_def obd_eval split: prod.split)
  have r0: "obd_reach CarloopRevision2 150 o0 0 None" unfolding o0_def by (rule reach_setup)
  have r1: "obd_reach CarloopRevision2 150 o1 1 (Some 1)"
    using reach_loop [OF r0, of 1] f(1) by (simp add: o1_def)
  have r2: "obd_reach CarloopRevision2 150 o2 1 (Some 1)"
    unfolding o2_def by (rule reach_frame [OF r1])
  have r3: "obd_reach CarloopRevision2 150 o3 2 (Some 1)"
    using reach_loop [OF r2, of 2] f(3) by (simp add: o3_def)
  have r4: "obd_reach CarloopRevision2 150 o4 101 (Some 1)"
    using reach_loop [OF r3, of 101] f(4) by (simp add: o4_def)
  have r5: "obd_reach CarloopRevision2 150 o5 251 (Some 1)"
    using reach_loop [OF r4, of 251] f(5) by (simp add: o5_def)
  have r6: "obd_reach CarloopRevision2 150 o6 401 (Some 1)"
    using reach_loop [OF r5, of 401] f(6) by (simp add: o6_def)
  have r7: "obd_reach CarloopRevision2 150 o7 501 (Some 1)"
    using reach_loop [OF r6, of 501] f(7) by (simp add: o7_def)
  have pins: "ledPin \<noteq> CAN_ENABLE_PIN CarloopRevision2" "ledPin \<noteq> GPS_ENABLE_PIN CarloopRevision2"
    by (simp_all add: ledPin_def CarloopRevision2_def)
  have "pinLevels (snd (dev o7)) ledPin = LOW"
    using obd_led_off_before_request [OF r7 _ pins f(8)] by simp
  then show ?thesis using r7 f(8) led3 run unfolding m_def o0_def by simp
qed

text \<open>
  An example for the LED finding: without that bound the LED can stay on into the
  next cycle: with iterations
  240 and 170 ms apart in the delay state, none falls between 250 and 400 ms, and
  the second request goes out with the LED still lit from the first reply.
\<close>

theorem obd_led_can_stay_on:
  "let ob = obd_run CarloopRevision2
              [Loop 1, Frame \<lparr>msg_id = 0x7E8, msg_len = 8, msg_data = [4, 0x41, 0x0C, 0x1A, 0xF8, 0, 0, 0]\<rparr>,
               Loop 2, Loop 110, Loop 350, Loop 520, Loop 521]
              (obd_setup CarloopRevision2 (millis 0) (obd_init (initial CarloopRevision2 (0::nat) 0 0 (\<lambda>_. 0))))
   in obdLoopFunction ob = WaitForObdResponse \<and> pinLevels (snd (dev ob)) ledPin = HIGH
      \<and> length (ch_tx (canDriver (fst (dev ob)))) = 2"
  by (simp add: obd_eval split: prod.split)

end
