(* ===== verification/Minimal_App.thy ===== *)
theory Minimal_App
  imports Facade Printf
begin

text \<open>
  The two minimal applications, \<open>src/examples/carloop_minimal/carloop_minimal.cpp\<close>
  and its older copy \<open>src/firmware/examples/minimal_example.cpp\<close>: each loop
  iteration refreshes the facade, counts the CAN frames received, and once per
  second prints a line with the battery voltage, the frame count and the GPS
  fields. The lines are modelled character by character with the conversions of
  \<open>Printf\<close>; the \<open>%f\<close> conversion of a floating-point value is the C library's
  and is the parameter \<open>fmt\<close>, and the accessors of the \<open>TinyGPSPlus\<close> parser
  are the parameter \<open>view\<close>. The GPS reads, with and without the lock, are the
  foreground readers of \<open>Gps_Ingest\<close>.
\<close>

subsection \<open>State\<close>

text \<open>
  The globals: \<open>canMessageCount\<close> (an \<open>int\<close>; the ARM compiler wraps it, so a 32-bit
  word), \<open>lastDisplay\<close> (a function-local \<open>static unsigned long\<close>), the facade and
  its board, and the lines written to the USB serial port so far.
\<close>

record 'p app =
  canMessageCount :: "32 word"
  lastDisplay :: ulong
  adev :: "'p st"
  shown :: "string list"

text \<open>
  What the examples read of the \<open>TinyGPSPlus\<close> parser (\<open>location\<close>, \<open>date\<close>,
  \<open>time\<close>, \<open>charsProcessed()\<close>, \<open>failedChecksum()\<close>; spec section 6), and its
  values in a default-constructed parser.
\<close>

record gps_fix =
  location_isValid :: bool
  location_lat :: real
  location_lng :: real
  date_isValid :: bool
  date_month :: u8
  date_day :: u8
  date_year :: "16 word"
  time_isValid :: bool
  time_hour :: u8
  time_minute :: u8
  time_second :: u8
  charsProcessed :: u32
  failedChecksum :: u32

definition gps_fix_init :: gps_fix where
  "gps_fix_init = \<lparr>location_isValid = False, location_lat = 0, location_lng = 0,
     date_isValid = False, date_month = 0, date_day = 0, date_year = 0, time_isValid = False,
     time_hour = 0, time_minute = 0, time_second = 0, charsProcessed = 0, failedChecksum = 0\<rparr>"

text \<open>The \<open>%len.precf\<close> conversion: width, precision, value.\<close>

type_synonym float_fmt = "int \<Rightarrow> int \<Rightarrow> real \<Rightarrow> string"

definition app_init :: "'p st \<Rightarrow> 'p app" where
  "app_init s = \<lparr>canMessageCount = 0, lastDisplay = 0, adev = s, shown = []\<rparr>"

definition app_setup :: "config \<Rightarrow> 'p app \<Rightarrow> 'p app" where
  "app_setup cfg ap =
     (let (c, h) = adev ap
      in ap\<lparr>adev := carloop_begin cfg CARLOOP_ALL_FEATURES (c, Serial_begin 115200 h)\<rparr>)"

subsection \<open>Counting frames\<close>

text \<open>\<open>while (carloop.can().receive(message)) canMessageCount++;\<close>\<close>

function count_drain :: "32 word \<Rightarrow> CANChannel \<Rightarrow> 32 word \<times> CANChannel" where
  "count_drain n ch =
     (case CANChannel_receive ch of
        (None, ch') \<Rightarrow> (n, ch')
      | (Some m, ch') \<Rightarrow> count_drain (n + 1) ch')"
  by pat_completeness auto
termination
  by (relation "measure (\<lambda>(n, ch). length (ch_rx ch))")
     (auto dest!: CANChannel_receive_Some [OF sym])

definition updateCanMessageCount :: "'p app \<Rightarrow> 'p app" where
  "updateCanMessageCount ap =
     (let (c, h) = adev ap;
          (n, ch) = count_drain (canMessageCount ap) (canDriver c)
      in ap\<lparr>canMessageCount := n, adev := (c\<lparr>canDriver := ch\<rparr>, h)\<rparr>)"

subsection \<open>Printing the fields\<close>

text \<open>
  \<open>printFloat\<close>: an invalid value prints \<open>len - 1\<close> stars and a blank
  (\<open>while (len-- > 1)\<close>); a valid one is formatted by \<open>snprintf\<close>/\<open>printf\<close> with
  \<open>%len.precf\<close>, the formatter \<open>fmt\<close> here.
\<close>

function stars :: "int \<Rightarrow> string" where
  "stars len = (if len > 1 then CHR ''*'' # stars (len - 1) else [])"
  by pat_completeness auto
termination
  by (relation "measure (\<lambda>len. nat len)") auto

definition printFloat :: "(int \<Rightarrow> int \<Rightarrow> 'f \<Rightarrow> string) \<Rightarrow> 'f \<Rightarrow> bool \<Rightarrow> int \<Rightarrow> int \<Rightarrow> string" where
  "printFloat fmt val valid len prec = (if \<not> valid then stars len @ '' '' else fmt len prec val)"

text \<open>
  \<open>printDateTime\<close>: the date as \<open>%02d/%02d/%02d \<close> of month, day and year (each
  promoted to \<open>int\<close>), the time as \<open>%02d:%02d:%02d \<close>, or stars when invalid.
\<close>

definition printDateTime :: "gps_fix \<Rightarrow> string" where
  "printDateTime g =
     (if \<not> date_isValid g then ''********** ''
      else printf_0d 2 (uint (date_month g)) @ ''/'' @ printf_0d 2 (uint (date_day g)) @ ''/''
           @ printf_0d 2 (uint (date_year g)) @ '' '')
     @ (if \<not> time_isValid g then ''******** ''
        else printf_0d 2 (uint (time_hour g)) @ '':'' @ printf_0d 2 (uint (time_minute g)) @ '':''
             @ printf_0d 2 (uint (time_second g)) @ '' '')"

text \<open>\<open>Serial.println("")\<close> ends the line with carriage return and line feed.\<close>

definition CRLF :: string where
  "CRLF = [CHR 0x0D, CHR 0x0A]"

subsection \<open>Printing once per second\<close>

text \<open>
  \<open>printValues\<close> of \<open>carloop_minimal\<close>, inside \<open>WITH_LOCK(gps)\<close> (the lock is
  modelled in \<open>Gps_Ingest\<close>): the 32-bit \<open>charsProcessed()\<close> and
  \<open>failedChecksum()\<close> go to \<open>%d\<close> as \<open>int\<close>.
\<close>

definition printValues :: "float_fmt \<Rightarrow> ('p \<Rightarrow> gps_fix) \<Rightarrow> 'p app \<Rightarrow> 'p app" where
  "printValues fmt view ap =
     (let c = fst (adev ap); g = view (gps c)
      in ap\<lparr>shown := shown ap @
           [''Battery voltage: '' @ fmt 12 6 (battery c) @ '' ''
            @ ''CAN messages: '' @ printf_d 12 (sint (canMessageCount ap)) @ '' ''
            @ ''GPS ''
            @ printFloat fmt (location_lat g) (location_isValid g) 11 6
            @ printFloat fmt (location_lng g) (location_isValid g) 12 6
            @ printDateTime g
            @ printf_d 6 (sint (charsProcessed g)) @ '' chars, ''
            @ printf_d 0 (sint (failedChecksum g)) @ '' checksum error''
            @ CRLF]\<rparr>)"

definition printValuesAtInterval :: "float_fmt \<Rightarrow> ('p \<Rightarrow> gps_fix) \<Rightarrow> ulong \<Rightarrow> 'p app \<Rightarrow> 'p app" where
  "printValuesAtInterval fmt view now ap =
     (if now - lastDisplay ap < 1000 then ap else printValues fmt view (ap\<lparr>lastDisplay := now\<rparr>))"

definition app_loop :: "config \<Rightarrow> float_fmt \<Rightarrow> ('p \<Rightarrow> gps_fix) \<Rightarrow> ulong \<Rightarrow> 'p app \<Rightarrow> 'p app" where
  "app_loop cfg fmt view now ap =
     printValuesAtInterval fmt view now (updateCanMessageCount (ap\<lparr>adev := update cfg (adev ap)\<rparr>))"

subsection \<open>The firmware copy\<close>

text \<open>
  \<open>minimal_example.cpp\<close> is a separate program with its own copies of
  \<open>setup\<close>, \<open>updateCanMessageCount\<close>, \<open>printFloat\<close> and \<open>printDateTime\<close>,
  translated here line by line as those of \<open>carloop_minimal\<close>.
\<close>

definition fw_setup :: "config \<Rightarrow> 'p app \<Rightarrow> 'p app" where
  "fw_setup cfg ap =
     (let (c, h) = adev ap
      in ap\<lparr>adev := carloop_begin cfg CARLOOP_ALL_FEATURES (c, Serial_begin 115200 h)\<rparr>)"

definition fw_updateCanMessageCount :: "'p app \<Rightarrow> 'p app" where
  "fw_updateCanMessageCount ap =
     (let (c, h) = adev ap;
          (n, ch) = count_drain (canMessageCount ap) (canDriver c)
      in ap\<lparr>canMessageCount := n, adev := (c\<lparr>canDriver := ch\<rparr>, h)\<rparr>)"

definition fw_printFloat :: "(int \<Rightarrow> int \<Rightarrow> 'f \<Rightarrow> string) \<Rightarrow> 'f \<Rightarrow> bool \<Rightarrow> int \<Rightarrow> int \<Rightarrow> string" where
  "fw_printFloat fmt val valid len prec = (if \<not> valid then stars len @ '' '' else fmt len prec val)"

definition fw_printDateTime :: "gps_fix \<Rightarrow> string" where
  "fw_printDateTime g =
     (if \<not> date_isValid g then ''********** ''
      else printf_0d 2 (uint (date_month g)) @ ''/'' @ printf_0d 2 (uint (date_day g)) @ ''/''
           @ printf_0d 2 (uint (date_year g)) @ '' '')
     @ (if \<not> time_isValid g then ''******** ''
        else printf_0d 2 (uint (time_hour g)) @ '':'' @ printf_0d 2 (uint (time_minute g)) @ '':''
             @ printf_0d 2 (uint (time_second g)) @ '' '')"

text \<open>
  Its \<open>printValues\<close>: no lock, the character count right after \<open>GPS\<close>, no
  checksum count. Its template \<open>setInterval\<close> takes the interval as a parameter
  and compares with the literal \<open>1000\<close>.
\<close>

definition fw_printValues :: "float_fmt \<Rightarrow> ('p \<Rightarrow> gps_fix) \<Rightarrow> 'p app \<Rightarrow> 'p app" where
  "fw_printValues fmt view ap =
     (let c = fst (adev ap); g = view (gps c)
      in ap\<lparr>shown := shown ap @
           [''Battery voltage: '' @ fmt 12 6 (battery c) @ '' ''
            @ ''CAN messages: '' @ printf_d 12 (sint (canMessageCount ap)) @ '' ''
            @ ''GPS '' @ printf_d 6 (sint (charsProcessed g)) @ '' chars: ''
            @ fw_printFloat fmt (location_lat g) (location_isValid g) 11 6
            @ fw_printFloat fmt (location_lng g) (location_isValid g) 12 6
            @ fw_printDateTime g
            @ CRLF]\<rparr>)"

definition setInterval :: "('p app \<Rightarrow> 'p app) \<Rightarrow> ulong \<Rightarrow> ulong \<Rightarrow> 'p app \<Rightarrow> 'p app" where
  "setInterval function interval now ap =
     (if now - lastDisplay ap < 1000 then ap else function (ap\<lparr>lastDisplay := now\<rparr>))"

definition fw_loop :: "config \<Rightarrow> float_fmt \<Rightarrow> ('p \<Rightarrow> gps_fix) \<Rightarrow> ulong \<Rightarrow> 'p app \<Rightarrow> 'p app" where
  "fw_loop cfg fmt view now ap =
     setInterval (fw_printValues fmt view) 1000 now
       (fw_updateCanMessageCount (ap\<lparr>adev := update cfg (adev ap)\<rparr>))"

subsection \<open>Runs\<close>

text \<open>
  A run of \<open>carloop_minimal\<close>: \<open>setup()\<close>, then loop iterations at non-decreasing
  true times less than \<open>2^32 - 1000\<close> ms apart, frames and ADC samples in between.
  The last indices record the time of the last iteration and of the last printed
  line; they observe the run.
\<close>

inductive app_reach :: "config \<Rightarrow> float_fmt \<Rightarrow> ('p \<Rightarrow> gps_fix) \<Rightarrow> 'p app \<Rightarrow> nat \<Rightarrow> nat option \<Rightarrow> bool"
  for cfg fmt view where
  app_start: "app_reach cfg fmt view (app_setup cfg (app_init s)) 0 None"
| app_iter: "app_reach cfg fmt view ap T Last \<Longrightarrow> T \<le> t \<Longrightarrow> t - T < 2 ^ 32 - 1000 \<Longrightarrow>
     app_reach cfg fmt view (app_loop cfg fmt view (millis t) ap) t
       (if length (shown (app_loop cfg fmt view (millis t) ap)) = length (shown ap) then Last else Some t)"
| app_frame: "app_reach cfg fmt view ap T Last \<Longrightarrow>
     app_reach cfg fmt view (ap\<lparr>adev := exec_call cfg (CanFrame m) (adev ap)\<rparr>) T Last"
| app_adc: "app_reach cfg fmt view ap T Last \<Longrightarrow>
     app_reach cfg fmt view (ap\<lparr>adev := exec_call cfg (AdcSample p v) (adev ap)\<rparr>) T Last"

text \<open>The ranges \<open>TinyGPSPlus\<close> gives the calendar fields of a valid fix.\<close>

definition fix_fields_in_range :: "gps_fix \<Rightarrow> bool" where
  "fix_fields_in_range g \<longleftrightarrow>
     unat (date_month g) < 100 \<and> unat (date_day g) < 100 \<and> 1000 \<le> unat (date_year g)
     \<and> unat (date_year g) < 10000 \<and> unat (time_hour g) < 100 \<and> unat (time_minute g) < 100
     \<and> unat (time_second g) < 100"

subsection \<open>Properties of the frame counter\<close>

declare count_drain.simps [simp del] stars.simps [simp del]

lemma count_drain_eq:
  assumes "ch_enabled ch" "ch_rx ch = rx"
  shows "count_drain n ch = (n + word_of_nat (length rx), ch\<lparr>ch_rx := []\<rparr>)"
  using assms
proof (induction rx arbitrary: n ch)
  case Nil
  have "ch\<lparr>ch_rx := []\<rparr> = ch" using Nil.prems(2) by (cases ch) simp
  then show ?case
    using Nil.prems by (subst count_drain.simps) (simp add: CANChannel_receive.simps)
next
  case (Cons m ms)
  have "count_drain n ch = count_drain (n + 1) (ch\<lparr>ch_rx := ms\<rparr>)"
    using Cons.prems by (subst count_drain.simps) (simp add: CANChannel_receive.simps)
  also have "\<dots> = (n + 1 + word_of_nat (length ms), ch\<lparr>ch_rx := []\<rparr>)"
    using Cons.prems by (subst Cons.IH) simp_all
  finally show ?case by simp
qed

text \<open>
  C28. \<open>updateCanMessageCount\<close> on an enabled channel dequeues every waiting frame and
  adds their number to \<open>canMessageCount\<close> (modulo \<open>2^32\<close>), touching nothing else.
\<close>

theorem updateCanMessageCount_counts:
  assumes "ch_enabled (canDriver (fst (adev ap)))"
  shows "canMessageCount (updateCanMessageCount ap)
           = canMessageCount ap + word_of_nat (length (ch_rx (canDriver (fst (adev ap)))))
         \<and> adev (updateCanMessageCount ap)
           = (fst (adev ap)\<lparr>canDriver := (canDriver (fst (adev ap)))\<lparr>ch_rx := []\<rparr>\<rparr>, snd (adev ap))
         \<and> shown (updateCanMessageCount ap) = shown ap"
proof -
  obtain c h where d: "adev ap = (c, h)" by fastforce
  show ?thesis
    using assms count_drain_eq [of "canDriver c" _ "canMessageCount ap"] d
    by (simp add: updateCanMessageCount_def)
qed

theorem updateCanMessageCount_counts_witness:
  "ch_enabled (canDriver (fst (adev (app_init (exec_call CarloopRevision2 (CanFrame CANMessage_default)
      (exec_call CarloopRevision2 (CanFrame CANMessage_default) (enableCAN CarloopRevision2 (initial CarloopRevision2 (0::nat) 0 0 (\<lambda>_. 0)))))))))
   \<and> canMessageCount (updateCanMessageCount (app_init (exec_call CarloopRevision2 (CanFrame CANMessage_default)
      (exec_call CarloopRevision2 (CanFrame CANMessage_default) (enableCAN CarloopRevision2 (initial CarloopRevision2 (0::nat) 0 0 (\<lambda>_. 0))))))) = 2"
proof -
  define A where "A = app_init (exec_call CarloopRevision2 (CanFrame CANMessage_default)
      (exec_call CarloopRevision2 (CanFrame CANMessage_default) (enableCAN CarloopRevision2 (initial CarloopRevision2 (0::nat) 0 0 (\<lambda>_. 0)))))"
  have h: "ch_enabled (canDriver (fst (adev A)))"
    by (simp add: A_def app_init_def initial_def Carloop_def CANChannel_new_def hw_ops)
  have q: "length (ch_rx (canDriver (fst (adev A)))) = 2" "canMessageCount A = 0"
    by (simp_all add: A_def app_init_def initial_def Carloop_def CANChannel_new_def hw_ops)
  show ?thesis using updateCanMessageCount_counts [OF h] h q unfolding A_def by simp
qed

subsection \<open>Properties of the display pacing\<close>

lemma app_loop_display:
  "lastDisplay (app_loop cfg fmt view now ap) = (if now - lastDisplay ap < 1000 then lastDisplay ap else now)"
  "length (shown (app_loop cfg fmt view now ap)) = length (shown ap) + (if now - lastDisplay ap < 1000 then 0 else 1)"
  by (simp_all add: app_loop_def printValuesAtInterval_def printValues_def updateCanMessageCount_def Let_def
      split: prod.split)

lemma app_reach_display:
  assumes "app_reach cfg fmt view ap T Last"
  shows "lastDisplay ap = millis (case Last of None \<Rightarrow> 0 | Some d \<Rightarrow> d)
         \<and> (case Last of None \<Rightarrow> 0 | Some d \<Rightarrow> d) \<le> T \<and> T - (case Last of None \<Rightarrow> 0 | Some d \<Rightarrow> d) < 1000"
  using assms
proof (induction rule: app_reach.induct)
  case (app_start s)
  then show ?case by (simp add: app_setup_def app_init_def millis_def split: prod.split)
next
  case (app_iter ap T Last t)
  define d where "d = (case Last of None \<Rightarrow> 0 | Some d \<Rightarrow> d)"
  have ld: "lastDisplay ap = millis d" "d \<le> t" "t - d < 2 ^ 32"
    using app_iter unfolding d_def by auto
  have e: "(millis t - lastDisplay ap < 1000) \<longleftrightarrow> t - d < 1000"
    using millis_elapsed_le [OF ld(2,3), of 1000] ld(1) by (simp add: not_le [symmetric])
  show ?case
    using e ld by (cases "t - d < 1000") (simp_all add: app_loop_display d_def [symmetric])
qed simp_all

text \<open>
  C29. Once per second, across the wrap-around of \<open>millis()\<close>: in every run of
  \<open>carloop_minimal\<close> whose iterations are less than \<open>2^32 - 1000\<close> ms apart, a loop
  iteration prints a line exactly when at least 1000 ms have passed since the last
  printed line (or since boot).
\<close>

theorem app_display_once_per_second:
  assumes "app_reach cfg fmt view ap T Last" "T \<le> t" "t - T < 2 ^ 32 - 1000"
  shows "length (shown (app_loop cfg fmt view (millis t) ap)) \<noteq> length (shown ap)
         \<longleftrightarrow> (case Last of None \<Rightarrow> 0 | Some d \<Rightarrow> d) + 1000 \<le> t"
proof -
  define d where "d = (case Last of None \<Rightarrow> 0 | Some d \<Rightarrow> d)"
  have ld: "lastDisplay ap = millis d" "d \<le> t" "t - d < 2 ^ 32"
    using app_reach_display [OF assms(1)] assms(2,3) unfolding d_def by auto
  have e: "(millis t - lastDisplay ap < 1000) \<longleftrightarrow> t - d < 1000"
    using millis_elapsed_le [OF ld(2,3), of 1000] ld(1) by (simp add: not_le [symmetric])
  show ?thesis
    using e ld(2) by (auto simp: app_loop_display d_def [symmetric])
qed

theorem app_display_once_per_second_witness:
  "app_reach CarloopRevision2 (\<lambda>_ _ _. []) (\<lambda>_. gps_fix_init)
     (app_setup CarloopRevision2 (app_init (initial CarloopRevision2 (0::nat) 0 0 (\<lambda>_. 0)))) 0 None
   \<and> length (shown (app_loop CarloopRevision2 (\<lambda>_ _ _. []) (\<lambda>_. gps_fix_init) (millis 999)
        (app_setup CarloopRevision2 (app_init (initial CarloopRevision2 (0::nat) 0 0 (\<lambda>_. 0))))))
      = length (shown (app_setup CarloopRevision2 (app_init (initial CarloopRevision2 (0::nat) 0 0 (\<lambda>_. 0)))))
   \<and> length (shown (app_loop CarloopRevision2 (\<lambda>_ _ _. []) (\<lambda>_. gps_fix_init) (millis 1000)
        (app_setup CarloopRevision2 (app_init (initial CarloopRevision2 (0::nat) 0 0 (\<lambda>_. 0))))))
      \<noteq> length (shown (app_setup CarloopRevision2 (app_init (initial CarloopRevision2 (0::nat) 0 0 (\<lambda>_. 0)))))"
proof -
  have r: "app_reach CarloopRevision2 (\<lambda>_ _ _. []) (\<lambda>_. gps_fix_init)
     (app_setup CarloopRevision2 (app_init (initial CarloopRevision2 (0::nat) 0 0 (\<lambda>_. 0)))) 0 None"
    by (rule app_start)
  show ?thesis
    using r app_display_once_per_second [OF r, of 999] app_display_once_per_second [OF r, of 1000] by simp
qed

subsection \<open>Properties of the firmware copy and of printFloat\<close>

text \<open>
  C30. \<open>setInterval\<close> of the firmware example ignores its \<open>interval\<close> argument: it
  behaves as with 1000 whatever is passed; and, its copies of the helpers being
  the same functions, the firmware example's loop does
  what the loop of \<open>carloop_minimal\<close> does (counter, pacing, facade, number of
  lines), only the text of its line differs.
\<close>

lemma fw_copies_same:
  "fw_setup = app_setup" "fw_updateCanMessageCount = updateCanMessageCount"
  "fw_printFloat = printFloat" "fw_printDateTime = printDateTime"
  by (intro ext; simp add: fw_setup_def app_setup_def fw_updateCanMessageCount_def updateCanMessageCount_def
      fw_printFloat_def printFloat_def fw_printDateTime_def printDateTime_def)+

theorem setInterval_ignores_interval:
  "setInterval f interval now ap = setInterval f 1000 now ap
   \<and> (fw_loop cfg fmt view now ap)\<lparr>shown := []\<rparr> = (app_loop cfg fmt view now ap)\<lparr>shown := []\<rparr>
   \<and> length (shown (fw_loop cfg fmt view now ap)) = length (shown (app_loop cfg fmt view now ap))"
  by (simp add: setInterval_def fw_loop_def app_loop_def printValuesAtInterval_def printValues_def
      fw_printValues_def Let_def fw_copies_same)

lemma length_stars: "length (stars len) = nat (len - 1)"
  by (induction len rule: stars.induct) (subst stars.simps, simp add: Suc_nat_eq_nat_zadd1)

text \<open>
  C31. An invalid GPS value is printed as \<open>len - 1\<close> stars and a blank: the field
  is \<open>len\<close> characters wide (one for \<open>len \<le> 1\<close>), as wide as the \<open>%len.precf\<close>
  conversion of a valid one.
\<close>

theorem printFloat_invalid_width: "length (printFloat fmt val False len prec) = nat (max 1 len)"
  by (simp add: printFloat_def length_stars)

subsection \<open>Properties of the printed line\<close>

text \<open>
  C35. The date and time columns keep their width: for calendar fields in the
  ranges \<open>TinyGPSPlus\<close> gives (a four-digit year), \<open>printDateTime\<close> prints 20
  characters, whether the date and the time are valid or not, as wide as the
  stars of the invalid case.
\<close>

theorem printDateTime_width: "fix_fields_in_range g \<Longrightarrow> length (printDateTime g) = 20"
  by (simp add: printDateTime_def fix_fields_in_range_def length_printf_0d_uint dec_width_2 dec_width_4)

theorem printDateTime_width_witness:
  "fix_fields_in_range (gps_fix_init\<lparr>date_isValid := True, date_month := 11, date_day := 9, date_year := 2026,
      time_isValid := True, time_hour := 14, time_minute := 5, time_second := 0\<rparr>)
   \<and> printDateTime (gps_fix_init\<lparr>date_isValid := True, date_month := 11, date_day := 9, date_year := 2026,
      time_isValid := True, time_hour := 14, time_minute := 5, time_second := 0\<rparr>) = ''11/09/2026 14:05:00 ''
   \<and> length (printDateTime (gps_fix_init\<lparr>date_isValid := True, date_month := 11, date_day := 9, date_year := 2026,
      time_isValid := True, time_hour := 14, time_minute := 5, time_second := 0\<rparr>)) = 20"
proof -
  have r: "fix_fields_in_range (gps_fix_init\<lparr>date_isValid := True, date_month := 11, date_day := 9, date_year := 2026,
      time_isValid := True, time_hour := 14, time_minute := 5, time_second := 0\<rparr>)"
    by (simp add: fix_fields_in_range_def gps_fix_init_def)
  have p: "printDateTime (gps_fix_init\<lparr>date_isValid := True, date_month := 11, date_day := 9, date_year := 2026,
      time_isValid := True, time_hour := 14, time_minute := 5, time_second := 0\<rparr>) = ''11/09/2026 14:05:00 ''"
    by (simp add: gps_fix_init_def printDateTime_def printf_0d_def) code_simp
  show ?thesis using r p printDateTime_width [OF r] by simp
qed


text \<open>
  C36. The frame count prints negative: counting from 0, once \<open>canMessageCount\<close>
  has received \<open>2^31\<close> frames (modulo \<open>2^32\<close>) the \<open>%12d\<close> field of the
  \<open>int\<close> counter shows a minus sign, and before that it does not.
\<close>

theorem count_prints_negative:
  assumes "ch_enabled (canDriver (fst (adev ap)))" "canMessageCount ap = 0"
  shows "(CHR ''-'' \<in> set (printf_d 12 (sint (canMessageCount (updateCanMessageCount ap)))))
         = (2 ^ 31 \<le> length (ch_rx (canDriver (fst (adev ap)))) mod 2 ^ 32)"
proof -
  obtain c h where d: "adev ap = (c, h)" by fastforce
  have "canMessageCount (updateCanMessageCount ap) = word_of_nat (length (ch_rx (canDriver c)))"
    using assms count_drain_eq [of "canDriver c" _ 0] d by (simp add: updateCanMessageCount_def)
  then show ?thesis using d by (simp add: minus_in_printf_d sint_u32 unat_of_nat not_less)
qed

theorem count_prints_negative_witness:
  "ch_enabled (canDriver (fst (adev (app_init ((Carloop CarloopRevision2 (0::nat) 0 0)\<lparr>canDriver :=
      \<lparr>ch_pins = CAN_D1_D2, ch_enabled = True, ch_speed = 500000, ch_rx = replicate (2 ^ 31) CANMessage_default, ch_tx = []\<rparr>\<rparr>,
      hw_init (\<lambda>_. 0))))))
   \<and> canMessageCount (app_init ((Carloop CarloopRevision2 (0::nat) 0 0)\<lparr>canDriver :=
      \<lparr>ch_pins = CAN_D1_D2, ch_enabled = True, ch_speed = 500000, ch_rx = replicate (2 ^ 31) CANMessage_default, ch_tx = []\<rparr>\<rparr>,
      hw_init (\<lambda>_. 0))) = 0
   \<and> CHR ''-'' \<in> set (printf_d 12 (sint (canMessageCount (updateCanMessageCount (app_init ((Carloop CarloopRevision2 (0::nat) 0 0)\<lparr>canDriver :=
      \<lparr>ch_pins = CAN_D1_D2, ch_enabled = True, ch_speed = 500000, ch_rx = replicate (2 ^ 31) CANMessage_default, ch_tx = []\<rparr>\<rparr>,
      hw_init (\<lambda>_. 0)))))))"
proof -
  define A where "A = app_init ((Carloop CarloopRevision2 (0::nat) 0 0)\<lparr>canDriver :=
      \<lparr>ch_pins = CAN_D1_D2, ch_enabled = True, ch_speed = 500000, ch_rx = replicate (2 ^ 31) CANMessage_default, ch_tx = []\<rparr>\<rparr>,
      hw_init (\<lambda>_. 0))"
  have h: "ch_enabled (canDriver (fst (adev A)))" "canMessageCount A = 0"
    by (simp_all add: A_def app_init_def)
  have l: "length (ch_rx (canDriver (fst (adev A)))) = 2 ^ 31"
    by (simp add: A_def app_init_def)
  show ?thesis using count_prints_negative [OF h] h l unfolding A_def by simp
qed

text \<open>
  C37. The line of \<open>printValues\<close> has a fixed layout: when the \<open>%f\<close> conversions
  fill exactly their widths, the calendar fields are in range and fewer than
  \<open>10^6\<close> characters have been processed, the line is 135 characters plus the
  digits of the checksum-error count; the \<open>%6d\<close> character count widens the line
  after \<open>10^6\<close> characters.
\<close>

theorem printValues_line_width:
  assumes "view (gpsDriver (fst (adev ap))) = g"
    and "length (fmt 12 6 (battery (fst (adev ap)))) = 12"
    and "location_isValid g \<Longrightarrow> length (fmt 11 6 (location_lat g)) = 11 \<and> length (fmt 12 6 (location_lng g)) = 12"
    and "fix_fields_in_range g" "unat (charsProcessed g) < 10 ^ 6"
  shows "length (last (shown (printValues fmt view ap))) = 135 + length (int_string (sint (failedChecksum g)))"
proof -
  have f: "length (printFloat fmt (location_lat g) (location_isValid g) 11 6) = 11"
          "length (printFloat fmt (location_lng g) (location_isValid g) 12 6) = 12"
    using assms(3) by (cases "location_isValid g"; simp add: printFloat_def length_stars)+
  have dt: "length (printDateTime g) = 20"
    using assms(4) by (simp add: printDateTime_def fix_fields_in_range_def length_printf_0d_uint dec_width_2 dec_width_4)
  have cs: "length (printf_d 6 (sint (charsProcessed g))) = 6"
    using assms(5) length_dec_string_le [of 6 "unat (charsProcessed g)"]
    by (simp add: length_printf_d int_string_sint_small)
  have cn: "length (printf_d 12 (sint (canMessageCount ap))) = 12"
    using length_int_string_sint [of "canMessageCount ap"] by (simp add: length_printf_d)
  show ?thesis
    using assms(1,2) f dt cs cn by (simp add: printValues_def Let_def CRLF_def printf_d_def [of 0])
qed


theorem printValues_line_width_witness:
  "length (last (shown (printValues (\<lambda>w p x. replicate (nat w) CHR ''0'')
      (\<lambda>_. gps_fix_init\<lparr>location_isValid := True, date_isValid := True, date_month := 11, date_day := 9,
         date_year := 2026, time_isValid := True, time_hour := 14, time_minute := 5, charsProcessed := 123456\<rparr>)
      (app_init (initial CarloopRevision2 (0::nat) 0 0 (\<lambda>_. 0)))))) = 136"
proof -
  define g where "g = gps_fix_init\<lparr>location_isValid := True, date_isValid := True, date_month := 11, date_day := 9,
         date_year := 2026, time_isValid := True, time_hour := 14, time_minute := 5, charsProcessed := 123456\<rparr>"
  define A where "A = app_init (initial CarloopRevision2 (0::nat) 0 0 (\<lambda>_. 0))"
  have r: "fix_fields_in_range g" "unat (charsProcessed g) < 10 ^ 6" "failedChecksum g = 0"
    by (simp_all add: g_def gps_fix_init_def fix_fields_in_range_def)
  have "length (last (shown (printValues (\<lambda>w p x. replicate (nat w) CHR ''0'') (\<lambda>_. g) A)))
        = 135 + length (int_string (sint (failedChecksum g)))"
    by (rule printValues_line_width) (use r in simp_all)
  then show ?thesis using r(3) unfolding g_def A_def by (simp add: int_string_def dec_string.simps)
qed

end
