(* ===== verification/Spec2Isabelle.thy ===== *)
theory Spec2Isabelle
  imports Gps_Ingest Slcan_Bus Obd_Blink Minimal_App
begin

text \<open>
  \<^bold>\<open>Carloop library: a verification development.\<close>

  \<^emph>\<open>The program.\<close> \<open>src/src/carloop.h\<close> and \<open>src/src/carloop.cpp\<close> define the
  template \<open>Carloop<Config>\<close>, a facade over the board of a Carloop car adapter:
  a CAN transceiver (channel \<open>canDriver\<close>, power pin \<open>CAN_ENABLE_PIN\<close>), a GPS
  receiver on \<open>Serial1\<close> (power pin \<open>GPS_ENABLE_PIN\<close>, parsed by a \<open>TinyGPSPlus\<close>
  object fed by a background thread \<open>receiveSerialChars\<close>), and a battery
  voltage divider on an ADC pin. \<open>begin(features)\<close> masks the requested features
  with the board's (\<open>hasCAN\<close>, \<open>hasGPS\<close>, \<open>hasBattery\<close>) and enables each;
  \<open>update()\<close> refreshes the cached battery voltage. Four example programs use it:
  \<open>examples/carloop_minimal\<close> and its older copy \<open>firmware/examples/minimal_example\<close>
  (count CAN frames, print values once per second, read the GPS with and without
  the lock), \<open>examples/obd_blink\<close> (an OBD-II request/response state machine that
  lights an LED), and \<open>examples/socketcan_serial\<close> (an SLCAN bridge between the
  USB serial port and the CAN bus). \<open>src/carloop.h\<close> is an older, unused header.

  \<^emph>\<open>Theories and the code they model.\<close>
  \<^item> \<open>Carloop_Prelude\<close>: machine types \<open>u8\<close>, \<open>u32\<close>, \<open>ulong\<close> (32-bit words), the
    fact collections \<open>carloop_ops\<close> and \<open>hw_ops\<close>, and shared lemmas on words
    (exact unsigned differences, packing bit fields with shift and or, a 32-bit
    word read as a C \<open>int\<close>) and lists.
  \<^item> \<open>Printf\<close>: the integer conversions of \<open>printf\<close> the examples use (\<open>%x\<close>,
    \<open>%0Nx\<close>, \<open>%d\<close>, \<open>%Nd\<close>, \<open>%0Nd\<close>) as functions to strings, with their widths.
  \<^item> \<open>Hardware\<close>: the Particle device layer, not in the repository and modelled
    from the spec's interface (section 6): pins, the 12-bit ADC, \<open>Serial1\<close>,
    threads, the USB serial port's \<open>Serial.begin\<close>, the wrapping clock
    \<open>millis\<close>, and \<open>CANChannel\<close> with \<open>CANMessage\<close> frames (a receive queue \<open>ch_rx\<close> and a transmit log \<open>ch_tx\<close>).
  \<^item> \<open>Board\<close>: \<open>CarloopFeatures_e\<close> as 32-bit masks, the \<open>Config\<close> template
    parameter as the record \<open>config\<close>, \<open>CarloopRevision2\<close>, the well-formedness
    \<open>config_wf\<close> the code relies on, and the older header's enumeration.
  \<^item> \<open>Facade\<close>: the object as the record \<open>carloop\<close> (the GPS parser is the type
    parameter \<open>'p\<close>); each method of \<open>carloop.cpp\<close> as a function of the pair of
    object and board (\<open>'p st\<close>), the accessors \<open>can()\<close> and \<open>gps()\<close> as reads
    of the members whose references they return; the public calls and environment events as the
    datatype \<open>call\<close> with \<open>exec_call\<close>; the spec's CAN gateway contract as the
    abstract machine \<open>can_gateway_step\<close> with abstraction \<open>can_abs\<close>.
  \<^item> \<open>Gps_Ingest\<close>: \<open>receiveSerialChars\<close> as the step relation \<open>bg_step\<close>, interleaved
    (\<open>gps_step\<close>) with foreground steps \<open>fg_step\<close> (facade calls, locked reads as in
    \<open>carloop_minimal.cpp\<close>, unlocked reads as in \<open>minimal_example.cpp\<close>) and UART
    arrivals \<open>env_step\<close>; \<open>reachable\<close> from \<open>sys_init\<close>. The parser's \<open>encode\<close> is a
    parameter \<open>enc\<close>; the ghost fields \<open>fed\<close> and \<open>arrived\<close> record bytes.
  \<^item> \<open>Slcan\<close>: \<open>socketcan_serial.cpp\<close> with its globals as the record \<open>bridge\<close>:
    \<open>parseInput\<close> (split into \<open>store_char\<close> and \<open>dispatch\<close>), \<open>openCAN\<close>,
    \<open>closeCAN\<close>, \<open>changeCANSpeed\<close>, \<open>hex2int\<close>, \<open>transmitMessage\<close> with its data
    loop \<open>fill_data\<close>, \<open>printReceivedMessage\<close> over the conversions of
    \<open>Printf\<close>, \<open>receiveMessages\<close>, \<open>setup\<close> (\<open>slcan_setup\<close>, which never calls
    \<open>carloop.begin()\<close>), \<open>loop\<close> (\<open>slcan_loop\<close>); \<open>serialEvents\<close> feeds bytes.
  \<^item> \<open>Slcan_Bus\<close>: two bridges on one CAN bus: \<open>bus_deliver\<close> hands the
    frames one node transmits to the other node's controller (the facade's
    \<open>CanFrame\<close> events), and \<open>relay\<close> is one round of \<open>serialEvent\<close> at one node
    and \<open>loop()\<close> at the other.
  \<^item> \<open>Obd_Blink\<close>: \<open>obd_blink.cpp\<close>, the function pointer \<open>obdLoopFunction\<close> as the
    datatype \<open>obd_fn\<close>, the three handlers, \<open>setup\<close> and \<open>loop\<close>, runs
    \<open>obd_reach\<close> (parameterised by the largest gap \<open>g\<close> between iterations),
    concrete runs \<open>obd_run\<close>, and the cycle of phases \<open>phase_step\<close>.
  \<^item> \<open>Minimal_App\<close>: \<open>carloop_minimal.cpp\<close> and \<open>minimal_example.cpp\<close>, each
    function of both files: frame counting, \<open>printValuesAtInterval\<close> /
    \<open>setInterval\<close>, \<open>printFloat\<close>, \<open>printDateTime\<close>, both \<open>printValues\<close> with
    the lines as strings (the \<open>%f\<close> conversion \<open>fmt\<close> and the parser's
    accessors \<open>view\<close>, a record \<open>gps_fix\<close>, are parameters), runs \<open>app_reach\<close>.
  \<^item> \<open>Spec2Isabelle\<close> (this theory): the SLCAN bridge as a client of the facade.

  \<^emph>\<open>What is proved.\<close> Each claim is a theorem after a text naming it C1 to C38.
  Facade (C1 to C3, C7 to C10): \<open>begin\<close> enables exactly the supported and
  requested subsystems; at most one ingest thread exists after any calls; every
  call refines one step of the CAN gateway contract (staged versus live bit rate);
  the CAN channel runs exactly when its transceiver is powered; \<open>battery()\<close> stays
  at the uninitialised member until \<open>update()\<close>; the conversion's bounds; the
  feature mask is the argument of the last \<open>begin\<close>. GPS ingest (C4 to C6, C11
  to C14): mutual exclusion of the drain loop and locked readers; a locked reader
  sees one parser state, the encoding of a prefix of the received bytes; no byte is
  lost or reordered; the task can always progress unless a locked reader holds the
  lock; the drain loop ends (\<open>drain_loop\<close> terminates by the measure of the UART
  buffer) and releases the lock; an unlocked reader can tear; the task never stops.
  SLCAN (C15 to C23): print/parse round trip of frames; every transmitted frame is
  well formed; the unsigned length \<open>inputPos - 2\<close> never wraps; the buffer bound is
  invariant; \<open>S\<close> only stages a bit rate; the receive loop prints every frame in
  order; short data is zero-filled; a malformed \<open>t\<close> line is dropped without
  effect; a line feed never ends a command. OBD (C24 to C27, C34): requests are at
  least 500 ms apart and the delay starts at least 100 ms after a request, across
  the wrap of \<open>millis()\<close>; the LED is lit exactly on a matching reply; the timeout
  is exact across the wrap; every iteration is a step of the send/wait/delay cycle;
  with iterations at most 150 ms apart the LED is off whenever a request is due.
  Minimal applications (C28 to C31, C35 to C37): frames are counted modulo
  \<open>2^32\<close>; a line is printed exactly when a second has passed since the last;
  \<open>setInterval\<close> ignores its interval and the firmware copy behaves as the
  minimal one but for its text; an invalid float field has its width; the date and
  time columns are 20 characters wide; the count prints negative after \<open>2^31\<close>
  frames; the printed line is 135 characters plus the checksum count while fewer
  than \<open>10^6\<close> GPS characters have been processed. Across components (C32, C33,
  C38): the bridge uses only public facade calls and preserves the transceiver
  invariant; a frame line typed to one bridge is printed verbatim by another bridge
  on the same bus. Examples that are not claims document three findings: the older
  header's enumerators are not bits (\<open>legacy_flags_not_bits\<close>), \<open>t8000\<close> sends
  an identifier outside 11 bits (\<open>slcan_id_outside_11_bits\<close>), and a run with
  longer gaps keeps the LED lit into the next cycle (\<open>obd_led_can_stay_on\<close>).

  \<^emph>\<open>Modelling choices and bounds.\<close> \<open>unsigned\<close>, \<open>uint32_t\<close> and \<open>unsigned long\<close>
  are 32-bit words and wrap; \<open>uint8_t\<close> is an 8-bit word; the battery arithmetic
  uses exact reals in place of \<open>float\<close> (single-precision rounding differs in
  the last digits, so no claim states an exact voltage); \<open>int canMessageCount\<close> wraps as the ARM
  compiler does, and \<open>%d\<close> reads a 32-bit value as an \<open>int\<close>. \<open>millis()\<close> at true time \<open>t\<close> is \<open>t mod 2^32\<close>, and one loop
  iteration reads one value of it. Runs of the OBD sketch assume iterations less
  than \<open>2^32 - 400\<close> ms apart and those of the minimal application less than
  \<open>2^32 - 1000\<close> ms apart: with the state's own bound (100, 400 or 1000 ms since the
  last transition) the true elapsed time stays below \<open>2^32\<close>, which is exactly
  what makes the unsigned differences exact. Loops that dequeue frames
  (\<open>receiveMessages\<close>, \<open>obd_drain\<close>, \<open>count_drain\<close>) and the data loop
  \<open>fill_data\<close> are total functions with measures (queue length, remaining length).
  The background task is the step relation of \<open>Gps_Ingest\<close>, not a function, since
  it runs forever. \<open>Serial1.begin\<close> keeps bytes already buffered. Received frames
  are \<open>CANMessage\<close> values with a list of data bytes; frames built by the code have 8.

  \<^emph>\<open>Not modelled.\<close> The device OS and \<open>CANChannel\<close> internals (only their
  contracts, so those components stay partly modelled), the NMEA grammar of
  \<open>TinyGPSPlus\<close> (an external library, a parameter), the characters of the \<open>%f\<close>
  conversion of the C library (the parameter \<open>fmt\<close>), the device-OS macros
  \<open>SYSTEM_MODE(MANUAL)\<close> and \<open>SYSTEM_THREAD(ENABLED)\<close> (cloud connection and
  system thread, which no modelled behaviour depends on), the unused OBD PID
  constants, and the older header's class \<open>CarloopClass\<close>, which declares
  \<open>Carloop()\<close> without a return type and does not compile. The rest of the
  source lines the model leaves out are includes, forward declarations, comments
  and the explicit template instantiation.\<close>

section \<open>The example applications over the library\<close>

text \<open>
  The calls of the facade an SLCAN bridge may issue, as a predicate on the
  \<open>call\<close> datatype of theory \<open>Facade\<close>, the interface both sides agree on.
\<close>

fun slcan_call :: "call \<Rightarrow> bool" where
  "slcan_call EnableCAN = True"
| "slcan_call DisableCAN = True"
| "slcan_call (SetCANSpeed v) = True"
| "slcan_call (CanTransmit m) = True"
| "slcan_call _ = False"

subsection \<open>The SLCAN bridge as a client of the facade\<close>

lemma run_calls_append: "run_calls cfg (es @ fs) s = run_calls cfg fs (run_calls cfg es s)"
  by (induction es arbitrary: s) simp_all

lemma transmitMessage_calls:
  "\<exists>es. car (transmitMessage buf n b) = run_calls cfg es (car b) \<and> list_all slcan_call es"
proof (cases "car b")
  case (Pair c h)
  then show ?thesis
    by (auto simp: transmitMessage_def Let_def slcan_call.simps
        intro: exI [of _ "[]"] exI [of _ "[CanTransmit _]"])
qed

lemma dispatch_calls:
  "\<exists>es. car (dispatch cfg b) = run_calls cfg es (car b) \<and> list_all slcan_call es"
proof -
  obtain c h where ch: "car b = (c, h)" by fastforce
  have o: "\<exists>es. car (openCAN cfg b) = run_calls cfg es (car b) \<and> list_all slcan_call es"
    using ch by (auto simp: openCAN_def slcan_call.simps intro: exI [of _ "[]"] exI [of _ "[EnableCAN]"])
  have c: "\<exists>es. car (closeCAN cfg b) = run_calls cfg es (car b) \<and> list_all slcan_call es"
    using ch by (auto simp: closeCAN_def slcan_call.simps intro: exI [of _ "[]"] exI [of _ "[DisableCAN]"])
  have s: "\<exists>es. car (changeCANSpeed buf n b) = run_calls cfg es (car b) \<and> list_all slcan_call es" for buf n
    using ch by (auto simp: changeCANSpeed_def slcan_call.simps split: option.split
        intro: exI [of _ "[]"] exI [of _ "[SetCANSpeed _]"])
  show ?thesis
    using o c s transmitMessage_calls [of _ _ b cfg]
    by (auto simp: dispatch_def Let_def intro: exI [of _ "[]"])
qed

lemma parseInput_calls:
  "\<exists>es. car (parseInput cfg c b) = run_calls cfg es (car b) \<and> list_all slcan_call es"
  using dispatch_calls [of cfg "store_char c b"]
  by (cases "c = NEW_LINE") (auto simp: parseInput_def store_char_def intro: exI [of _ "[]"])

text \<open>
  C32. The bridge drives the library only through its public interface: the
  effect of any serial input on the facade and the board is that of a sequence of
  calls \<open>enableCAN\<close>, \<open>disableCAN\<close>, \<open>setCANSpeed\<close> and \<open>can().transmit\<close>.
\<close>

theorem slcan_uses_public_calls:
  "\<exists>es. car (serialEvents cfg cs b) = run_calls cfg es (car b) \<and> list_all slcan_call es"
  unfolding serialEvents_def
proof (induction cs arbitrary: b)
  case Nil
  show ?case by (auto intro: exI [of _ "[]"])
next
  case (Cons c cs)
  obtain es where e: "car (parseInput cfg c b) = run_calls cfg es (car b)" "list_all slcan_call es"
    using parseInput_calls by blast
  obtain fs where f: "car (foldl (\<lambda>b c. parseInput cfg c b) (parseInput cfg c b) cs)
                       = run_calls cfg fs (car (parseInput cfg c b))" "list_all slcan_call fs"
    using Cons.IH by blast
  show ?case
    using e f by (intro exI [of _ "es @ fs"]) (simp add: run_calls_append)
qed

text \<open>
  C33. Whatever the host sends, the bridge keeps the transceiver invariant of the
  library: on a configuration with distinct pins and complementary levels, the CAN
  channel runs exactly when its enable pin is an output at its active level.
\<close>

theorem slcan_power_inv:
  assumes "config_wf cfg" "power_inv cfg (car b)"
  shows "power_inv cfg (car (serialEvents cfg cs b))"
  using assms(2) unfolding serialEvents_def
proof (induction cs arbitrary: b)
  case (Cons c cs)
  obtain es where "car (parseInput cfg c b) = run_calls cfg es (car b)"
    using parseInput_calls by blast
  then have "power_inv cfg (car (parseInput cfg c b))"
    using run_calls_preserves [OF exec_call_power_inv [OF assms(1)] Cons.prems] by simp
  then show ?case using Cons.IH by simp
qed simp

theorem slcan_power_inv_witness:
  "config_wf CarloopRevision2
   \<and> power_inv CarloopRevision2 (car (bridge_init (initial CarloopRevision2 (0::nat) 0 0 (\<lambda>_. 0))))
   \<and> power_inv CarloopRevision2 (car (serialEvents CarloopRevision2 (''O'' @ [NEW_LINE] @ ''C'' @ [NEW_LINE])
         (bridge_init (initial CarloopRevision2 (0::nat) 0 0 (\<lambda>_. 0)))))"
proof -
  have h: "power_inv CarloopRevision2 (car (bridge_init (initial CarloopRevision2 (0::nat) 0 0 (\<lambda>_. 0))))"
    using initial_power_inv by (simp add: bridge_init_def)
  then show ?thesis using slcan_power_inv [OF config_wf_Rev2 h] config_wf_Rev2 by blast
qed

end
